(* ===== verification/Prelude.thy ===== *)
theory Prelude
  imports Main "HOL-Library.Word"
begin

unbundle bit_operations_syntax

text \<open>
  What the component theories share: the machine integer types, the handler
  combinators in which the C++ member functions are written, the triples in which
  their correctness is stated, and the locale that turns one-step facts into facts
  about every reachable state.

  A member function that changes an object and produces effects (packets sent,
  database statements, calls into other subsystems) is an \<open>act\<close>: it takes the object
  and returns the new object with the list of effects, in the order the code produces
  them. Statements are sequenced by \<open>acts\<close>; an early \<open>return\<close> is the other branch of
  an \<open>if\<close>.
\<close>

section \<open>Machine integers\<close>

type_synonym u8 = "8 word"
type_synonym u16 = "16 word"
type_synonym u32 = "32 word"
type_synonym u64 = "64 word"

named_theorems act_rules \<open>rules that decompose a triple along the statements of a handler\<close>
named_theorems act_eval \<open>equations that run a handler\<close>

section \<open>Handlers as state transformers with effects\<close>

type_synonym ('s, 'e) act = "'s \<Rightarrow> 's \<times> 'e list"

definition skip :: "('s, 'e) act" where
  "skip s = (s, [])"

definition upd :: "('s \<Rightarrow> 's) \<Rightarrow> ('s, 'e) act" where
  "upd f s = (f s, [])"

definition emit :: "('s \<Rightarrow> 'e list) \<Rightarrow> ('s, 'e) act" where
  "emit f s = (s, f s)"

definition cond :: "('s \<Rightarrow> bool) \<Rightarrow> ('s, 'e) act \<Rightarrow> ('s, 'e) act \<Rightarrow> ('s, 'e) act" where
  "cond b x y s = (if b s then x s else y s)"

text \<open>\<open>load\<close> reads a value from the current state and keeps it for the rest, as a local
  variable of the C++ does.\<close>

definition load :: "('s \<Rightarrow> 'a) \<Rightarrow> ('a \<Rightarrow> ('s, 'e) act) \<Rightarrow> ('s, 'e) act" where
  "load r k s = k (r s) s"

definition andThen :: "('s, 'e) act \<Rightarrow> ('s, 'e) act \<Rightarrow> ('s, 'e) act" where
  "andThen x y s = (let r = x s; q = y (fst r) in (fst q, snd r @ snd q))"

fun acts :: "('s, 'e) act list \<Rightarrow> ('s, 'e) act" where
  "acts [] = skip"
| "acts (x # xs) = andThen x (acts xs)"

text \<open>A \<open>for\<close> loop over a list computed before the loop.\<close>

fun each :: "('a \<Rightarrow> ('s, 'e) act) \<Rightarrow> 'a list \<Rightarrow> ('s, 'e) act" where
  "each f [] = skip"
| "each f (x # xs) = andThen (f x) (each f xs)"

declare acts.simps [simp del, act_eval] each.simps [simp del, act_eval]

abbreviation unless :: "('s \<Rightarrow> bool) \<Rightarrow> ('s, 'e) act \<Rightarrow> ('s, 'e) act" where
  "unless b x \<equiv> cond b skip x"

abbreviation whenever :: "('s \<Rightarrow> bool) \<Rightarrow> ('s, 'e) act \<Rightarrow> ('s, 'e) act" where
  "whenever b x \<equiv> cond b x skip"

lemma skip_eval [act_eval]: "skip s = (s, [])"
  by (simp add: skip_def)

lemma upd_eval [act_eval]: "upd f s = (f s, [])"
  by (simp add: upd_def)

lemma emit_eval [act_eval]: "emit f s = (s, f s)"
  by (simp add: emit_def)

lemma cond_eval [act_eval]: "cond b x y s = (if b s then x s else y s)"
  by (simp add: cond_def)

lemma load_eval [act_eval]: "load r k s = k (r s) s"
  by (simp add: load_def)

lemma andThen_eval [act_eval]:
  "andThen x y s = (fst (y (fst (x s))), snd (x s) @ snd (y (fst (x s))))"
  by (simp add: andThen_def Let_def)

lemma each_append: "each f (xs @ ys) s = andThen (each f xs) (each f ys) s"
  by (induction xs arbitrary: s) (simp_all add: act_eval)

section \<open>Triples\<close>

text \<open>
  \<open>triple P x Q E\<close>: run from a state that satisfies \<open>P\<close>, the handler \<open>x\<close> ends in a
  state that satisfies \<open>Q\<close>, and every effect it produced satisfies \<open>E\<close>. Handlers are
  total functions, so this is total correctness.
\<close>

definition triple ::
  "('s \<Rightarrow> bool) \<Rightarrow> ('s, 'e) act \<Rightarrow> ('s \<Rightarrow> bool) \<Rightarrow> ('e \<Rightarrow> bool) \<Rightarrow> bool" where
  "triple P x Q E \<longleftrightarrow> (\<forall>s. P s \<longrightarrow> Q (fst (x s)) \<and> list_all E (snd (x s)))"

lemma tripleI: "(\<And>s. P s \<Longrightarrow> Q (fst (x s)) \<and> list_all E (snd (x s))) \<Longrightarrow> triple P x Q E"
  by (simp add: triple_def)

lemma tripleT: "(\<And>s. P s \<Longrightarrow> Q (fst (x s))) \<Longrightarrow> triple P x Q (\<lambda>_. True)"
  by (simp add: triple_def list_all_iff)

lemma triple_state: "triple P x Q E \<Longrightarrow> P s \<Longrightarrow> Q (fst (x s))"
  by (simp add: triple_def)

lemma triple_effects: "triple P x Q E \<Longrightarrow> P s \<Longrightarrow> e \<in> set (snd (x s)) \<Longrightarrow> E e"
  by (auto simp: triple_def list_all_iff)

lemma triple_skip [act_rules]: "triple P skip P E"
  by (simp add: triple_def act_eval)

lemma triple_upd [act_rules]: "(\<And>s. P s \<Longrightarrow> Q (f s)) \<Longrightarrow> triple P (upd f) Q E"
  by (simp add: triple_def act_eval)

lemma triple_emit [act_rules]: "(\<And>s. P s \<Longrightarrow> list_all E (f s)) \<Longrightarrow> triple P (emit f) P E"
  by (simp add: triple_def act_eval)

lemma triple_cond [act_rules]:
  assumes "triple (\<lambda>s. P s \<and> b s) x Q E" and "triple (\<lambda>s. P s \<and> \<not> b s) y Q E"
  shows "triple P (cond b x y) Q E"
  using assms by (auto simp: triple_def act_eval)

lemma triple_load [act_rules]:
  assumes "\<And>v. triple (\<lambda>s. P s \<and> r s = v) (k v) Q E"
  shows "triple P (load r k) Q E"
  using assms by (auto simp: triple_def act_eval)

lemma triple_andThen:
  assumes "triple P x Q E" and "triple Q y R E"
  shows "triple P (andThen x y) R E"
  using assms by (auto simp: triple_def act_eval)

lemma triple_acts_Nil [act_rules]: "triple P (acts []) P E"
  by (simp add: acts.simps triple_skip)

lemma triple_acts_Cons:
  assumes "triple P x Q E" and "triple Q (acts xs) R E"
  shows "triple P (acts (x # xs)) R E"
  using triple_andThen [OF assms] by (simp add: acts.simps)

lemma triple_each:
  assumes "\<And>x. x \<in> set xs \<Longrightarrow> triple P (f x) P E"
  shows "triple P (each f xs) P E"
  using assms
  by (induction xs) (auto simp: acts.simps each.simps intro: triple_andThen triple_skip)

lemma triple_conseq:
  assumes "triple P' x Q' E'" and "\<And>s. P s \<Longrightarrow> P' s" and "\<And>s. Q' s \<Longrightarrow> Q s"
    and "\<And>e. E' e \<Longrightarrow> E e"
  shows "triple P x Q E"
  using assms unfolding triple_def list_all_iff by blast

lemma triple_pre: "triple P' x Q E \<Longrightarrow> (\<And>s. P s \<Longrightarrow> P' s) \<Longrightarrow> triple P x Q E"
  by (auto simp: triple_def)

lemma triple_ex: "(\<And>v. triple (P v) x Q E) \<Longrightarrow> triple (\<lambda>s. \<exists>v. P v s) x Q E"
  by (auto simp: triple_def)

lemma triple_assm: "(b \<Longrightarrow> triple P x Q E) \<Longrightarrow> triple (\<lambda>s. P s \<and> b) x Q E"
  by (auto simp: triple_def)

text \<open>An invariant kept by every statement is kept by the sequence.\<close>

lemma triple_acts_inv:
  assumes "\<And>x. x \<in> set xs \<Longrightarrow> triple I x I E"
  shows "triple I (acts xs) I E"
  using assms
  by (induction xs) (auto simp: acts.simps each.simps intro: triple_andThen triple_skip)

section \<open>Reachable states of a component\<close>

text \<open>
  A component with a step relation and an invariant its steps keep. The client of the
  locale learns that the invariant holds in every state a run can reach, whatever the
  order of the operations.
\<close>

locale component =
  fixes init :: "'s \<Rightarrow> bool"
    and step :: "'s \<Rightarrow> 's \<Rightarrow> bool"
    and inv :: "'s \<Rightarrow> bool"
  assumes init_inv: "init s \<Longrightarrow> inv s"
    and step_inv: "inv s \<Longrightarrow> step s t \<Longrightarrow> inv t"
begin

lemma run_inv: "step\<^sup>*\<^sup>* s t \<Longrightarrow> inv s \<Longrightarrow> inv t"
  by (induction rule: rtranclp_induct) (auto intro: step_inv)

lemma reachable_inv: "init s \<Longrightarrow> step\<^sup>*\<^sup>* s t \<Longrightarrow> inv t"
  by (blast intro: run_inv init_inv)

end

section \<open>Bits\<close>

lemma flag_set_set: "(w OR m) AND m = (m :: 'a::len word)"
  by (simp add: bit_eq_iff bit_simps)

lemma flag_clear: "(w AND NOT m) AND m = (0 :: 'a::len word)"
  by (simp add: bit_eq_iff bit_simps)

lemma flag_set_other: "m AND k = 0 \<Longrightarrow> (w OR m) AND k = w AND (k :: 'a::len word)"
  by (simp add: bit_eq_iff bit_simps) blast

lemma flag_clear_other: "m AND k = 0 \<Longrightarrow> (w AND NOT m) AND k = w AND (k :: 'a::len word)"
  by (simp add: bit_eq_iff bit_simps) blast

lemmas flag_simps = flag_set_set flag_clear flag_set_other flag_clear_other

end
