(* ===== verification/ObjectGuid.thy ===== *)
theory ObjectGuid
  imports Prelude
begin

text \<open>
  The identifiers of game objects (\<open>src/src/server/game/Entities/Object/ObjectGuid.h\<close>
  and \<open>.cpp\<close>): a 64-bit raw value that packs a kind, an entry and a counter. Every
  other component names players, groups and channel members by such values. A raw value
  may carry a kind no \<open>HighGuid\<close> enumerator names, so \<open>GetHigh\<close> gives the 16 bits and
  the enumerators are read through \<open>high_value\<close>.
\<close>

section \<open>Kinds of identifier\<close>

type_synonym guid = u64

datatype HighGuid = HG_Item | HG_Player | HG_GameObject | HG_Transport | HG_Unit | HG_Pet
  | HG_Vehicle | HG_DynamicObject | HG_Corpse | HG_Mo_Transport | HG_Instance | HG_Group

fun high_value :: "HighGuid \<Rightarrow> u16" where
  "high_value HG_Item = 0x4000"
| "high_value HG_Player = 0x0000"
| "high_value HG_GameObject = 0xF110"
| "high_value HG_Transport = 0xF120"
| "high_value HG_Unit = 0xF130"
| "high_value HG_Pet = 0xF140"
| "high_value HG_Vehicle = 0xF150"
| "high_value HG_DynamicObject = 0xF100"
| "high_value HG_Corpse = 0xF101"
| "high_value HG_Mo_Transport = 0x1FC0"
| "high_value HG_Instance = 0x1F40"
| "high_value HG_Group = 0x1F50"

datatype TypeID = TYPEID_OBJECT | TYPEID_ITEM | TYPEID_CONTAINER | TYPEID_UNIT | TYPEID_PLAYER
  | TYPEID_GAMEOBJECT | TYPEID_DYNAMICOBJECT | TYPEID_CORPSE

text \<open>Which kinds are numbered over the whole realm and which per map.\<close>

fun guid_global :: "HighGuid \<Rightarrow> bool" where
  "guid_global HG_Player = True"
| "guid_global HG_Item = True"
| "guid_global HG_Mo_Transport = True"
| "guid_global HG_Group = True"
| "guid_global HG_Instance = True"
| "guid_global _ = False"

definition HasEntry :: "u16 \<Rightarrow> bool" where
  "HasEntry h = (h \<notin> set (map high_value
     [HG_Item, HG_Player, HG_DynamicObject, HG_Corpse, HG_Mo_Transport, HG_Instance, HG_Group]))"

section \<open>Building and reading an identifier\<close>


definition guid_plain :: "HighGuid \<Rightarrow> u32 \<Rightarrow> guid" where
  "guid_plain hi counter =
     (if counter \<noteq> 0 then ucast counter OR push_bit 48 (ucast (high_value hi)) else 0)"

definition GetHigh :: "guid \<Rightarrow> u16" where
  "GetHigh g = ucast (drop_bit 48 g AND 0xFFFF)"

definition GetEntry :: "guid \<Rightarrow> u32" where
  "GetEntry g = (if HasEntry (GetHigh g) then ucast (drop_bit 24 g AND 0xFFFFFF) else 0)"

definition GetCounter :: "guid \<Rightarrow> u32" where
  "GetCounter g =
     (if HasEntry (GetHigh g) then ucast (g AND 0xFFFFFF) else ucast (g AND 0xFFFFFFFF))"

definition GetMaxCounter :: "u16 \<Rightarrow> u32" where
  "GetMaxCounter h = (if HasEntry h then 0x00FFFFFF else 0xFFFFFFFF)"

definition IsEmpty :: "guid \<Rightarrow> bool" where
  "IsEmpty g \<longleftrightarrow> g = 0"

definition is_kind :: "HighGuid \<Rightarrow> guid \<Rightarrow> bool" where
  "is_kind h g \<longleftrightarrow> GetHigh g = high_value h"

definition IsPlayer :: "guid \<Rightarrow> bool" where
  "IsPlayer g \<longleftrightarrow> \<not> IsEmpty g \<and> is_kind HG_Player g"

definition IsAnyTypeCreature :: "guid \<Rightarrow> bool" where
  "IsAnyTypeCreature g \<longleftrightarrow> is_kind HG_Unit g \<or> is_kind HG_Pet g \<or> is_kind HG_Vehicle g"

definition IsUnit :: "guid \<Rightarrow> bool" where
  "IsUnit g \<longleftrightarrow> IsAnyTypeCreature g \<or> IsPlayer g"

definition GetTypeId :: "u16 \<Rightarrow> TypeID" where
  "GetTypeId h =
     (if h = high_value HG_Item then TYPEID_ITEM
      else if h = high_value HG_Unit \<or> h = high_value HG_Pet then TYPEID_UNIT
      else if h = high_value HG_Player then TYPEID_PLAYER
      else if h = high_value HG_GameObject then TYPEID_GAMEOBJECT
      else if h = high_value HG_DynamicObject then TYPEID_DYNAMICOBJECT
      else if h = high_value HG_Corpse then TYPEID_CORPSE
      else if h = high_value HG_Mo_Transport then TYPEID_GAMEOBJECT
      else if h = high_value HG_Vehicle then TYPEID_UNIT
      else TYPEID_OBJECT)"

section \<open>The counter generator\<close>

text \<open>\<open>Generate\<close> reports an overflow (the server is told to stop) and still hands out the
  number; the flag of the result says whether \<open>HandleCounterOverflow\<close> was called.\<close>

definition Generate :: "HighGuid \<Rightarrow> u32 \<Rightarrow> (u32 \<times> bool) \<times> u32" where
  "Generate high next = ((next, next \<ge> GetMaxCounter (high_value high) - 1), next + 1)"

fun generate_many :: "HighGuid \<Rightarrow> nat \<Rightarrow> u32 \<Rightarrow> (u32 \<times> bool) list" where
  "generate_many high 0 next = []"
| "generate_many high (Suc n) next =
     (case Generate high next of (r, next') \<Rightarrow> r # generate_many high n next')"

section \<open>Lemmas\<close>

lemma HasEntry_high: "HasEntry (high_value h) \<longleftrightarrow>
    h \<in> {HG_GameObject, HG_Transport, HG_Unit, HG_Pet, HG_Vehicle}"
  by (cases h) (simp_all add: HasEntry_def)

lemma high_value_inj: "high_value h = high_value k \<longleftrightarrow> h = k"
  by (cases h; cases k) simp_all

lemma mask_numerals: "(0xFFFF :: u64) = mask 16" "(0xFFFFFF :: u64) = mask 24"
    "(0xFFFFFFFF :: u64) = mask 32"
  by (simp_all add: mask_eq_exp_minus_1)

lemma bit_mask_numerals:
  "bit (0xFFFF :: u64) n \<longleftrightarrow> n < 16"
  "bit (0xFFFFFF :: u64) n \<longleftrightarrow> n < 24"
  "bit (0xFFFFFFFF :: u64) n \<longleftrightarrow> n < 32"
  unfolding mask_numerals by (auto simp: bit_mask_iff)

lemma small_word_bits: "unat (w :: u32) < 2 ^ k \<Longrightarrow> k \<le> n \<Longrightarrow> \<not> bit w n"
  by (metis bit_take_bit_iff le_antisym linorder_not_le nat_less_le take_bit_eq_self_iff_drop_bit_eq_0 unat_drop_bit_eq
      unsigned_0 word_eq_iff_unsigned drop_bit_eq_div div_less take_bit_eq_self_iff_drop_bit_eq_0)

lemma small_bits24: "unat (w :: u32) < 2 ^ 24 \<Longrightarrow> 24 \<le> n \<Longrightarrow> \<not> bit w n"
  by (rule small_word_bits)

lemma GetHigh_plain: "c \<noteq> 0 \<Longrightarrow> GetHigh (guid_plain h c) = high_value h"
  unfolding GetHigh_def guid_plain_def mask_numerals
  by (auto simp: bit_eq_iff bit_simps dest: bit_imp_le_length)


lemma low_part:
  assumes "unat c < 2 ^ 24"
  shows "ucast ((ucast c OR push_bit 24 (ucast e) OR push_bit 48 (ucast (x :: u16)))
           AND (0xFFFFFF :: u64)) = (c :: u32)"
  using small_bits24 [OF assms] unfolding mask_numerals
  by (auto simp: bit_eq_iff bit_simps) (meson linorder_not_le)

lemma mid_part:
  assumes "unat c < 2 ^ 24" and "unat e < 2 ^ 24"
  shows "ucast (drop_bit 24 (ucast (c :: u32) OR push_bit 24 (ucast e) OR push_bit 48 (ucast (x :: u16)))
           AND (0xFFFFFF :: u64)) = (e :: u32)"
  using small_bits24 [OF assms(1)] small_bits24 [OF assms(2)] unfolding mask_numerals
  by (auto simp: bit_eq_iff bit_simps) (meson linorder_not_le)

lemma plain_part: "ucast ((ucast c OR push_bit 48 (ucast (x :: u16))) AND (0xFFFFFFFF :: u64)) = (c :: u32)"
  unfolding mask_numerals by (auto simp: bit_eq_iff bit_simps)

lemmas guid_parts = low_part mid_part plain_part

text \<open>The generator counts up by one until it reports an overflow.\<close>

lemma max_counter_bound: "GetMaxCounter h - 1 < (0xFFFFFFFF :: u32)"
  by (simp add: GetMaxCounter_def)

lemma generate_many_values:
  assumes "\<forall>r \<in> set (generate_many h n next). \<not> snd r"
  shows "map (unat \<circ> fst) (generate_many h n next) = [unat next ..< unat next + n]"
  using assms
proof (induction n arbitrary: "next")
  case (Suc n)
  let ?m = "GetMaxCounter (high_value h) - 1"
  have below: "next < ?m"
    using Suc.prems by (simp add: Generate_def not_le)
  from less_trans [OF below max_counter_bound] have "next < 0xFFFFFFFF" .
  then have "unat (next + 1) = unat next + 1"
    by (simp add: unat_word_ariths word_less_nat_alt)
  then show ?case
    using Suc by (simp add: Generate_def upt_conv_Cons)
qed simp

section \<open>Properties\<close>

text \<open>Building an identifier of a realm-wide kind and reading it back gives the kind
  and the counter.\<close>

theorem guid_plain_roundtrip:
  assumes "guid_global h" and "c \<noteq> 0"
  shows "GetHigh (guid_plain h c) = high_value h \<and> GetCounter (guid_plain h c) = c \<and>
         GetEntry (guid_plain h c) = 0 \<and> \<not> IsEmpty (guid_plain h c)"
proof -
  have noentry: "\<not> HasEntry (high_value h)"
    using assms(1) by (cases h) (simp_all add: HasEntry_def)
  have high: "GetHigh (guid_plain h c) = high_value h" by (rule GetHigh_plain [OF assms(2)])
  have counter: "GetCounter (guid_plain h c) = c"
    using noentry assms(2) by (simp add: GetCounter_def high) (simp add: guid_plain_def guid_parts)
  moreover have "GetCounter 0 = 0" by (simp add: GetCounter_def)
  ultimately have "guid_plain h c \<noteq> 0" using assms(2) by metis
  with high counter noentry show ?thesis by (simp add: GetEntry_def IsEmpty_def)
qed

theorem guid_plain_roundtrip_witness:
  "GetCounter (guid_plain HG_Player 77) = 77 \<and> GetHigh (guid_plain HG_Player 77) = 0"
  using guid_plain_roundtrip [of HG_Player 77] by simp



text \<open>As long as the generator has reported no overflow, the counters it handed out are
  pairwise different.\<close>

theorem generator_unique:
  assumes "\<forall>r \<in> set (generate_many h n start). \<not> snd r"
  shows "distinct (map fst (generate_many h n start))"
proof -
  have "distinct (map unat (map fst (generate_many h n start)))"
    using generate_many_values [OF assms] by simp
  then show ?thesis by (simp only: distinct_map)
qed

theorem generator_unique_witness: "distinct (map fst (generate_many HG_Unit 3 41))"
  using generator_unique [of HG_Unit 3 41]
  by (simp add: numeral_3_eq_3 Generate_def GetMaxCounter_def HasEntry_def)

end
