(* ===== verification/Containers.thy ===== *)
theory Containers
  imports Prelude "HOL-Library.AList" "HOL-Library.Multiset"
begin

text \<open>
  The standard containers the components keep their state in, as the list of their
  elements in iteration order: \<open>std::unordered_map\<close> (order left open by the standard),
  \<open>std::map\<close> and \<open>std::multimap\<close> (key order; equal keys in insertion order). The locale
  \<open>assoc_store\<close> is what the components use of a map; both kinds of map provide it.
\<close>

section \<open>The interface of a map\<close>

locale assoc_store =
  fixes find :: "'m \<Rightarrow> 'k \<Rightarrow> 'v option"
    and assign :: "'k \<Rightarrow> 'v \<Rightarrow> 'm \<Rightarrow> 'm"
    and erase :: "'k \<Rightarrow> 'm \<Rightarrow> 'm"
    and valid :: "'m \<Rightarrow> bool"
  assumes find_assign: "valid m \<Longrightarrow> find (assign k v m) = (find m)(k \<mapsto> v)"
    and find_erase: "valid m \<Longrightarrow> find (erase k m) = (find m)(k := None)"
    and valid_assign: "valid m \<Longrightarrow> valid (assign k v m)"
    and valid_erase: "valid m \<Longrightarrow> valid (erase k m)"
begin

lemma find_assign_same: "valid m \<Longrightarrow> find (assign k v m) k = Some v"
  by (simp add: find_assign)

lemma find_assign_other: "valid m \<Longrightarrow> j \<noteq> k \<Longrightarrow> find (assign k v m) j = find m j"
  by (simp add: find_assign)

lemma find_erase_same: "valid m \<Longrightarrow> find (erase k m) k = None"
  by (simp add: find_erase)

lemma find_erase_other: "valid m \<Longrightarrow> j \<noteq> k \<Longrightarrow> find (erase k m) j = find m j"
  by (simp add: find_erase)

lemma dom_assign: "valid m \<Longrightarrow> dom (find (assign k v m)) = insert k (dom (find m))"
  by (simp add: find_assign)

lemma dom_erase: "valid m \<Longrightarrow> dom (find (erase k m)) = dom (find m) - {k}"
  by (simp add: find_erase)

lemma erase_assign: "valid m \<Longrightarrow> find m k = None \<Longrightarrow> find (erase k (assign k v m)) = find m"
  by (simp add: find_assign find_erase valid_assign fun_upd_idem)

end

section \<open>Lists of pairs\<close>

abbreviation keys :: "('k \<times> 'v) list \<Rightarrow> 'k list" where
  "keys m \<equiv> map fst m"

definition has_key :: "'k \<Rightarrow> ('k \<times> 'v) list \<Rightarrow> bool" where
  "has_key k m \<longleftrightarrow> map_of m k \<noteq> None"

lemma has_key_iff: "has_key k m \<longleftrightarrow> k \<in> set (keys m)"
  by (simp add: has_key_def map_of_eq_None_iff)

lemma map_of_key_neq: "map_of m k = Some v \<Longrightarrow> k \<in> set (keys m)"
  by (metis has_key_def has_key_iff option.distinct(1))

lemma in_set_iff_map_of: "distinct (keys m) \<Longrightarrow> (k, v) \<in> set m \<longleftrightarrow> map_of m k = Some v"
  by (metis map_of_SomeD map_of_is_SomeI)

section \<open>\<open>std::unordered_map\<close>\<close>

text \<open>
  Where a new key goes in the iteration order is the library's business: it is a
  parameter \<open>n\<close>, the position of the new element. Erasing keeps the order of the rest,
  as the standard guarantees. A rehash may permute the elements; the step relations of
  the components have a step of their own for it.
\<close>

fun insert_at :: "nat \<Rightarrow> 'a \<Rightarrow> 'a list \<Rightarrow> 'a list" where
  "insert_at 0 x ys = x # ys"
| "insert_at (Suc n) x [] = [x]"
| "insert_at (Suc n) x (y # ys) = y # insert_at n x ys"

definition um_assign :: "nat \<Rightarrow> 'k \<Rightarrow> 'v \<Rightarrow> ('k \<times> 'v) list \<Rightarrow> ('k \<times> 'v) list" where
  "um_assign n k v m = (if has_key k m then AList.update k v m else insert_at n (k, v) m)"

definition um_erase :: "'k \<Rightarrow> ('k \<times> 'v) list \<Rightarrow> ('k \<times> 'v) list" where
  "um_erase k m = AList.delete k m"

definition um_valid :: "('k \<times> 'v) list \<Rightarrow> bool" where
  "um_valid m \<longleftrightarrow> distinct (keys m)"

lemma mset_insert_at: "mset (insert_at n x xs) = add_mset x (mset xs)"
  by (induction n x xs rule: insert_at.induct) auto

lemma set_insert_at [simp]: "set (insert_at n x xs) = insert x (set xs)"
  by (induction n x xs rule: insert_at.induct) auto

lemma distinct_insert_at: "distinct xs \<Longrightarrow> x \<notin> set xs \<Longrightarrow> distinct (insert_at n x xs)"
  by (induction n x xs rule: insert_at.induct) auto

lemma map_insert_at: "map f (insert_at n x xs) = insert_at n (f x) (map f xs)"
  by (induction n x xs rule: insert_at.induct) auto

lemma insert_at_not_Nil [simp]: "insert_at n x xs \<noteq> []"
  by (cases "(n, x, xs)" rule: insert_at.cases) auto

lemma map_of_insert_at:
  "map_of m k = None \<Longrightarrow> map_of (insert_at n (k, v) m) = (map_of m)(k \<mapsto> v)"
  by (induction n "(k, v)" m rule: insert_at.induct) (auto split: if_splits)

interpretation um: assoc_store map_of "um_assign n" um_erase um_valid for n :: nat
proof
  fix m :: "('k \<times> 'v) list" and k v
  assume m: "um_valid m"
  show "map_of (um_assign n k v m) = (map_of m)(k \<mapsto> v)"
    by (simp add: um_assign_def has_key_def update_conv' map_of_insert_at)
  show "map_of (um_erase k m) = (map_of m)(k := None)"
    by (simp add: um_erase_def delete_conv')
  show "um_valid (um_assign n k v m)"
    using m distinct_insert_at [of "keys m" k n]
    by (auto simp: um_valid_def um_assign_def has_key_iff distinct_update map_insert_at)
  show "um_valid (um_erase k m)"
    using m by (simp add: um_valid_def um_erase_def distinct_delete)
qed

lemma um_assign_mem:
  "um_valid m \<Longrightarrow> (j, x) \<in> set (um_assign n k v m) \<longleftrightarrow>
     (if j = k then x = v else (j, x) \<in> set m)"
  by (auto simp: in_set_iff_map_of [folded um_valid_def] um.valid_assign um.find_assign
      split: if_splits)

lemma um_erase_mem:
  "um_valid m \<Longrightarrow> (j, x) \<in> set (um_erase k m) \<longleftrightarrow> j \<noteq> k \<and> (j, x) \<in> set m"
  by (auto simp: in_set_iff_map_of [folded um_valid_def] um.valid_erase um.find_erase)

lemma um_assign_not_Nil [simp]: "um_assign n k v m \<noteq> []"
  by (cases m) (auto simp: um_assign_def has_key_def)

lemma um_erase_Nil_iff: "um_erase k m = [] \<longleftrightarrow> set (keys m) \<subseteq> {k}"
  by (induction m) (auto simp: um_erase_def)

section \<open>\<open>std::unordered_set\<close>\<close>

definition us_insert :: "nat \<Rightarrow> 'a \<Rightarrow> 'a list \<Rightarrow> 'a list" where
  "us_insert n x xs = (if x \<in> set xs then xs else insert_at n x xs)"

lemma set_us_insert [simp]: "set (us_insert n x xs) = insert x (set xs)"
  by (auto simp: us_insert_def)

lemma distinct_us_insert: "distinct xs \<Longrightarrow> distinct (us_insert n x xs)"
  by (auto simp: us_insert_def intro: distinct_insert_at)

section \<open>\<open>std::map\<close>\<close>

fun om_assign :: "'k::linorder \<Rightarrow> 'v \<Rightarrow> ('k \<times> 'v) list \<Rightarrow> ('k \<times> 'v) list" where
  "om_assign k v [] = [(k, v)]"
| "om_assign k v ((j, w) # m) =
     (if k < j then (k, v) # (j, w) # m
      else if k = j then (k, v) # m
      else (j, w) # om_assign k v m)"

definition om_erase :: "'k::linorder \<Rightarrow> ('k \<times> 'v) list \<Rightarrow> ('k \<times> 'v) list" where
  "om_erase k m = filter (\<lambda>e. fst e \<noteq> k) m"

definition om_valid :: "('k::linorder \<times> 'v) list \<Rightarrow> bool" where
  "om_valid m \<longleftrightarrow> sorted_wrt (<) (keys m)"

lemma set_keys_om_assign: "set (keys (om_assign k v m)) = insert k (set (keys m))"
  by (induction k v m rule: om_assign.induct) auto

lemma om_valid_Cons: "om_valid ((k, v) # m) \<longleftrightarrow> (\<forall>j \<in> set (keys m). k < j) \<and> om_valid m"
  by (simp add: om_valid_def)

lemma om_valid_assign: "om_valid m \<Longrightarrow> om_valid (om_assign k v m)"
proof (induction k v m rule: om_assign.induct)
  case (2 k v j w m)
  have "om_valid m" and above: "\<forall>i \<in> set (keys m). j < i"
    using "2.prems" by (simp_all add: om_valid_Cons)
  then show ?case
    using "2.prems" "2.IH" set_keys_om_assign [of k v m]
    by (cases k j rule: linorder_cases) (auto simp: om_valid_Cons)
qed (simp add: om_valid_def)

lemma map_of_om_assign: "map_of (om_assign k v m) = (map_of m)(k \<mapsto> v)"
  by (induction k v m rule: om_assign.induct) auto

lemma map_of_om_erase: "map_of (om_erase k m) = (map_of m)(k := None)"
  by (induction m) (auto simp: om_erase_def)

interpretation om: assoc_store map_of om_assign om_erase om_valid
proof
  fix m :: "('k::linorder \<times> 'v) list" and k v
  assume m: "om_valid m"
  show "map_of (om_assign k v m) = (map_of m)(k \<mapsto> v)" by (rule map_of_om_assign)
  show "map_of (om_erase k m) = (map_of m)(k := None)" by (rule map_of_om_erase)
  show "om_valid (om_assign k v m)" using m by (rule om_valid_assign)
  show "om_valid (om_erase k m)"
    using m by (induction m) (auto simp: om_erase_def om_valid_def)
qed

lemma om_valid_distinct: "om_valid m \<Longrightarrow> distinct (keys m)"
  by (simp add: om_valid_def strict_sorted_iff)

text \<open>Changing the values in place keeps the keys and so the order.\<close>

definition om_modify :: "'k \<Rightarrow> ('v \<Rightarrow> 'v) \<Rightarrow> ('k \<times> 'v) list \<Rightarrow> ('k \<times> 'v) list" where
  "om_modify k f m = map (\<lambda>(j, w). (j, if j = k then f w else w)) m"

lemma keys_om_modify [simp]: "keys (om_modify k f m) = keys m"
  by (induction m) (auto simp: om_modify_def)

lemma map_of_om_modify:
  "map_of (om_modify k f m) j = (if j = k then map_option f (map_of m k) else map_of m j)"
  by (induction m) (auto simp: om_modify_def)

lemma om_valid_modify [simp]: "om_valid (om_modify k f m) \<longleftrightarrow> om_valid m"
  by (simp add: om_valid_def)

lemma om_modify_Cons: "om_modify p f ((j, w) # m) = (j, if j = p then f w else w) # om_modify p f m"
  by (simp add: om_modify_def)

lemma om_erase_Cons: "om_erase p (x # m) = (if fst x = p then om_erase p m else x # om_erase p m)"
  by (simp add: om_erase_def)

lemma om_modify_absent: "p \<notin> set (keys m) \<Longrightarrow> om_modify p f m = m"
  by (induction m) (auto simp: om_modify_def)

lemma om_erase_absent: "p \<notin> set (keys m) \<Longrightarrow> om_erase p m = m"
  by (induction m) (auto simp: om_erase_def)

section \<open>\<open>std::multimap\<close>\<close>

text \<open>\<open>emplace\<close> puts the new element behind the elements with the same key.\<close>

fun mm_insert :: "'k::linorder \<Rightarrow> 'v \<Rightarrow> ('k \<times> 'v) list \<Rightarrow> ('k \<times> 'v) list" where
  "mm_insert k v [] = [(k, v)]"
| "mm_insert k v ((j, w) # m) = (if k < j then (k, v) # (j, w) # m else (j, w) # mm_insert k v m)"

definition mm_valid :: "('k::linorder \<times> 'v) list \<Rightarrow> bool" where
  "mm_valid m \<longleftrightarrow> sorted (keys m)"

lemma mset_mm_insert: "mset (mm_insert k v m) = add_mset (k, v) (mset m)"
  by (induction k v m rule: mm_insert.induct) auto

lemma set_mm_insert: "set (mm_insert k v m) = insert (k, v) (set m)"
  by (induction k v m rule: mm_insert.induct) auto

lemma mm_valid_insert: "mm_valid m \<Longrightarrow> mm_valid (mm_insert k v m)"
  by (induction k v m rule: mm_insert.induct) (auto simp: mm_valid_def set_mm_insert)

lemma mm_valid_filter: "mm_valid m \<Longrightarrow> mm_valid (filter P m)"
  by (simp add: mm_valid_def sorted_filter)

lemma mm_insert_not_Nil [simp]: "mm_insert k v m \<noteq> []"
  by (cases "(k, v, m)" rule: mm_insert.cases) auto

lemma mm_insert_last: "\<forall>j \<in> set (keys m). j \<le> k \<Longrightarrow> mm_insert k v m = m @ [(k, v)]"
  by (induction k v m rule: mm_insert.induct) auto

section \<open>A queue ordered by time\<close>

lemma sort_key_append:
  "sort_key f (sort_key f xs @ ys) = sort_key f (xs @ ys)" "sort_key f (xs @ sort_key f ys) = sort_key f (xs @ ys)"
proof -
  have e: "(\<lambda>x. f k = f x) = (\<lambda>x. f x = f k)" for k by auto
  show "sort_key f (sort_key f xs @ ys) = sort_key f (xs @ ys)"
    by (rule properties_for_sort_key) (simp_all add: e sort_key_stable)
  show "sort_key f (xs @ sort_key f ys) = sort_key f (xs @ ys)"
    by (rule properties_for_sort_key) (simp_all add: e sort_key_stable)
qed

text \<open>What the components that keep things to do by time use of a multimap: an entry goes behind
  those of the same time, as if it were appended and the whole sorted stably. The clients learn what
  is due at a time, and what inserting many entries, or one for later, leaves of it.\<close>

locale timed_queue =
  fixes ins :: "'k::linorder \<Rightarrow> 'v \<Rightarrow> 'q \<Rightarrow> 'q"
    and valid :: "'q \<Rightarrow> bool"
    and entries :: "'q \<Rightarrow> ('k \<times> 'v) list"
  assumes entries_sorted: "valid q \<Longrightarrow> sorted (map fst (entries q))"
    and ins_valid: "valid q \<Longrightarrow> valid (ins k v q)"
    and ins_entries: "valid q \<Longrightarrow> entries (ins k v q) = sort_key fst (entries q @ [(k, v)])"
begin

lemma ins_many:
  "valid q \<Longrightarrow> valid (fold (\<lambda>(k, v). ins k v) xs q) \<and>
     entries (fold (\<lambda>(k, v). ins k v) xs q) = sort_key fst (entries q @ xs)"
proof (induction xs arbitrary: q)
  case Nil
  then show ?case using entries_sorted by (simp add: sort_key_id_if_sorted)
next
  case (Cons x xs)
  obtain k v where x: "x = (k, v)" by (cases x)
  have "valid (ins k v q)" using Cons.prems by (rule ins_valid)
  with Cons.IH [OF this] show ?case
    using ins_entries [OF Cons.prems] by (simp add: x sort_key_append)
qed

text \<open>What is due comes first.\<close>

lemma due_first:
  assumes "valid q"
  shows "takeWhile (\<lambda>x. fst x \<le> t) (entries q) = filter (\<lambda>x. fst x \<le> t) (entries q)"
    and "dropWhile (\<lambda>x. fst x \<le> t) (entries q) = filter (\<lambda>x. \<not> fst x \<le> t) (entries q)"
proof -
  have "takeWhile (\<lambda>x. fst x \<le> t) xs = filter (\<lambda>x. fst x \<le> t) xs \<and>
      dropWhile (\<lambda>x. fst x \<le> t) xs = filter (\<lambda>x. \<not> fst x \<le> t) xs"
    if "sorted (map fst xs)" for xs :: "('k \<times> 'v) list"
    using that
  proof (induction xs)
    case (Cons x xs)
    then have "\<not> fst x \<le> t \<Longrightarrow> \<forall>y \<in> set xs. \<not> fst y \<le> t" by fastforce
    with Cons show ?case by (simp add: filter_True filter_False)
  qed simp
  with entries_sorted [OF assms] show
    "takeWhile (\<lambda>x. fst x \<le> t) (entries q) = filter (\<lambda>x. fst x \<le> t) (entries q)"
    "dropWhile (\<lambda>x. fst x \<le> t) (entries q) = filter (\<lambda>x. \<not> fst x \<le> t) (entries q)" by blast+
qed

text \<open>An entry for later changes nothing of what is due.\<close>

lemma due_ins:
  assumes "valid q" and "t < k"
  shows "filter (\<lambda>x. fst x \<le> t) (entries (ins k v q)) = filter (\<lambda>x. fst x \<le> t) (entries q)"
proof -
  have "sorted (map fst (filter (\<lambda>x. fst x \<le> t) (entries q)))"
    using entries_sorted [OF assms(1)] by (rule sorted_filter)
  then show ?thesis using assms by (simp add: ins_entries filter_sort sort_key_id_if_sorted)
qed

end

lemma mm_insert_key: "filter (\<lambda>x. j = fst x) (mm_insert k v m) =
    filter (\<lambda>x. j = fst x) (m @ [(k, v)])" if "mm_valid m"
  using that
proof (induction k v m rule: mm_insert.induct)
  case (2 k v j' w m)
  have above: "j \<noteq> k \<or> filter (\<lambda>x. k = fst x) ((j', w) # m) = []" if "k < j'"
  proof -
    have "\<forall>x \<in> set ((j', w) # m). k < fst x" using that "2.prems" by (auto simp: mm_valid_def intro: less_le_trans)
    then have "\<forall>x \<in> set ((j', w) # m). k \<noteq> fst x" by blast
    then show ?thesis by (simp add: filter_empty_conv)
  qed
  show ?case using above "2.IH" "2.prems" by (auto simp: mm_valid_def)
qed auto

lemma mm_insert_sort: "mm_valid m \<Longrightarrow> mm_insert k v m = sort_key fst (m @ [(k, v)])"
  using mm_valid_insert [of m k v]
  by (intro properties_for_sort_key [symmetric]) (simp_all add: mset_mm_insert mm_insert_key mm_valid_def del: filter_append)

interpretation mmq: timed_queue mm_insert mm_valid "\<lambda>m. m"
  by unfold_locales (simp add: mm_valid_def, rule mm_valid_insert, assumption, rule mm_insert_sort)

end
