(* ===== verification/ChannelTypes.thy ===== *)
theory ChannelTypes
  imports ObjectGuid Containers
begin

text \<open>
  Data of the chat channels (\<open>src/src/server/game/Chat/Channels/Channel.h\<close>): notices,
  flag words, channel rights, the entry kept per member and the channel object itself;
  the packets a channel builds; what a channel asks of the rest of the server (\<open>world\<close>:
  player objects, the player directories, the character cache, the game clock and the
  configuration), which are inputs of the model; and the effects it produces.
\<close>

section \<open>Enumerations and flag words\<close>

datatype ChatNotify =
    CHAT_JOINED_NOTICE | CHAT_LEFT_NOTICE | CHAT_YOU_JOINED_NOTICE | CHAT_YOU_LEFT_NOTICE
  | CHAT_WRONG_PASSWORD_NOTICE | CHAT_NOT_MEMBER_NOTICE | CHAT_NOT_MODERATOR_NOTICE
  | CHAT_PASSWORD_CHANGED_NOTICE | CHAT_OWNER_CHANGED_NOTICE | CHAT_PLAYER_NOT_FOUND_NOTICE
  | CHAT_NOT_OWNER_NOTICE | CHAT_CHANNEL_OWNER_NOTICE | CHAT_MODE_CHANGE_NOTICE
  | CHAT_ANNOUNCEMENTS_ON_NOTICE | CHAT_ANNOUNCEMENTS_OFF_NOTICE | CHAT_MODERATION_ON_NOTICE
  | CHAT_MODERATION_OFF_NOTICE | CHAT_MUTED_NOTICE | CHAT_PLAYER_KICKED_NOTICE
  | CHAT_BANNED_NOTICE | CHAT_PLAYER_BANNED_NOTICE | CHAT_PLAYER_UNBANNED_NOTICE
  | CHAT_PLAYER_NOT_BANNED_NOTICE | CHAT_PLAYER_ALREADY_MEMBER_NOTICE | CHAT_INVITE_NOTICE
  | CHAT_INVITE_WRONG_FACTION_NOTICE | CHAT_WRONG_FACTION_NOTICE | CHAT_INVALID_NAME_NOTICE
  | CHAT_NOT_MODERATED_NOTICE | CHAT_PLAYER_INVITED_NOTICE | CHAT_PLAYER_INVITE_BANNED_NOTICE
  | CHAT_THROTTLED_NOTICE | CHAT_NOT_IN_AREA_NOTICE | CHAT_NOT_IN_LFG_NOTICE
  | CHAT_VOICE_ON_NOTICE | CHAT_VOICE_OFF_NOTICE

definition chat_notify_order :: "ChatNotify list" where
  "chat_notify_order =
    [CHAT_JOINED_NOTICE, CHAT_LEFT_NOTICE, CHAT_YOU_JOINED_NOTICE, CHAT_YOU_LEFT_NOTICE,
     CHAT_WRONG_PASSWORD_NOTICE, CHAT_NOT_MEMBER_NOTICE, CHAT_NOT_MODERATOR_NOTICE,
     CHAT_PASSWORD_CHANGED_NOTICE, CHAT_OWNER_CHANGED_NOTICE, CHAT_PLAYER_NOT_FOUND_NOTICE,
     CHAT_NOT_OWNER_NOTICE, CHAT_CHANNEL_OWNER_NOTICE, CHAT_MODE_CHANGE_NOTICE,
     CHAT_ANNOUNCEMENTS_ON_NOTICE, CHAT_ANNOUNCEMENTS_OFF_NOTICE, CHAT_MODERATION_ON_NOTICE,
     CHAT_MODERATION_OFF_NOTICE, CHAT_MUTED_NOTICE, CHAT_PLAYER_KICKED_NOTICE,
     CHAT_BANNED_NOTICE, CHAT_PLAYER_BANNED_NOTICE, CHAT_PLAYER_UNBANNED_NOTICE,
     CHAT_PLAYER_NOT_BANNED_NOTICE, CHAT_PLAYER_ALREADY_MEMBER_NOTICE, CHAT_INVITE_NOTICE,
     CHAT_INVITE_WRONG_FACTION_NOTICE, CHAT_WRONG_FACTION_NOTICE, CHAT_INVALID_NAME_NOTICE,
     CHAT_NOT_MODERATED_NOTICE, CHAT_PLAYER_INVITED_NOTICE, CHAT_PLAYER_INVITE_BANNED_NOTICE,
     CHAT_THROTTLED_NOTICE, CHAT_NOT_IN_AREA_NOTICE, CHAT_NOT_IN_LFG_NOTICE,
     CHAT_VOICE_ON_NOTICE, CHAT_VOICE_OFF_NOTICE]"

text \<open>The enumerators are numbered from 0 in this order.\<close>

fun index_in :: "'a \<Rightarrow> 'a list \<Rightarrow> nat" where
  "index_in x [] = 0"
| "index_in x (y # ys) = (if x = y then 0 else Suc (index_in x ys))"

definition notify_code :: "ChatNotify \<Rightarrow> u8" where
  "notify_code n = of_nat (index_in n chat_notify_order)"

definition CHANNEL_FLAG_NONE :: u8 where "CHANNEL_FLAG_NONE = 0x00"
definition CHANNEL_FLAG_CUSTOM :: u8 where "CHANNEL_FLAG_CUSTOM = 0x01"
definition CHANNEL_FLAG_TRADE :: u8 where "CHANNEL_FLAG_TRADE = 0x04"
definition CHANNEL_FLAG_NOT_LFG :: u8 where "CHANNEL_FLAG_NOT_LFG = 0x08"
definition CHANNEL_FLAG_GENERAL :: u8 where "CHANNEL_FLAG_GENERAL = 0x10"
definition CHANNEL_FLAG_CITY :: u8 where "CHANNEL_FLAG_CITY = 0x20"
definition CHANNEL_FLAG_LFG :: u8 where "CHANNEL_FLAG_LFG = 0x40"

definition CHANNEL_DBC_FLAG_TRADE :: u32 where "CHANNEL_DBC_FLAG_TRADE = 0x00008"
definition CHANNEL_DBC_FLAG_CITY_ONLY2 :: u32 where "CHANNEL_DBC_FLAG_CITY_ONLY2 = 0x00020"
definition CHANNEL_DBC_FLAG_LFG :: u32 where "CHANNEL_DBC_FLAG_LFG = 0x40000"

definition MEMBER_FLAG_NONE :: u8 where "MEMBER_FLAG_NONE = 0x00"
definition MEMBER_FLAG_OWNER :: u8 where "MEMBER_FLAG_OWNER = 0x01"
definition MEMBER_FLAG_MODERATOR :: u8 where "MEMBER_FLAG_MODERATOR = 0x02"
definition MEMBER_FLAG_MUTED :: u8 where "MEMBER_FLAG_MUTED = 0x08"

definition CHANNEL_RIGHT_FORCE_NO_ANNOUNCEMENTS :: u32 where
  "CHANNEL_RIGHT_FORCE_NO_ANNOUNCEMENTS = 0x001"
definition CHANNEL_RIGHT_FORCE_ANNOUNCEMENTS :: u32 where
  "CHANNEL_RIGHT_FORCE_ANNOUNCEMENTS = 0x002"
definition CHANNEL_RIGHT_NO_OWNERSHIP :: u32 where "CHANNEL_RIGHT_NO_OWNERSHIP = 0x004"
definition CHANNEL_RIGHT_CANT_SPEAK :: u32 where "CHANNEL_RIGHT_CANT_SPEAK = 0x008"
definition CHANNEL_RIGHT_CANT_BAN :: u32 where "CHANNEL_RIGHT_CANT_BAN = 0x010"
definition CHANNEL_RIGHT_CANT_KICK :: u32 where "CHANNEL_RIGHT_CANT_KICK = 0x020"
definition CHANNEL_RIGHT_CANT_MUTE :: u32 where "CHANNEL_RIGHT_CANT_MUTE = 0x040"
definition CHANNEL_RIGHT_CANT_CHANGE_PASSWORD :: u32 where
  "CHANNEL_RIGHT_CANT_CHANGE_PASSWORD = 0x080"
definition CHANNEL_RIGHT_DONT_PRESERVE :: u32 where "CHANNEL_RIGHT_DONT_PRESERVE = 0x100"

datatype TeamId = TEAM_ALLIANCE | TEAM_HORDE | TEAM_NEUTRAL

text \<open>Account security levels.\<close>

definition SEC_PLAYER :: u32 where "SEC_PLAYER = 0"
definition SEC_MODERATOR :: u32 where "SEC_MODERATOR = 5"
definition SEC_CONSOLE :: u32 where "SEC_CONSOLE = 8"

definition IsPlayerAccount :: "u32 \<Rightarrow> bool" where
  "IsPlayerAccount gmlevel \<longleftrightarrow> gmlevel = SEC_PLAYER"

definition IsGMAccount :: "u32 \<Rightarrow> bool" where
  "IsGMAccount gmlevel \<longleftrightarrow> gmlevel \<ge> SEC_MODERATOR \<and> gmlevel \<le> SEC_CONSOLE"

section \<open>Objects\<close>

record ChannelRights =
  cr_flags :: u32
  cr_speakDelay :: u32
  cr_joinMessage :: string
  cr_speakMessage :: string
  cr_moderators :: "u32 list"

definition channelRightsEmpty :: ChannelRights where
  "channelRightsEmpty = \<lparr>cr_flags = 0, cr_speakDelay = 0, cr_joinMessage = [],
     cr_speakMessage = [], cr_moderators = []\<rparr>"

text \<open>A pointer to a player object is the player's identifier, \<open>None\<close> the null pointer.\<close>

record PlayerInfo =
  pi_player :: guid
  pi_flags :: u8
  pi_plrPtr :: "guid option"
  pi_gmStatus :: bool

definition pi_empty :: PlayerInfo where
  "pi_empty = \<lparr>pi_player = 0, pi_flags = 0, pi_plrPtr = None, pi_gmStatus = False\<rparr>"

definition IsOwner :: "PlayerInfo \<Rightarrow> bool" where
  "IsOwner p \<longleftrightarrow> pi_flags p AND MEMBER_FLAG_OWNER \<noteq> 0"

definition pi_SetOwner :: "bool \<Rightarrow> PlayerInfo \<Rightarrow> PlayerInfo" where
  "pi_SetOwner state p = p\<lparr>pi_flags :=
     (if state then pi_flags p OR MEMBER_FLAG_OWNER else pi_flags p AND NOT MEMBER_FLAG_OWNER)\<rparr>"

definition IsOwnerGM :: "PlayerInfo \<Rightarrow> bool" where
  "IsOwnerGM p \<longleftrightarrow> pi_gmStatus p"

definition pi_SetOwnerGM :: "bool \<Rightarrow> PlayerInfo \<Rightarrow> PlayerInfo" where
  "pi_SetOwnerGM on p = p\<lparr>pi_gmStatus := on\<rparr>"

definition IsModerator :: "PlayerInfo \<Rightarrow> bool" where
  "IsModerator p \<longleftrightarrow> pi_flags p AND MEMBER_FLAG_MODERATOR \<noteq> 0"

definition pi_SetModerator :: "bool \<Rightarrow> PlayerInfo \<Rightarrow> PlayerInfo" where
  "pi_SetModerator state p = p\<lparr>pi_flags :=
     (if state then pi_flags p OR MEMBER_FLAG_MODERATOR
      else pi_flags p AND NOT MEMBER_FLAG_MODERATOR)\<rparr>"

definition IsMuted :: "PlayerInfo \<Rightarrow> bool" where
  "IsMuted p \<longleftrightarrow> pi_flags p AND MEMBER_FLAG_MUTED \<noteq> 0"

definition pi_SetMuted :: "bool \<Rightarrow> PlayerInfo \<Rightarrow> PlayerInfo" where
  "pi_SetMuted state p = p\<lparr>pi_flags :=
     (if state then pi_flags p OR MEMBER_FLAG_MUTED else pi_flags p AND NOT MEMBER_FLAG_MUTED)\<rparr>"

record Channel =
  ch_announce :: bool
  ch_moderation :: bool
  ch_ownership :: bool
  ch_IsSaved :: bool
  ch_isOwnerGM :: bool
  ch_flags :: u8
  ch_channelId :: u32
  ch_channelDBId :: u32
  ch_teamId :: TeamId
  ch_ownerGUID :: guid
  ch_name :: string
  ch_password :: string
  ch_channelRights :: ChannelRights
  playersStore :: "(guid \<times> PlayerInfo) list"
  bannedStore :: "(guid \<times> u32) list"
  playersWatchingStore :: "guid list"

section \<open>The rest of the server, as a channel sees it\<close>

record Player =
  pl_name :: string
  pl_security :: u32
  pl_accountId :: u32
  pl_teamId :: TeamId
  pl_race :: u8
  pl_hasGroup :: bool
  pl_gmVisible :: bool
  pl_ignores :: "guid list"

record CharacterCacheEntry =
  cce_Race :: u8
  cce_AccountId :: u32

record world =
  w_player :: "guid \<Rightarrow> Player"
  w_FindPlayer :: "guid \<Rightarrow> bool"
  w_FindConnectedPlayer :: "guid \<Rightarrow> bool"
  w_normalizePlayerName :: "string \<Rightarrow> string option"
  w_FindPlayerByName :: "string \<Rightarrow> guid option"
  w_GetCharacterGuidByName :: "string \<Rightarrow> guid"
  w_GetCharacterCacheByGuid :: "guid \<Rightarrow> CharacterCacheEntry option"
  w_GetCharacterNameByGuid :: "guid \<Rightarrow> string option"
  w_TeamIdForRace :: "u8 \<Rightarrow> TeamId"
  w_GameTime :: int
  w_insertPos :: nat
  cfg_RestrictedLfg :: bool
  cfg_SilentlyGMJoin :: bool
  cfg_AllowTwoSideChannel :: bool
  cfg_ModerationGMLevel :: u32

datatype opcode = SMSG_CHANNEL_NOTIFY | SMSG_CHANNEL_LIST | SMSG_USERLIST_ADD
  | SMSG_USERLIST_REMOVE | SMSG_USERLIST_UPDATE | SMSG_CHANNEL_MEMBER_COUNT

datatype field = F8 u8 | F32 u32 | FGuid guid | FStr string

text \<open>A packet is its opcode and the fields written after it. The chat message packet is built
  by \<open>ChatHandler::BuildChatPacket\<close> and kept by its arguments: language, sender, whether a
  player object was at hand, text and channel name.\<close>

datatype packet = Packet opcode "field list" | ChatPacket u32 guid bool string string

datatype chan_effect =
    SendPacket guid packet
  | PSendSysMessage guid string
  | JoinedChannel guid
  | LeftChannel guid
  | ExecUpdChannel bool string u32
  | ExecUpdChannelUsage u32
  | ExecInsChannelBan u32 u32 u32
  | ExecDelChannelBan u32 u32
  | ExecInsChannel u32 string TeamId bool
  | ExecDelChannel string u32
  | ExecDelOldChannels int
  | ExecDelOldChannelsBans
  | LogUnban u32 guid
  | KickSession guid
  | NullDeref

type_synonym chan_act = "(Channel, chan_effect) act"

end
