(* ===== verification/ChannelPackets.thy ===== *)
theory ChannelPackets
  imports ChannelTypes
begin

text \<open>
  The packets a channel builds (the \<open>Make...\<close> members of
  \<open>src/src/server/game/Chat/Channels/Channel.cpp\<close>) and the members that send them. The
  packet is built from the channel's state at the moment of the call, so the senders take
  the builder.
\<close>

section \<open>Looking at the members\<close>

definition IsConstant :: "Channel \<Rightarrow> bool" where
  "IsConstant ch \<longleftrightarrow> ch_channelId ch \<noteq> 0"

definition HasFlag :: "Channel \<Rightarrow> u8 \<Rightarrow> bool" where
  "HasFlag ch flag \<longleftrightarrow> ch_flags ch AND flag \<noteq> 0"

definition HasRight :: "Channel \<Rightarrow> u32 \<Rightarrow> bool" where
  "HasRight ch right \<longleftrightarrow> cr_flags (ch_channelRights ch) AND right \<noteq> 0"

definition GetNumPlayers :: "Channel \<Rightarrow> u32" where
  "GetNumPlayers ch = of_nat (length (playersStore ch))"

definition IsOn :: "Channel \<Rightarrow> guid \<Rightarrow> bool" where
  "IsOn ch who \<longleftrightarrow> has_key who (playersStore ch)"

definition slot :: "Channel \<Rightarrow> guid \<Rightarrow> PlayerInfo" where
  "slot ch g = (case map_of (playersStore ch) g of Some p \<Rightarrow> p | None \<Rightarrow> pi_empty)"

definition GetPlayerFlags :: "Channel \<Rightarrow> guid \<Rightarrow> u8" where
  "GetPlayerFlags ch g = (case map_of (playersStore ch) g of Some p \<Rightarrow> pi_flags p | None \<Rightarrow> 0)"

definition IsBanned :: "world \<Rightarrow> Channel \<Rightarrow> guid \<Rightarrow> bool" where
  "IsBanned w ch g =
     (case map_of (bannedStore ch) g of Some t \<Rightarrow> uint t > w_GameTime w | None \<Rightarrow> False)"

abbreviation sec :: "world \<Rightarrow> guid \<Rightarrow> u32" where
  "sec w g \<equiv> pl_security (w_player w g)"

section \<open>Packets\<close>

fun pkt_add :: "packet \<Rightarrow> field list \<Rightarrow> packet" where
  "pkt_add (Packet op fs) xs = Packet op (fs @ xs)"
| "pkt_add p xs = p"

definition MakeNotifyPacket :: "Channel \<Rightarrow> ChatNotify \<Rightarrow> packet" where
  "MakeNotifyPacket ch n = Packet SMSG_CHANNEL_NOTIFY [F8 (notify_code n), FStr (ch_name ch)]"

definition MakeJoined :: "guid \<Rightarrow> Channel \<Rightarrow> packet" where
  "MakeJoined g ch = pkt_add (MakeNotifyPacket ch CHAT_JOINED_NOTICE) [FGuid g]"

definition MakeLeft :: "guid \<Rightarrow> Channel \<Rightarrow> packet" where
  "MakeLeft g ch = pkt_add (MakeNotifyPacket ch CHAT_LEFT_NOTICE) [FGuid g]"

definition MakeYouJoined :: "Channel \<Rightarrow> packet" where
  "MakeYouJoined ch = pkt_add (MakeNotifyPacket ch CHAT_YOU_JOINED_NOTICE)
     [F8 (ch_flags ch), F32 (ch_channelId ch), F32 0]"

definition MakeYouLeft :: "Channel \<Rightarrow> packet" where
  "MakeYouLeft ch = pkt_add (MakeNotifyPacket ch CHAT_YOU_LEFT_NOTICE)
     [F32 (ch_channelId ch), F8 (if IsConstant ch then 1 else 0)]"

definition MakeWrongPassword :: "Channel \<Rightarrow> packet" where
  "MakeWrongPassword ch = MakeNotifyPacket ch CHAT_WRONG_PASSWORD_NOTICE"

definition MakeNotMember :: "Channel \<Rightarrow> packet" where
  "MakeNotMember ch = MakeNotifyPacket ch CHAT_NOT_MEMBER_NOTICE"

definition MakeNotModerator :: "Channel \<Rightarrow> packet" where
  "MakeNotModerator ch = MakeNotifyPacket ch CHAT_NOT_MODERATOR_NOTICE"

definition MakePasswordChanged :: "guid \<Rightarrow> Channel \<Rightarrow> packet" where
  "MakePasswordChanged g ch = pkt_add (MakeNotifyPacket ch CHAT_PASSWORD_CHANGED_NOTICE) [FGuid g]"

definition MakeOwnerChanged :: "guid \<Rightarrow> Channel \<Rightarrow> packet" where
  "MakeOwnerChanged g ch = pkt_add (MakeNotifyPacket ch CHAT_OWNER_CHANGED_NOTICE) [FGuid g]"

definition MakePlayerNotFound :: "string \<Rightarrow> Channel \<Rightarrow> packet" where
  "MakePlayerNotFound name ch = pkt_add (MakeNotifyPacket ch CHAT_PLAYER_NOT_FOUND_NOTICE) [FStr name]"

definition MakeNotOwner :: "Channel \<Rightarrow> packet" where
  "MakeNotOwner ch = MakeNotifyPacket ch CHAT_NOT_OWNER_NOTICE"

definition MakeChannelOwner :: "world \<Rightarrow> Channel \<Rightarrow> packet" where
  "MakeChannelOwner w ch =
     (let name = (case w_GetCharacterNameByGuid w (ch_ownerGUID ch) of
                    None \<Rightarrow> ''PLAYER_NOT_FOUND''
                  | Some n \<Rightarrow> if n = [] then ''PLAYER_NOT_FOUND'' else n)
      in pkt_add (MakeNotifyPacket ch CHAT_CHANNEL_OWNER_NOTICE)
           [FStr (if IsConstant ch \<or> ch_ownerGUID ch = 0 then ''Nobody'' else name)])"

definition MakeModeChange :: "guid \<Rightarrow> u8 \<Rightarrow> Channel \<Rightarrow> packet" where
  "MakeModeChange g oldflags ch = pkt_add (MakeNotifyPacket ch CHAT_MODE_CHANGE_NOTICE)
     [FGuid g, F8 oldflags, F8 (GetPlayerFlags ch g)]"

definition MakeAnnouncementsOn :: "guid \<Rightarrow> Channel \<Rightarrow> packet" where
  "MakeAnnouncementsOn g ch = pkt_add (MakeNotifyPacket ch CHAT_ANNOUNCEMENTS_ON_NOTICE) [FGuid g]"

definition MakeAnnouncementsOff :: "guid \<Rightarrow> Channel \<Rightarrow> packet" where
  "MakeAnnouncementsOff g ch = pkt_add (MakeNotifyPacket ch CHAT_ANNOUNCEMENTS_OFF_NOTICE) [FGuid g]"

definition MakeMuted :: "Channel \<Rightarrow> packet" where
  "MakeMuted ch = MakeNotifyPacket ch CHAT_MUTED_NOTICE"

definition MakePlayerKicked :: "guid \<Rightarrow> guid \<Rightarrow> Channel \<Rightarrow> packet" where
  "MakePlayerKicked bad good ch =
     pkt_add (MakeNotifyPacket ch CHAT_PLAYER_KICKED_NOTICE) [FGuid bad, FGuid good]"

definition MakeBanned :: "Channel \<Rightarrow> packet" where
  "MakeBanned ch = MakeNotifyPacket ch CHAT_BANNED_NOTICE"

definition MakePlayerBanned :: "guid \<Rightarrow> guid \<Rightarrow> Channel \<Rightarrow> packet" where
  "MakePlayerBanned bad good ch =
     pkt_add (MakeNotifyPacket ch CHAT_PLAYER_BANNED_NOTICE) [FGuid bad, FGuid good]"

definition MakePlayerUnbanned :: "guid \<Rightarrow> guid \<Rightarrow> Channel \<Rightarrow> packet" where
  "MakePlayerUnbanned bad good ch =
     pkt_add (MakeNotifyPacket ch CHAT_PLAYER_UNBANNED_NOTICE) [FGuid bad, FGuid good]"

definition MakePlayerNotBanned :: "string \<Rightarrow> Channel \<Rightarrow> packet" where
  "MakePlayerNotBanned name ch = pkt_add (MakeNotifyPacket ch CHAT_PLAYER_NOT_BANNED_NOTICE) [FStr name]"

definition MakePlayerAlreadyMember :: "guid \<Rightarrow> Channel \<Rightarrow> packet" where
  "MakePlayerAlreadyMember g ch =
     pkt_add (MakeNotifyPacket ch CHAT_PLAYER_ALREADY_MEMBER_NOTICE) [FGuid g]"

definition MakeInvite :: "guid \<Rightarrow> Channel \<Rightarrow> packet" where
  "MakeInvite g ch = pkt_add (MakeNotifyPacket ch CHAT_INVITE_NOTICE) [FGuid g]"

definition MakeInviteWrongFaction :: "Channel \<Rightarrow> packet" where
  "MakeInviteWrongFaction ch = MakeNotifyPacket ch CHAT_INVITE_WRONG_FACTION_NOTICE"

definition MakeWrongFaction :: "Channel \<Rightarrow> packet" where
  "MakeWrongFaction ch = MakeNotifyPacket ch CHAT_WRONG_FACTION_NOTICE"

definition MakeInvalidName :: "Channel \<Rightarrow> packet" where
  "MakeInvalidName ch = MakeNotifyPacket ch CHAT_INVALID_NAME_NOTICE"

definition MakeNotModerated :: "Channel \<Rightarrow> packet" where
  "MakeNotModerated ch = MakeNotifyPacket ch CHAT_NOT_MODERATED_NOTICE"

definition MakePlayerInvited :: "string \<Rightarrow> Channel \<Rightarrow> packet" where
  "MakePlayerInvited name ch = pkt_add (MakeNotifyPacket ch CHAT_PLAYER_INVITED_NOTICE) [FStr name]"

definition MakePlayerInviteBanned :: "string \<Rightarrow> Channel \<Rightarrow> packet" where
  "MakePlayerInviteBanned name ch =
     pkt_add (MakeNotifyPacket ch CHAT_PLAYER_INVITE_BANNED_NOTICE) [FStr name]"

definition MakeThrottled :: "Channel \<Rightarrow> packet" where
  "MakeThrottled ch = MakeNotifyPacket ch CHAT_THROTTLED_NOTICE"

definition MakeNotInArea :: "Channel \<Rightarrow> packet" where
  "MakeNotInArea ch = MakeNotifyPacket ch CHAT_NOT_IN_AREA_NOTICE"

definition MakeNotInLfg :: "Channel \<Rightarrow> packet" where
  "MakeNotInLfg ch = MakeNotifyPacket ch CHAT_NOT_IN_LFG_NOTICE"

definition MakeVoiceOn :: "guid \<Rightarrow> Channel \<Rightarrow> packet" where
  "MakeVoiceOn g ch = pkt_add (MakeNotifyPacket ch CHAT_VOICE_ON_NOTICE) [FGuid g]"

definition MakeVoiceOff :: "guid \<Rightarrow> Channel \<Rightarrow> packet" where
  "MakeVoiceOff g ch = pkt_add (MakeNotifyPacket ch CHAT_VOICE_OFF_NOTICE) [FGuid g]"

definition MakeModerationOn :: "guid \<Rightarrow> Channel \<Rightarrow> packet" where
  "MakeModerationOn g ch = pkt_add (MakeNotifyPacket ch CHAT_MODERATION_ON_NOTICE) [FGuid g]"

definition MakeModerationOff :: "guid \<Rightarrow> Channel \<Rightarrow> packet" where
  "MakeModerationOff g ch = pkt_add (MakeNotifyPacket ch CHAT_MODERATION_OFF_NOTICE) [FGuid g]"

section \<open>Senders\<close>

text \<open>One member's share of \<open>SendToAll\<close>; a null player pointer is followed all the same.\<close>

definition send_member :: "world \<Rightarrow> packet \<Rightarrow> guid \<Rightarrow> PlayerInfo \<Rightarrow> chan_effect list" where
  "send_member w p g info =
     (case pi_plrPtr info of
        None \<Rightarrow> [NullDeref]
      | Some q \<Rightarrow> if g = 0 \<or> g \<notin> set (pl_ignores (w_player w q)) then [SendPacket q p] else [])"

definition SendToAll :: "world \<Rightarrow> (Channel \<Rightarrow> packet) \<Rightarrow> guid \<Rightarrow> chan_act" where
  "SendToAll w mk g =
     emit (\<lambda>ch. concat (map (\<lambda>e. send_member w (mk ch) g (snd e)) (playersStore ch)))"

definition SendToAllButOne :: "world \<Rightarrow> (Channel \<Rightarrow> packet) \<Rightarrow> guid \<Rightarrow> chan_act" where
  "SendToAllButOne w mk who =
     emit (\<lambda>ch. concat (map (\<lambda>e. if fst e \<noteq> who then send_member w (mk ch) 0 (snd e) else [])
                              (playersStore ch)))"

definition SendToOne :: "world \<Rightarrow> (Channel \<Rightarrow> packet) \<Rightarrow> guid \<Rightarrow> chan_act" where
  "SendToOne w mk who =
     emit (\<lambda>ch. if w_FindConnectedPlayer w who then [SendPacket who (mk ch)] else [])"

definition SendToAllWatching :: "(Channel \<Rightarrow> packet) \<Rightarrow> chan_act" where
  "SendToAllWatching mk = emit (\<lambda>ch. map (\<lambda>q. SendPacket q (mk ch)) (playersWatchingStore ch))"

definition JoinNotify :: "world \<Rightarrow> guid \<Rightarrow> chan_act" where
  "JoinNotify w p =
     cond (\<lambda>ch. HasRight ch CHANNEL_RIGHT_CANT_SPEAK) skip
       (if \<not> IsPlayerAccount (sec w p) then skip
        else SendToAllWatching (\<lambda>ch. Packet SMSG_USERLIST_ADD
          [FGuid p, F8 (GetPlayerFlags ch p), F8 (ch_flags ch), F32 (GetNumPlayers ch),
           FStr (ch_name ch)]))"

definition LeaveNotify :: "world \<Rightarrow> guid \<Rightarrow> chan_act" where
  "LeaveNotify w p =
     cond (\<lambda>ch. HasRight ch CHANNEL_RIGHT_CANT_SPEAK) skip
       (if \<not> IsPlayerAccount (sec w p) then skip
        else SendToAllWatching (\<lambda>ch. Packet SMSG_USERLIST_REMOVE
          [FGuid p, F8 (ch_flags ch), F32 (GetNumPlayers ch), FStr (ch_name ch)]))"

definition FlagsNotify :: "world \<Rightarrow> guid option \<Rightarrow> chan_act" where
  "FlagsNotify w ptr =
     cond (\<lambda>ch. HasRight ch CHANNEL_RIGHT_CANT_SPEAK) skip
       (case ptr of
          None \<Rightarrow> emit (\<lambda>_. [NullDeref])
        | Some p \<Rightarrow>
            if \<not> IsPlayerAccount (sec w p) then skip
            else SendToAllWatching (\<lambda>ch. Packet SMSG_USERLIST_UPDATE
              [FGuid p, F8 (GetPlayerFlags ch p), F8 (ch_flags ch), F32 (GetNumPlayers ch),
               FStr (ch_name ch)]))"

section \<open>Statements\<close>

definition UpdateChannelInDB :: chan_act where
  "UpdateChannelInDB = emit (\<lambda>ch. if ch_IsSaved ch
     then [ExecUpdChannel (ch_announce ch) (ch_password ch) (ch_channelDBId ch)] else [])"

definition UpdateChannelUseageInDB :: chan_act where
  "UpdateChannelUseageInDB = emit (\<lambda>ch. [ExecUpdChannelUsage (ch_channelDBId ch)])"

definition AddChannelBanToDB :: "guid \<Rightarrow> u32 \<Rightarrow> chan_act" where
  "AddChannelBanToDB g time =
     emit (\<lambda>ch. [ExecInsChannelBan (ch_channelDBId ch) (GetCounter g) time])"

definition RemoveChannelBanFromDB :: "guid \<Rightarrow> chan_act" where
  "RemoveChannelBanFromDB g = emit (\<lambda>ch. [ExecDelChannelBan (ch_channelDBId ch) (GetCounter g)])"

end
