(* ===== verification/Channel.thy ===== *)
theory Channel
  imports ChannelPackets
begin

text \<open>
  The operations of a chat channel
  (\<open>src/src/server/game/Chat/Channels/Channel.cpp\<close>), one definition per member function,
  with the guards and early returns in the order of the code. \<open>playersStore[g]\<close> is read
  with \<open>slot\<close> where the code has checked membership and with \<open>slot_ref\<close> first where it
  has not, since \<open>operator[]\<close> then inserts an entry.
\<close>

section \<open>Changing a member's entry\<close>

definition slot_ref :: "world \<Rightarrow> guid \<Rightarrow> chan_act" where
  "slot_ref w g = upd (\<lambda>ch. if IsOn ch g then ch
     else ch\<lparr>playersStore := um_assign (w_insertPos w) g pi_empty (playersStore ch)\<rparr>)"

definition set_slot :: "world \<Rightarrow> guid \<Rightarrow> (PlayerInfo \<Rightarrow> PlayerInfo) \<Rightarrow> chan_act" where
  "set_slot w g f = upd (\<lambda>ch. ch\<lparr>playersStore :=
     um_assign (w_insertPos w) g (f (slot ch g)) (playersStore ch)\<rparr>)"

definition SetModerator :: "world \<Rightarrow> guid \<Rightarrow> bool \<Rightarrow> chan_act" where
  "SetModerator w g st = acts
     [slot_ref w g,
      whenever (\<lambda>ch. IsModerator (slot ch g) \<noteq> st)
        (load (\<lambda>ch. pi_flags (slot ch g)) (\<lambda>oldFlag. acts
           [set_slot w g (pi_SetModerator st),
            SendToAll w (MakeModeChange g oldFlag) 0,
            load (\<lambda>ch. pi_plrPtr (slot ch g)) (FlagsNotify w)]))]"

definition SetMute :: "world \<Rightarrow> guid \<Rightarrow> bool \<Rightarrow> chan_act" where
  "SetMute w g st = acts
     [slot_ref w g,
      whenever (\<lambda>ch. IsMuted (slot ch g) \<noteq> st)
        (load (\<lambda>ch. pi_flags (slot ch g)) (\<lambda>oldFlag. acts
           [set_slot w g (pi_SetMuted st),
            SendToAll w (MakeModeChange g oldFlag) 0]))]"

section \<open>Ownership\<close>

definition silent_gm :: "world \<Rightarrow> guid \<Rightarrow> bool" where
  "silent_gm w g \<longleftrightarrow> IsGMAccount (sec w g) \<and> cfg_SilentlyGMJoin w"

text \<open>The two halves of \<open>SetOwner(ObjectGuid, bool)\<close>: the old owner steps down, the new
  one is entered.\<close>

definition drop_owner :: "world \<Rightarrow> chan_act" where
  "drop_owner w =
     whenever (\<lambda>ch. ch_ownerGUID ch \<noteq> 0)
       (load ch_ownerGUID (\<lambda>o'.
          whenever (\<lambda>ch. IsOn ch o')
            (acts [set_slot w o' (pi_SetOwner False),
                   load (\<lambda>ch. pi_plrPtr (slot ch o')) (FlagsNotify w)])))"

definition enter_owner :: "world \<Rightarrow> guid \<Rightarrow> bool \<Rightarrow> chan_act" where
  "enter_owner w g exclaim =
     (let notify = (if w_FindPlayer w g then \<not> silent_gm w g else True)
      in acts
        [slot_ref w g,
         set_slot w g (pi_SetModerator True),
         load (\<lambda>ch. pi_flags (slot ch g)) (\<lambda>oldFlag. acts
           [set_slot w g (pi_SetOwner True),
            if notify then SendToAll w (MakeModeChange g oldFlag) 0 else skip]),
         load (\<lambda>ch. pi_plrPtr (slot ch g)) (FlagsNotify w),
         if exclaim \<and> notify then SendToAll w (MakeOwnerChanged g) 0 else skip])"

definition SetOwnerGuid :: "world \<Rightarrow> guid \<Rightarrow> bool \<Rightarrow> chan_act" where
  "SetOwnerGuid w g exclaim = acts
     [drop_owner w,
      upd (\<lambda>ch. ch\<lparr>ch_ownerGUID := g\<rparr>),
      if g \<noteq> 0 then enter_owner w g exclaim else skip]"

text \<open>The loop that picks a new owner visits the members until the first one with security
  0; the last entry visited is the choice.\<close>

definition ptr_sec :: "world \<Rightarrow> PlayerInfo \<Rightarrow> u32" where
  "ptr_sec w p = (case pi_plrPtr p of None \<Rightarrow> 0 | Some q \<Rightarrow> sec w q)"

fun scan_owner :: "world \<Rightarrow> (guid \<times> PlayerInfo) list \<Rightarrow> PlayerInfo list" where
  "scan_owner w [] = []"
| "scan_owner w ((k, p) # m) = p # (if ptr_sec w p = 0 then [] else scan_owner w m)"

definition scan_derefs :: "world \<Rightarrow> chan_act" where
  "scan_derefs w = emit (\<lambda>ch. concat (map
     (\<lambda>p. if pi_plrPtr p = None then [NullDeref] else []) (scan_owner w (playersStore ch))))"

section \<open>Joining and leaving\<close>

definition AddWatching :: "world \<Rightarrow> guid \<Rightarrow> chan_act" where
  "AddWatching w p = cond (\<lambda>ch. \<not> IsOn ch p) skip
     (upd (\<lambda>ch. ch\<lparr>playersWatchingStore := us_insert (w_insertPos w) p (playersWatchingStore ch)\<rparr>))"

definition RemoveWatching :: "guid \<Rightarrow> chan_act" where
  "RemoveWatching p = upd (\<lambda>ch. ch\<lparr>playersWatchingStore := remove1 p (playersWatchingStore ch)\<rparr>)"

definition in_lfg_refused :: "world \<Rightarrow> guid \<Rightarrow> Channel \<Rightarrow> bool" where
  "in_lfg_refused w g ch \<longleftrightarrow> HasFlag ch CHANNEL_FLAG_LFG \<and> cfg_RestrictedLfg w \<and>
     IsPlayerAccount (sec w g) \<and> pl_hasGroup (w_player w g)"

definition is_moderator_account :: "world \<Rightarrow> u32 \<Rightarrow> Channel \<Rightarrow> bool" where
  "is_moderator_account w acc ch \<longleftrightarrow> acc \<in> set (cr_moderators (ch_channelRights ch))"

definition store_member :: "world \<Rightarrow> guid \<Rightarrow> chan_act" where
  "store_member w g = set_slot w g (\<lambda>_.
     \<lparr>pi_player = g, pi_flags = MEMBER_FLAG_NONE, pi_plrPtr = Some g, pi_gmStatus = False\<rparr>)"

definition join_custom :: "world \<Rightarrow> guid \<Rightarrow> chan_act" where
  "join_custom w g = acts
     [whenever (\<lambda>ch. playersStore ch \<noteq> []) UpdateChannelUseageInDB,
      whenever (is_moderator_account w (pl_accountId (w_player w g)))
        (acts [set_slot w g (pi_SetModerator True), FlagsNotify w (Some g)]),
      whenever (\<lambda>ch. (ch_ownerGUID ch = 0 \<or> (ch_isOwnerGM ch \<and> cfg_SilentlyGMJoin w)) \<and> ch_ownership ch)
        (acts [upd (\<lambda>ch. ch\<lparr>ch_isOwnerGM := IsOwnerGM (slot ch g)\<rparr>), SetOwnerGuid w g False]),
      whenever (\<lambda>ch. HasRight ch CHANNEL_RIGHT_CANT_SPEAK) (set_slot w g (pi_SetMuted True))]"

definition join_accepted :: "world \<Rightarrow> guid \<Rightarrow> chan_act" where
  "join_accepted w g = acts
     [emit (\<lambda>_. [JoinedChannel g]),
      whenever (\<lambda>ch. ch_announce ch \<and> \<not> silent_gm w g) (SendToAll w (MakeJoined g) 0),
      store_member w g,
      emit (\<lambda>ch. if cr_joinMessage (ch_channelRights ch) \<noteq> []
                  then [PSendSysMessage g (cr_joinMessage (ch_channelRights ch))] else []),
      SendToOne w MakeYouJoined g,
      JoinNotify w g,
      set_slot w g (pi_SetOwnerGM (IsGMAccount (sec w g))),
      whenever (\<lambda>ch. \<not> IsConstant ch) (join_custom w g)]"

definition JoinChannel :: "world \<Rightarrow> guid \<Rightarrow> string \<Rightarrow> chan_act" where
  "JoinChannel w g pass =
     cond (\<lambda>ch. IsOn ch g)
       (whenever (\<lambda>ch. \<not> IsConstant ch) (SendToOne w (MakePlayerAlreadyMember g) g))
     (cond (\<lambda>ch. IsBanned w ch g) (SendToOne w MakeBanned g)
     (cond (\<lambda>ch. ch_password ch \<noteq> [] \<and> pass \<noteq> ch_password ch) (SendToOne w MakeWrongPassword g)
     (cond (in_lfg_refused w g) (SendToOne w MakeNotInLfg g)
     (join_accepted w g))))"

definition pick_owner_on_leave :: "world \<Rightarrow> chan_act" where
  "pick_owner_on_leave w =
     cond (\<lambda>ch. playersStore ch \<noteq> [])
       (load (\<lambda>ch. last (scan_owner w (playersStore ch))) (\<lambda>p. acts
          [scan_derefs w,
           upd (\<lambda>ch. ch\<lparr>ch_isOwnerGM := IsGMAccount (ptr_sec w p)\<rparr>),
           SetOwnerGuid w (pi_player p) True]))
       (SetOwnerGuid w 0 True)"

definition LeaveChannel :: "world \<Rightarrow> guid \<Rightarrow> bool \<Rightarrow> chan_act" where
  "LeaveChannel w g send =
     cond (\<lambda>ch. \<not> IsOn ch g) (if send then SendToOne w MakeNotMember g else skip)
       (acts
         [if send then acts [SendToOne w MakeYouLeft g, emit (\<lambda>_. [LeftChannel g])] else skip,
          load (\<lambda>ch. IsOwner (slot ch g)) (\<lambda>changeowner. acts
            [upd (\<lambda>ch. ch\<lparr>playersStore := um_erase g (playersStore ch)\<rparr>),
             whenever (\<lambda>ch. ch_announce ch \<and> \<not> silent_gm w g) (SendToAll w (MakeLeft g) 0),
             RemoveWatching g,
             LeaveNotify w g,
             whenever (\<lambda>ch. \<not> IsConstant ch) (acts
               [UpdateChannelUseageInDB,
                whenever (\<lambda>ch. changeowner \<and> ch_ownership ch) (pick_owner_on_leave w)])])])"

section \<open>Kicking and banning\<close>

text \<open>The code writes 60 days after now into the ban table, 32 bits wide.\<close>

definition CHANNEL_BAN_DURATION :: int where "CHANNEL_BAN_DURATION = 86400 * 60"

definition ban_until :: "world \<Rightarrow> u32" where
  "ban_until w = word_of_int (w_GameTime w + CHANNEL_BAN_DURATION)"

text \<open>Who is meant: the victim with account and security, and whether he is on the channel;
  or the reply to the moderator.\<close>

datatype kick_target =
    Target guid u32 u32 bool
  | OtherFaction
  | TargetNotFound

definition may_ban_offline :: "world \<Rightarrow> guid \<Rightarrow> bool \<Rightarrow> Channel \<Rightarrow> bool" where
  "may_ban_offline w good ban ch \<longleftrightarrow> ban \<and>
     (IsGMAccount (sec w good) \<or> is_moderator_account w (pl_accountId (w_player w good)) ch)"

definition kick_resolve :: "world \<Rightarrow> guid \<Rightarrow> string \<Rightarrow> bool \<Rightarrow> Channel \<Rightarrow> kick_target" where
  "kick_resolve w good badname ban ch =
     (let bad = w_FindPlayerByName w badname;
          victim = (case bad of Some b \<Rightarrow> b | None \<Rightarrow> 0);
          badAccId = (case bad of Some b \<Rightarrow> pl_accountId (w_player w b) | None \<Rightarrow> 0);
          badSecurity = (case bad of Some b \<Rightarrow> sec w b | None \<Rightarrow> 0)
      in if victim \<noteq> 0 \<and> IsOn ch victim then Target victim badAccId badSecurity True
         else if may_ban_offline w good ban ch then
           (let g = w_GetCharacterGuidByName w badname
            in if g = 0 then TargetNotFound
               else (case w_GetCharacterCacheByGuid w g of
                       None \<Rightarrow> TargetNotFound
                     | Some gpd \<Rightarrow>
                         if w_TeamIdForRace w (cce_Race gpd) =
                            w_TeamIdForRace w (pl_race (w_player w good))
                         then Target g (cce_AccountId gpd) badSecurity False
                         else OtherFaction))
         else TargetNotFound)"

definition kick_refusal ::
  "world \<Rightarrow> guid \<Rightarrow> bool \<Rightarrow> guid \<Rightarrow> u32 \<Rightarrow> u32 \<Rightarrow> Channel \<Rightarrow> (Channel \<Rightarrow> packet) option" where
  "kick_refusal w good ban victim badAccId badSecurity ch =
     (if \<not> IsGMAccount (sec w good) \<and>
         \<not> is_moderator_account w (pl_accountId (w_player w good)) ch
      then if ch_ownerGUID ch = victim \<and> good \<noteq> ch_ownerGUID ch then Some MakeNotOwner
           else if (ban \<and> HasRight ch CHANNEL_RIGHT_CANT_BAN) \<or>
                   (\<not> ban \<and> HasRight ch CHANNEL_RIGHT_CANT_KICK) then Some MakeNotModerator
           else if is_moderator_account w badAccId ch \<or> IsGMAccount badSecurity
                then Some MakeNotModerator
           else None
      else None)"

definition kick_new_owner :: "world \<Rightarrow> guid \<Rightarrow> guid \<Rightarrow> chan_act" where
  "kick_new_owner w good victim =
     (if good \<noteq> victim then SetOwnerGuid w good True
      else cond (\<lambda>ch. playersStore ch \<noteq> [])
        (load (\<lambda>ch. last (scan_owner w (playersStore ch))) (\<lambda>p. acts
           [scan_derefs w, SetOwnerGuid w (pi_player p) True]))
        (SetOwnerGuid w 0 True))"

definition kick_execute :: "world \<Rightarrow> guid \<Rightarrow> bool \<Rightarrow> guid \<Rightarrow> bool \<Rightarrow> chan_act" where
  "kick_execute w good ban victim isOnChannel =
     load (\<lambda>ch. ch_ownerGUID ch = victim) (\<lambda>changeowner. acts
       [if ban then
          unless (\<lambda>ch. IsBanned w ch victim) (acts
            [upd (\<lambda>ch. ch\<lparr>bannedStore :=
               um_assign (w_insertPos w) victim (ban_until w) (bannedStore ch)\<rparr>),
             AddChannelBanToDB victim (ban_until w),
             if \<not> silent_gm w good then SendToAll w (MakePlayerBanned victim good) 0 else skip])
        else if \<not> silent_gm w good then SendToAll w (MakePlayerKicked victim good) 0 else skip,
        if isOnChannel then acts
          [upd (\<lambda>ch. ch\<lparr>playersStore := um_erase victim (playersStore ch)\<rparr>),
           emit (\<lambda>_. [LeftChannel victim]),
           RemoveWatching victim,
           LeaveNotify w victim]
        else skip,
        whenever (\<lambda>ch. changeowner \<and> ch_ownership ch) (kick_new_owner w good victim)])"

definition KickOrBan :: "world \<Rightarrow> guid \<Rightarrow> string \<Rightarrow> bool \<Rightarrow> chan_act" where
  "KickOrBan w good badname ban =
     cond (\<lambda>ch. \<not> IsOn ch good) (SendToOne w MakeNotMember good)
     (cond (\<lambda>ch. \<not> IsModerator (slot ch good) \<and> \<not> IsGMAccount (sec w good))
        (SendToOne w MakeNotModerator good)
     (load (kick_resolve w good badname ban) (\<lambda>t.
        case t of
          OtherFaction \<Rightarrow> emit (\<lambda>_. [PSendSysMessage good
            (''Character '' @ badname @ '' has other faction!'')])
        | TargetNotFound \<Rightarrow> SendToOne w (MakePlayerNotFound badname) good
        | Target victim badAccId badSecurity isOnChannel \<Rightarrow>
            load (kick_refusal w good ban victim badAccId badSecurity) (\<lambda>r.
              case r of
                Some mk \<Rightarrow> SendToOne w mk good
              | None \<Rightarrow> kick_execute w good ban victim isOnChannel))))"

definition Kick :: "world \<Rightarrow> guid \<Rightarrow> string \<Rightarrow> chan_act" where
  "Kick w good badname = KickOrBan w good badname False"

definition Ban :: "world \<Rightarrow> guid \<Rightarrow> string \<Rightarrow> chan_act" where
  "Ban w good badname = KickOrBan w good badname True"

definition AddBan :: "world \<Rightarrow> guid \<Rightarrow> u32 \<Rightarrow> chan_act" where
  "AddBan w g time = upd (\<lambda>ch. ch\<lparr>bannedStore := um_assign (w_insertPos w) g time (bannedStore ch)\<rparr>)"

definition erase_ban :: "guid \<Rightarrow> chan_act" where
  "erase_ban g = upd (\<lambda>ch. ch\<lparr>bannedStore := um_erase g (bannedStore ch)\<rparr>)"

definition UnBan :: "world \<Rightarrow> guid \<Rightarrow> string \<Rightarrow> chan_act" where
  "UnBan w good badname =
     (let victim = w_GetCharacterGuidByName w badname
      in cond (\<lambda>ch. \<not> IsOn ch good) (SendToOne w MakeNotMember good)
        (cond (\<lambda>ch. \<not> IsModerator (slot ch good) \<and> \<not> IsGMAccount (sec w good))
           (SendToOne w MakeNotModerator good)
        (cond (\<lambda>ch. victim = 0 \<or> \<not> IsBanned w ch victim)
           (SendToOne w (MakePlayerNotFound badname) good)
        (cond (\<lambda>ch. \<not> IsGMAccount (sec w good) \<and>
                  \<not> is_moderator_account w (pl_accountId (w_player w good)) ch \<and>
                  HasRight ch CHANNEL_RIGHT_CANT_BAN)
           (SendToOne w MakeNotModerator good)
        (acts
          [emit (\<lambda>ch. if HasRight ch CHANNEL_RIGHT_CANT_BAN
             then [LogUnban (pl_accountId (w_player w good)) victim] else []),
           erase_ban victim,
           RemoveChannelBanFromDB victim,
           SendToAll w (MakePlayerUnbanned victim good) 0])))))"

definition UnBanGuid :: "world \<Rightarrow> guid \<Rightarrow> chan_act" where
  "UnBanGuid w g = whenever (\<lambda>ch. IsBanned w ch g) (acts [erase_ban g, RemoveChannelBanFromDB g])"

section \<open>Channel settings\<close>

definition Password :: "world \<Rightarrow> guid \<Rightarrow> string \<Rightarrow> chan_act" where
  "Password w g pass =
     cond (\<lambda>ch. \<not> IsOn ch g) (SendToOne w MakeNotMember g)
     (cond (\<lambda>ch. \<not> IsModerator (slot ch g) \<and> \<not> IsGMAccount (sec w g))
        (SendToOne w MakeNotModerator g)
     (cond (\<lambda>ch. HasRight ch CHANNEL_RIGHT_CANT_CHANGE_PASSWORD) (SendToOne w MakeNotModerator g)
     (acts
       [upd (\<lambda>ch. ch\<lparr>ch_password := pass\<rparr>),
        SendToAll w (MakePasswordChanged g) 0,
        UpdateChannelInDB])))"

definition mode_not_found :: "world \<Rightarrow> guid \<Rightarrow> guid option \<Rightarrow> Channel \<Rightarrow> bool" where
  "mode_not_found w g newp ch =
     (case newp of
        None \<Rightarrow> True
      | Some v \<Rightarrow> v = 0 \<or> \<not> IsOn ch v \<or>
          ((\<not> IsGMAccount (sec w g) \<or> \<not> IsGMAccount (sec w v)) \<and>
           pl_teamId (w_player w g) \<noteq> pl_teamId (w_player w v) \<and> \<not> cfg_AllowTwoSideChannel w))"

definition SetMode :: "world \<Rightarrow> guid \<Rightarrow> string \<Rightarrow> bool \<Rightarrow> bool \<Rightarrow> chan_act" where
  "SetMode w g p2n md st =
     (let newp = w_FindPlayerByName w p2n;
          victim = (case newp of Some v \<Rightarrow> v | None \<Rightarrow> 0)
      in cond (\<lambda>ch. \<not> IsOn ch g) (SendToOne w MakeNotMember g)
        (cond (\<lambda>ch. \<not> IsModerator (slot ch g) \<and> \<not> IsGMAccount (sec w g))
           (SendToOne w MakeNotModerator g)
        (cond (\<lambda>ch. g = ch_ownerGUID ch \<and> p2n = pl_name (w_player w g) \<and> md) skip
        (cond (mode_not_found w g newp) (SendToOne w (MakePlayerNotFound p2n) g)
        (cond (\<lambda>ch. ch_ownerGUID ch = victim \<and> ch_ownerGUID ch \<noteq> g) (SendToOne w MakeNotOwner g)
        (if md then
           unless (is_moderator_account w (pl_accountId (w_player w victim))) (SetModerator w victim st)
         else
           cond (\<lambda>ch. \<not> IsGMAccount (sec w g) \<and>
                     \<not> is_moderator_account w (pl_accountId (w_player w g)) ch \<and>
                     HasRight ch CHANNEL_RIGHT_CANT_MUTE)
             (SendToOne w MakeNotModerator g)
             (SetMute w victim st)))))))"

definition SetOwner :: "world \<Rightarrow> guid \<Rightarrow> string \<Rightarrow> chan_act" where
  "SetOwner w g newname =
     (let newp = w_FindPlayerByName w newname;
          victim = (case newp of Some v \<Rightarrow> v | None \<Rightarrow> 0)
      in cond (\<lambda>ch. \<not> IsOn ch g) (SendToOne w MakeNotMember g)
        (cond (\<lambda>ch. \<not> IsGMAccount (sec w g) \<and> g \<noteq> ch_ownerGUID ch \<and>
                  \<not> is_moderator_account w (pl_accountId (w_player w g)) ch)
           (SendToOne w MakeNotOwner g)
        (cond (\<lambda>ch. victim = 0 \<or> \<not> IsOn ch victim \<or>
                  (pl_teamId (w_player w victim) \<noteq> pl_teamId (w_player w g) \<and>
                   \<not> cfg_AllowTwoSideChannel w))
           (SendToOne w (MakePlayerNotFound newname) g)
        (SetOwnerGuid w victim True))))"

definition SendWhoOwner :: "world \<Rightarrow> guid \<Rightarrow> chan_act" where
  "SendWhoOwner w g =
     cond (\<lambda>ch. IsOn ch g) (SendToOne w (MakeChannelOwner w) g) (SendToOne w MakeNotMember g)"

definition Announce :: "world \<Rightarrow> guid \<Rightarrow> chan_act" where
  "Announce w g =
     cond (\<lambda>ch. \<not> IsOn ch g) (SendToOne w MakeNotMember g)
     (cond (\<lambda>ch. \<not> IsModerator (slot ch g) \<and> \<not> IsGMAccount (sec w g))
        (SendToOne w MakeNotModerator g)
     (cond (\<lambda>ch. HasRight ch
               (CHANNEL_RIGHT_FORCE_NO_ANNOUNCEMENTS OR CHANNEL_RIGHT_FORCE_ANNOUNCEMENTS))
        (SendToOne w MakeNotModerator g)
     (acts
       [upd (\<lambda>ch. ch\<lparr>ch_announce := \<not> ch_announce ch\<rparr>),
        SendToAll w (\<lambda>ch. if ch_announce ch then MakeAnnouncementsOn g ch
                           else MakeAnnouncementsOff g ch) 0,
        UpdateChannelInDB])))"

definition ToggleModeration :: "world \<Rightarrow> guid \<Rightarrow> chan_act" where
  "ToggleModeration w g =
     (let level = cfg_ModerationGMLevel w;
          gm = (level \<noteq> 0 \<and> sec w g \<ge> level)
      in cond (\<lambda>ch. \<not> IsOn ch g) (SendToOne w MakeNotMember g)
        (cond (\<lambda>ch. \<not> IsModerator (slot ch g) \<and> \<not> gm) (SendToOne w MakeNotModerator g)
        (acts
          [upd (\<lambda>ch. ch\<lparr>ch_moderation := \<not> ch_moderation ch\<rparr>),
           SendToAll w (\<lambda>ch. if ch_moderation ch then MakeModerationOn g ch
                              else MakeModerationOff g ch) 0])))"

section \<open>Talking, listing, inviting\<close>

definition list_packet :: "world \<Rightarrow> Channel \<Rightarrow> packet" where
  "list_packet w ch =
     (let shown = (if HasRight ch CHANNEL_RIGHT_CANT_SPEAK then []
                   else filter (\<lambda>e. IsPlayerAccount (ptr_sec w (snd e))) (playersStore ch))
      in Packet SMSG_CHANNEL_LIST
        ([F8 1, FStr (ch_name ch), F8 (ch_flags ch), F32 (of_nat (length shown))] @
         concat (map (\<lambda>e. [FGuid (fst e), F8 (pi_flags (snd e))]) shown)))"

definition ListMembers :: "world \<Rightarrow> guid \<Rightarrow> chan_act" where
  "ListMembers w g =
     cond (\<lambda>ch. \<not> IsOn ch g) (SendToOne w MakeNotMember g)
       (acts
         [emit (\<lambda>ch. if HasRight ch CHANNEL_RIGHT_CANT_SPEAK then []
            else concat (map (\<lambda>e. if pi_plrPtr (snd e) = None then [NullDeref] else [])
                             (playersStore ch))),
          SendToOne w (list_packet w) g])"

definition LANG_UNIVERSAL :: u32 where "LANG_UNIVERSAL = 0"

definition Say :: "world \<Rightarrow> guid \<Rightarrow> string \<Rightarrow> u32 \<Rightarrow> chan_act" where
  "Say w g what lang0 =
     (if what = [] then skip
      else let lang = (if cfg_AllowTwoSideChannel w then LANG_UNIVERSAL else lang0) in
        cond (\<lambda>ch. \<not> IsOn ch g) (SendToOne w MakeNotMember g)
        (cond (\<lambda>ch. IsMuted (slot ch g)) (SendToOne w MakeMuted g)
        (load (\<lambda>ch. slot ch g) (\<lambda>pinfo.
           SendToAll w
             (\<lambda>ch. ChatPacket lang (case pi_plrPtr pinfo of Some q \<Rightarrow> q | None \<Rightarrow> g)
                      (pi_plrPtr pinfo \<noteq> None) what (ch_name ch))
             (if IsModerator pinfo then 0 else g)))))"

definition Invite :: "world \<Rightarrow> guid \<Rightarrow> string \<Rightarrow> chan_act" where
  "Invite w g newname =
     cond (\<lambda>ch. \<not> IsOn ch g) (SendToOne w MakeNotMember g)
       (case w_FindPlayerByName w newname of
          None \<Rightarrow> SendToOne w (MakePlayerNotFound newname) g
        | Some n \<Rightarrow>
            if \<not> pl_gmVisible (w_player w n) then SendToOne w (MakePlayerNotFound newname) g
            else cond (\<lambda>ch. IsBanned w ch n) (SendToOne w (MakePlayerInviteBanned newname) g)
              (if pl_teamId (w_player w n) \<noteq> pl_teamId (w_player w g)
               then SendToOne w MakeInviteWrongFaction g
               else cond (\<lambda>ch. IsOn ch n) (SendToOne w (MakePlayerAlreadyMember n) g)
                 (acts
                   [if g \<notin> set (pl_ignores (w_player w n)) then SendToOne w (MakeInvite g) n else skip,
                    SendToOne w (MakePlayerInvited (pl_name (w_player w n))) g])))"

section \<open>Construction\<close>

text \<open>
  The constructor: \<open>dbc\<close> is the lookup in the table of built-in channels (the flags of the
  entry), \<open>rights\<close> the rights on record for the name, \<open>preserve\<close> the configuration option
  \<open>PreserveCustomChannels\<close>, \<open>idMax\<close> the static counter of database ids. \<open>moderation0\<close> is
  the indeterminate value of \<open>_moderation\<close>, which the constructor leaves uninitialised.
\<close>

definition builtin_flags :: "u32 \<Rightarrow> u8" where
  "builtin_flags f =
     CHANNEL_FLAG_GENERAL
     OR (if f AND CHANNEL_DBC_FLAG_TRADE \<noteq> 0 then CHANNEL_FLAG_TRADE else 0)
     OR (if f AND CHANNEL_DBC_FLAG_CITY_ONLY2 \<noteq> 0 then CHANNEL_FLAG_CITY else 0)
     OR (if f AND CHANNEL_DBC_FLAG_LFG \<noteq> 0 then CHANNEL_FLAG_LFG else CHANNEL_FLAG_NOT_LFG)"

definition Channel_ctor ::
  "(u32 \<Rightarrow> u32 option) \<Rightarrow> (string \<Rightarrow> ChannelRights) \<Rightarrow> bool \<Rightarrow> bool \<Rightarrow> string \<Rightarrow> u32 \<Rightarrow> u32 \<Rightarrow>
   TeamId \<Rightarrow> bool \<Rightarrow> bool \<Rightarrow> u32 \<Rightarrow> (Channel \<times> u32) \<times> chan_effect list" where
  "Channel_ctor dbc rights preserve moderation0 name channelId channelDBId teamId announce ownership idMax =
     (let ch = \<lparr>ch_announce = announce, ch_moderation = moderation0, ch_ownership = ownership,
                ch_IsSaved = False, ch_isOwnerGM = False, ch_flags = 0, ch_channelId = channelId,
                ch_channelDBId = channelDBId, ch_teamId = teamId, ch_ownerGUID = 0,
                ch_name = name, ch_password = [], ch_channelRights = channelRightsEmpty,
                playersStore = [], bannedStore = [], playersWatchingStore = []\<rparr>
      in case dbc channelId of
           Some f \<Rightarrow> ((ch\<lparr>ch_announce := False, ch_ownership := False, ch_flags := builtin_flags f\<rparr>,
                       idMax), [])
         | None \<Rightarrow>
             let r = rights name;
                 a1 = (if cr_flags r AND CHANNEL_RIGHT_FORCE_NO_ANNOUNCEMENTS \<noteq> 0 then False
                       else announce);
                 a2 = (if cr_flags r AND CHANNEL_RIGHT_FORCE_ANNOUNCEMENTS \<noteq> 0 then True else a1);
                 own = (if cr_flags r AND CHANNEL_RIGHT_NO_OWNERSHIP \<noteq> 0 then False else ownership);
                 ch1 = ch\<lparr>ch_flags := CHANNEL_FLAG_CUSTOM, ch_channelRights := r,
                          ch_announce := a2, ch_ownership := own\<rparr>
             in if cr_flags r AND CHANNEL_RIGHT_DONT_PRESERVE \<noteq> 0 then ((ch1, idMax), [])
                else let ch2 = ch1\<lparr>ch_IsSaved := True\<rparr>
                     in if channelDBId > 0 then ((ch2, idMax), [])
                        else if preserve then
                          ((ch2\<lparr>ch_channelDBId := idMax + 1\<rparr>, idMax + 1),
                           [ExecInsChannel (idMax + 1) name teamId a2])
                        else ((ch2, idMax), []))"

end
