(* ===== verification/ChannelInv.thy ===== *)
theory ChannelInv
  imports Channel
begin

text \<open>
  The invariant of a chat channel and its preservation by every operation: lemmas that say
  what each statement does to the members (\<open>IsOn\<close>, \<open>slot\<close>), the effect of the two
  \<open>SetOwner\<close> overloads, and per operation that the invariant is kept and no null pointer
  is followed. \<open>chan_op\<close> collects the public operations and \<open>chan_step\<close> is the step
  relation of a channel object.
\<close>

section \<open>Statements and the members\<close>

definition put_member :: "world \<Rightarrow> guid \<Rightarrow> PlayerInfo \<Rightarrow> Channel \<Rightarrow> Channel" where
  "put_member w g p ch = ch\<lparr>playersStore := um_assign (w_insertPos w) g p (playersStore ch)\<rparr>"

definition drop_member :: "guid \<Rightarrow> Channel \<Rightarrow> Channel" where
  "drop_member g ch = ch\<lparr>playersStore := um_erase g (playersStore ch)\<rparr>"

definition valid_store :: "Channel \<Rightarrow> bool" where
  "valid_store ch \<longleftrightarrow> um_valid (playersStore ch)"

lemma put_other [simp]:
  "ch_ownerGUID (put_member w g p ch) = ch_ownerGUID ch" "ch_ownership (put_member w g p ch) = ch_ownership ch"
  "ch_channelId (put_member w g p ch) = ch_channelId ch" "bannedStore (put_member w g p ch) = bannedStore ch"
  "playersWatchingStore (put_member w g p ch) = playersWatchingStore ch"
  "ch_channelRights (put_member w g p ch) = ch_channelRights ch" "ch_name (put_member w g p ch) = ch_name ch"
  "ch_password (put_member w g p ch) = ch_password ch" "ch_isOwnerGM (put_member w g p ch) = ch_isOwnerGM ch"
  "ch_flags (put_member w g p ch) = ch_flags ch" "ch_announce (put_member w g p ch) = ch_announce ch"
  by (simp_all add: put_member_def)

lemma drop_other [simp]:
  "ch_ownerGUID (drop_member g ch) = ch_ownerGUID ch" "ch_ownership (drop_member g ch) = ch_ownership ch"
  "ch_channelId (drop_member g ch) = ch_channelId ch" "bannedStore (drop_member g ch) = bannedStore ch"
  "playersWatchingStore (drop_member g ch) = playersWatchingStore ch"
  "ch_channelRights (drop_member g ch) = ch_channelRights ch"
  "ch_announce (drop_member g ch) = ch_announce ch"
  by (simp_all add: drop_member_def)

lemma valid_put [simp]: "valid_store ch \<Longrightarrow> valid_store (put_member w g p ch)"
  by (simp add: valid_store_def put_member_def um.valid_assign)

lemma valid_drop [simp]: "valid_store ch \<Longrightarrow> valid_store (drop_member g ch)"
  by (simp add: valid_store_def drop_member_def um.valid_erase)

lemma IsOn_put [simp]: "valid_store ch \<Longrightarrow> IsOn (put_member w g p ch) k \<longleftrightarrow> k = g \<or> IsOn ch k"
  by (simp add: IsOn_def has_key_def put_member_def valid_store_def um.find_assign)

lemma slot_put [simp]: "valid_store ch \<Longrightarrow> slot (put_member w g p ch) k = (if k = g then p else slot ch k)"
  by (simp add: slot_def put_member_def valid_store_def um.find_assign)

lemma IsOn_drop [simp]: "valid_store ch \<Longrightarrow> IsOn (drop_member g ch) k \<longleftrightarrow> k \<noteq> g \<and> IsOn ch k"
  by (simp add: IsOn_def has_key_def drop_member_def valid_store_def um.find_erase)

lemma slot_drop [simp]: "valid_store ch \<Longrightarrow> k \<noteq> g \<Longrightarrow> slot (drop_member g ch) k = slot ch k"
  by (simp add: slot_def drop_member_def valid_store_def um.find_erase)

lemma member_entry:
  assumes "valid_store ch"
  shows "(k, p) \<in> set (playersStore ch) \<longleftrightarrow> IsOn ch k \<and> slot ch k = p"
proof -
  have "(k, p) \<in> set (playersStore ch) \<longleftrightarrow> map_of (playersStore ch) k = Some p"
    using assms by (intro in_set_iff_map_of) (simp add: valid_store_def um_valid_def)
  then show ?thesis by (auto simp: IsOn_def has_key_def slot_def)
qed

lemma no_members_iff: "playersStore ch = [] \<longleftrightarrow> (\<forall>k. \<not> IsOn ch k)"
  by (cases "playersStore ch") (auto simp: IsOn_def has_key_iff)

lemma members_ext:
  "playersStore ch' = playersStore ch \<Longrightarrow> IsOn ch' = IsOn ch \<and> slot ch' = slot ch \<and>
     valid_store ch' = valid_store ch"
  by (auto simp: IsOn_def slot_def valid_store_def fun_eq_iff)

lemma set_slot_eval: "set_slot w g f ch = (put_member w g (f (slot ch g)) ch, [])"
  by (simp add: set_slot_def act_eval put_member_def)

lemma slot_ref_eval: "IsOn ch g \<Longrightarrow> slot_ref w g ch = (ch, [])"
  by (simp add: slot_ref_def act_eval)

text \<open>Statements that only produce effects leave the channel as it is.\<close>

lemma sender_state [simp]:
  "fst (SendToAll w mk g ch) = ch" "fst (SendToOne w mk g ch) = ch" "fst (emit f ch) = ch"
  "fst (SendToAllWatching mk ch) = ch" "fst (UpdateChannelInDB ch) = ch"
  "fst (UpdateChannelUseageInDB ch) = ch" "fst (AddChannelBanToDB g t ch) = ch"
  "fst (RemoveChannelBanFromDB g ch) = ch" "fst (scan_derefs w ch) = ch"
  by (simp_all add: SendToAll_def SendToOne_def SendToAllWatching_def UpdateChannelInDB_def
      UpdateChannelUseageInDB_def AddChannelBanToDB_def RemoveChannelBanFromDB_def
      scan_derefs_def act_eval)

lemma notify_state [simp]:
  "fst (JoinNotify w p ch) = ch" "fst (LeaveNotify w p ch) = ch" "fst (FlagsNotify w q ch) = ch"
  by (simp_all add: JoinNotify_def LeaveNotify_def FlagsNotify_def act_eval split: option.splits)

section \<open>Null pointers\<close>

definition clean :: "chan_effect list \<Rightarrow> bool" where
  "clean es \<longleftrightarrow> NullDeref \<notin> set es"

lemma clean_simps [simp]: "clean []" "clean (e # es) \<longleftrightarrow> e \<noteq> NullDeref \<and> clean es"
  "clean (xs @ ys) \<longleftrightarrow> clean xs \<and> clean ys"
  by (auto simp: clean_def)

definition entries_ok :: "Channel \<Rightarrow> bool" where
  "entries_ok ch \<longleftrightarrow> valid_store ch \<and>
     (\<forall>k. IsOn ch k \<longrightarrow> k \<noteq> 0 \<and> pi_player (slot ch k) = k \<and> pi_plrPtr (slot ch k) = Some k)"

lemma entries_ok_ptr: "entries_ok ch \<Longrightarrow> (k, p) \<in> set (playersStore ch) \<Longrightarrow> pi_plrPtr p = Some k"
  by (auto simp: entries_ok_def member_entry)

lemma clean_SendToAll [simp]: "entries_ok ch \<Longrightarrow> clean (snd (SendToAll w mk g ch))"
  by (auto simp: SendToAll_def act_eval clean_def send_member_def dest!: entries_ok_ptr
      split: if_splits)

lemma clean_senders [simp]:
  "clean (snd (SendToOne w mk g ch))" "clean (snd (SendToAllWatching mk ch))"
  "clean (snd (UpdateChannelInDB ch))" "clean (snd (UpdateChannelUseageInDB ch))"
  "clean (snd (AddChannelBanToDB g t ch))" "clean (snd (RemoveChannelBanFromDB g ch))"
  "clean (snd (JoinNotify w p ch))" "clean (snd (LeaveNotify w p ch))"
  "clean (snd (FlagsNotify w (Some p) ch))"
  by (auto simp: SendToOne_def SendToAllWatching_def UpdateChannelInDB_def JoinNotify_def
      UpdateChannelUseageInDB_def AddChannelBanToDB_def RemoveChannelBanFromDB_def
      LeaveNotify_def FlagsNotify_def act_eval clean_def)

lemma scan_owner_sub: "set (scan_owner w m) \<subseteq> snd ` set m"
  by (induction w m rule: scan_owner.induct) auto

lemma scan_owner_Nil_iff: "scan_owner w m = [] \<longleftrightarrow> m = []"
  by (cases m) auto

lemma scan_owner_last:
  assumes "m \<noteq> []"
  shows "\<exists>k. (k, last (scan_owner w m)) \<in> set m"
proof -
  have "last (scan_owner w m) \<in> set (scan_owner w m)"
    using assms by (simp add: scan_owner_Nil_iff)
  with scan_owner_sub have "last (scan_owner w m) \<in> snd ` set m" by blast
  then show ?thesis by auto
qed

lemma clean_scan_derefs [simp]:
  assumes "entries_ok ch"
  shows "clean (snd (scan_derefs w ch))"
proof -
  have "pi_plrPtr p \<noteq> None" if "p \<in> set (scan_owner w (playersStore ch))" for p
    using that scan_owner_sub [of w "playersStore ch"] entries_ok_ptr [OF assms] by force
  then show ?thesis by (force simp: scan_derefs_def act_eval clean_def split: if_splits)
qed


section \<open>Flags of an entry\<close>

lemma flag_consts: "MEMBER_FLAG_OWNER AND MEMBER_FLAG_MODERATOR = 0"
    "MEMBER_FLAG_MODERATOR AND MEMBER_FLAG_OWNER = 0" "MEMBER_FLAG_MUTED AND MEMBER_FLAG_OWNER = 0"
    "MEMBER_FLAG_MUTED AND MEMBER_FLAG_MODERATOR = 0" "MEMBER_FLAG_OWNER AND MEMBER_FLAG_MUTED = 0"
    "MEMBER_FLAG_MODERATOR AND MEMBER_FLAG_MUTED = 0"
    "MEMBER_FLAG_OWNER \<noteq> 0" "MEMBER_FLAG_MODERATOR \<noteq> 0" "MEMBER_FLAG_MUTED \<noteq> 0"
  by (simp_all add: MEMBER_FLAG_OWNER_def MEMBER_FLAG_MODERATOR_def MEMBER_FLAG_MUTED_def)

lemma entry_flags [simp]:
  "IsOwner (pi_SetOwner b p) = b" "IsModerator (pi_SetOwner b p) = IsModerator p"
  "IsMuted (pi_SetOwner b p) = IsMuted p"
  "IsOwner (pi_SetModerator b p) = IsOwner p" "IsModerator (pi_SetModerator b p) = b"
  "IsMuted (pi_SetModerator b p) = IsMuted p"
  "IsOwner (pi_SetMuted b p) = IsOwner p" "IsModerator (pi_SetMuted b p) = IsModerator p"
  "IsMuted (pi_SetMuted b p) = b"
  by (cases b; simp add: IsOwner_def IsModerator_def IsMuted_def pi_SetOwner_def
      pi_SetModerator_def pi_SetMuted_def flag_simps flag_consts)+

lemma entry_frame [simp]:
  "pi_player (pi_SetOwner b p) = pi_player p" "pi_plrPtr (pi_SetOwner b p) = pi_plrPtr p"
  "pi_player (pi_SetModerator b p) = pi_player p" "pi_plrPtr (pi_SetModerator b p) = pi_plrPtr p"
  "pi_player (pi_SetMuted b p) = pi_player p" "pi_plrPtr (pi_SetMuted b p) = pi_plrPtr p"
  "pi_player (pi_SetOwnerGM b p) = pi_player p" "pi_plrPtr (pi_SetOwnerGM b p) = pi_plrPtr p"
  "pi_flags (pi_SetOwnerGM b p) = pi_flags p"
  "IsOwner (pi_SetOwnerGM b p) = IsOwner p" "IsModerator (pi_SetOwnerGM b p) = IsModerator p"
  by (simp_all add: pi_SetOwner_def pi_SetModerator_def pi_SetMuted_def pi_SetOwnerGM_def
      IsOwner_def IsModerator_def)

section \<open>The invariant\<close>

text \<open>
  \<open>chan_wf\<close>: entries are filed under their own identifier with a live player pointer, the
  tables have no duplicate keys, watchers are members, and a member that bears the owner
  flag is the recorded owner. \<open>owner_ok\<close>, for the custom channels that hand out
  ownership: the recorded owner is a member, flagged as owner and moderator, and a channel
  with members has an owner.
\<close>

definition chan_wf :: "Channel \<Rightarrow> bool" where
  "chan_wf ch \<longleftrightarrow> entries_ok ch \<and> um_valid (bannedStore ch) \<and>
     distinct (playersWatchingStore ch) \<and> (\<forall>k \<in> set (playersWatchingStore ch). IsOn ch k) \<and>
     (\<forall>k. IsOn ch k \<longrightarrow> IsOwner (slot ch k) \<longrightarrow> k = ch_ownerGUID ch)"

definition owned :: "Channel \<Rightarrow> bool" where
  "owned ch \<longleftrightarrow> ch_ownership ch \<and> \<not> IsConstant ch"

definition owner_ok :: "Channel \<Rightarrow> bool" where
  "owner_ok ch \<longleftrightarrow>
     (ch_ownerGUID ch \<noteq> 0 \<longrightarrow> IsOn ch (ch_ownerGUID ch) \<and> IsOwner (slot ch (ch_ownerGUID ch)) \<and>
        IsModerator (slot ch (ch_ownerGUID ch))) \<and>
     (playersStore ch \<noteq> [] \<longrightarrow> ch_ownerGUID ch \<noteq> 0)"

definition chan_inv :: "Channel \<Rightarrow> bool" where
  "chan_inv ch \<longleftrightarrow> chan_wf ch \<and> (owned ch \<longrightarrow> owner_ok ch)"

lemma chan_wfD: "chan_wf ch \<Longrightarrow> entries_ok ch" "chan_wf ch \<Longrightarrow> valid_store ch"
    "chan_wf ch \<Longrightarrow> IsOn ch k \<Longrightarrow> k \<noteq> 0" "chan_wf ch \<Longrightarrow> IsOn ch k \<Longrightarrow> pi_player (slot ch k) = k"
    "chan_wf ch \<Longrightarrow> IsOn ch k \<Longrightarrow> pi_plrPtr (slot ch k) = Some k"
    "chan_wf ch \<Longrightarrow> IsOn ch k \<Longrightarrow> IsOwner (slot ch k) \<Longrightarrow> k = ch_ownerGUID ch"
  by (auto simp: chan_wf_def entries_ok_def)

lemma chan_inv_wf: "chan_inv ch \<Longrightarrow> chan_wf ch"
  by (simp add: chan_inv_def)

lemma entries_ok_valid [simp]: "entries_ok ch \<Longrightarrow> valid_store ch"
  by (simp add: entries_ok_def)

lemma entries_ok_put [simp]:
  "entries_ok ch \<Longrightarrow> g \<noteq> 0 \<Longrightarrow> pi_player p = g \<Longrightarrow> pi_plrPtr p = Some g \<Longrightarrow>
     entries_ok (put_member w g p ch)"
  by (auto simp: entries_ok_def)

lemma entries_ok_drop [simp]: "entries_ok ch \<Longrightarrow> entries_ok (drop_member g ch)"
  by (auto simp: entries_ok_def)

lemma entries_ok_frame: "playersStore ch' = playersStore ch \<Longrightarrow> entries_ok ch' = entries_ok ch"
  using members_ext [of ch' ch] by (simp add: entries_ok_def)

lemma owner_flag_iff:
  assumes "chan_inv ch" and "owned ch" and "IsOn ch g"
  shows "IsOwner (slot ch g) = (g = ch_ownerGUID ch)"
proof
  show "g = ch_ownerGUID ch" if "IsOwner (slot ch g)"
    using chan_inv_wf [OF assms(1)] assms(3) that by (rule chan_wfD(6))
  show "IsOwner (slot ch g)" if "g = ch_ownerGUID ch"
    using assms that chan_wfD(3) [OF chan_inv_wf [OF assms(1)] assms(3)]
    by (simp add: chan_inv_def owner_ok_def)
qed

lemma last_scanned_member:
  assumes "entries_ok ch" and "playersStore ch \<noteq> []"
    and p: "p = last (scan_owner w (playersStore ch))"
  shows "IsOn ch (pi_player p) \<and> slot ch (pi_player p) = p \<and> pi_plrPtr p = Some (pi_player p)"
proof -
  obtain k where "(k, p) \<in> set (playersStore ch)"
    using scan_owner_last [OF assms(2)] unfolding p by blast
  then have "IsOn ch k" and "slot ch k = p"
    using assms(1) by (simp_all add: member_entry)
  with assms(1) show ?thesis by (auto simp: entries_ok_def)
qed

section \<open>Changing the owner\<close>

lemma drop_owner_eval:
  assumes "entries_ok ch"
  shows "fst (drop_owner w ch) =
      (if ch_ownerGUID ch \<noteq> 0 \<and> IsOn ch (ch_ownerGUID ch)
       then put_member w (ch_ownerGUID ch) (pi_SetOwner False (slot ch (ch_ownerGUID ch))) ch else ch)"
    and "clean (snd (drop_owner w ch))"
  using assms by (auto simp: drop_owner_def act_eval set_slot_eval entries_ok_def)

lemma enter_owner_eval:
  assumes "entries_ok ch" and "IsOn ch g"
  shows "fst (enter_owner w g ex ch) =
      put_member w g (pi_SetOwner True (pi_SetModerator True (slot ch g)))
        (put_member w g (pi_SetModerator True (slot ch g)) ch)"
    and "clean (snd (enter_owner w g ex ch))"
proof -
  have g: "g \<noteq> 0" "pi_player (slot ch g) = g" "pi_plrPtr (slot ch g) = Some g"
    using assms by (auto simp: entries_ok_def)
  show "fst (enter_owner w g ex ch) =
      put_member w g (pi_SetOwner True (pi_SetModerator True (slot ch g)))
        (put_member w g (pi_SetModerator True (slot ch g)) ch)"
    using assms g by (simp add: enter_owner_def Let_def act_eval slot_ref_eval set_slot_eval)
  show "clean (snd (enter_owner w g ex ch))"
    using assms g by (simp add: enter_owner_def Let_def act_eval slot_ref_eval set_slot_eval)
qed

lemma SetOwnerGuid_spec:
  assumes ok: "entries_ok ch" and g: "g \<noteq> 0 \<Longrightarrow> IsOn ch g"
    and flags: "\<And>k. IsOn ch k \<Longrightarrow> IsOwner (slot ch k) \<Longrightarrow> k = ch_ownerGUID ch"
    and ch': "ch' = fst (SetOwnerGuid w g ex ch)"
  shows "entries_ok ch'" "IsOn ch' k = IsOn ch k" "ch_ownerGUID ch' = g"
    "IsOn ch k \<Longrightarrow> IsOwner (slot ch' k) = (k = g)"
    "IsOn ch k \<Longrightarrow> IsModerator (slot ch' k) = (k = g \<or> IsModerator (slot ch k))"
    "clean (snd (SetOwnerGuid w g ex ch))"
proof -
  let ?o = "ch_ownerGUID ch"
  let ?c = "fst (drop_owner w ch)"
  let ?d = "?c\<lparr>ch_ownerGUID := g\<rparr>"
  note dr = drop_owner_eval [OF ok, of w]
  have c: "entries_ok ?c" "IsOn ?c k = IsOn ch k" "IsModerator (slot ?c k) = IsModerator (slot ch k)" for k
    using ok by (auto simp: dr(1) entries_ok_def)
  have no: "\<not> IsOwner (slot ?c k)" if "IsOn ch k" for k
    using flags [OF that] that ok by (auto simp: dr(1) entries_ok_def)
  have d: "entries_ok ?d" "IsOn ?d k = IsOn ?c k" "slot ?d k = slot ?c k" for k
    using c(1) entries_ok_frame [of ?d ?c] members_ext [of ?d ?c] by simp_all
  have run: "ch' = (if g = 0 then ?d else fst (enter_owner w g ex ?d))"
    "snd (SetOwnerGuid w g ex ch) = snd (drop_owner w ch) @ (if g = 0 then [] else snd (enter_owner w g ex ?d))"
    by (simp_all add: ch' SetOwnerGuid_def act_eval)
  have en: "fst (enter_owner w g ex ?d) =
      put_member w g (pi_SetOwner True (pi_SetModerator True (slot ?d g)))
        (put_member w g (pi_SetModerator True (slot ?d g)) ?d)"
    "clean (snd (enter_owner w g ex ?d))" if "g \<noteq> 0"
    using enter_owner_eval [of ?d g w ex] d c g [OF that] by simp_all
  have new: "pi_player (slot ?d g) = g \<and> pi_plrPtr (slot ?d g) = Some g" if "g \<noteq> 0"
    using d(1) d(2) [of g] c(2) [of g] g [OF that] by (simp add: entries_ok_def)
  show "entries_ok ch'" using d(1) en(1) new by (auto simp: run)
  show "IsOn ch' k = IsOn ch k" using d c g en(1) by (auto simp: run)
  show "ch_ownerGUID ch' = g" using en(1) by (auto simp: run)
  show "IsOwner (slot ch' k) = (k = g)" if "IsOn ch k"
    using that d c no [OF that] en(1) ok by (auto simp: run entries_ok_def)
  show "IsModerator (slot ch' k) = (k = g \<or> IsModerator (slot ch k))" if "IsOn ch k"
    using that d c en(1) ok by (auto simp: run entries_ok_def)
  show "clean (snd (SetOwnerGuid w g ex ch))" using dr(2) en(2) by (auto simp: run(2))
qed

lemma drop_owner_frame [simp]:
  "bannedStore (fst (drop_owner w ch)) = bannedStore ch"
  "playersWatchingStore (fst (drop_owner w ch)) = playersWatchingStore ch"
  "ch_ownership (fst (drop_owner w ch)) = ch_ownership ch"
  "ch_channelId (fst (drop_owner w ch)) = ch_channelId ch"
  "ch_channelRights (fst (drop_owner w ch)) = ch_channelRights ch"
  by (simp_all add: drop_owner_def act_eval set_slot_eval)

lemma slot_ref_frame [simp]:
  "bannedStore (fst (slot_ref w g ch)) = bannedStore ch"
  "playersWatchingStore (fst (slot_ref w g ch)) = playersWatchingStore ch"
  "ch_ownership (fst (slot_ref w g ch)) = ch_ownership ch"
  "ch_channelId (fst (slot_ref w g ch)) = ch_channelId ch"
  "ch_channelRights (fst (slot_ref w g ch)) = ch_channelRights ch"
  by (simp_all add: slot_ref_def act_eval)

lemma set_slot_frame [simp]:
  "bannedStore (fst (set_slot w g f ch)) = bannedStore ch"
  "playersWatchingStore (fst (set_slot w g f ch)) = playersWatchingStore ch"
  "ch_ownership (fst (set_slot w g f ch)) = ch_ownership ch"
  "ch_channelId (fst (set_slot w g f ch)) = ch_channelId ch"
  "ch_channelRights (fst (set_slot w g f ch)) = ch_channelRights ch"
  by (simp_all add: set_slot_eval)

lemma enter_owner_frame [simp]:
  "bannedStore (fst (enter_owner w g ex ch)) = bannedStore ch"
  "playersWatchingStore (fst (enter_owner w g ex ch)) = playersWatchingStore ch"
  "ch_ownership (fst (enter_owner w g ex ch)) = ch_ownership ch"
  "ch_channelId (fst (enter_owner w g ex ch)) = ch_channelId ch"
  "ch_channelRights (fst (enter_owner w g ex ch)) = ch_channelRights ch"
  by (simp_all add: enter_owner_def act_eval Let_def)

lemma SetOwnerGuid_frame [simp]:
  "bannedStore (fst (SetOwnerGuid w g ex ch)) = bannedStore ch"
  "playersWatchingStore (fst (SetOwnerGuid w g ex ch)) = playersWatchingStore ch"
  "ch_ownership (fst (SetOwnerGuid w g ex ch)) = ch_ownership ch"
  "ch_channelId (fst (SetOwnerGuid w g ex ch)) = ch_channelId ch"
  "ch_channelRights (fst (SetOwnerGuid w g ex ch)) = ch_channelRights ch"
  by (simp_all add: SetOwnerGuid_def act_eval)

text \<open>The invariant but for the demand that members imply an owner; it holds in the middle of
  \<open>JoinChannel\<close> too.\<close>

definition chan_mid :: "Channel \<Rightarrow> bool" where
  "chan_mid ch \<longleftrightarrow> chan_wf ch \<and> (owned ch \<longrightarrow> ch_ownerGUID ch \<noteq> 0 \<longrightarrow>
     IsOn ch (ch_ownerGUID ch) \<and> IsOwner (slot ch (ch_ownerGUID ch)) \<and>
     IsModerator (slot ch (ch_ownerGUID ch)))"

lemma chan_inv_alt: "chan_inv ch \<longleftrightarrow>
    chan_mid ch \<and> (owned ch \<longrightarrow> playersStore ch \<noteq> [] \<longrightarrow> ch_ownerGUID ch \<noteq> 0)"
  by (auto simp: chan_inv_def chan_mid_def owner_ok_def)

lemma chan_mid_wf: "chan_mid ch \<Longrightarrow> chan_wf ch"
  by (simp add: chan_mid_def)

lemma chan_inv_mid: "chan_inv ch \<Longrightarrow> chan_mid ch"
  by (simp add: chan_inv_alt)

lemma SetOwnerGuid_inv:
  assumes wf: "chan_wf ch" and "g = 0 \<Longrightarrow> playersStore ch = []" and "g \<noteq> 0 \<Longrightarrow> IsOn ch g"
  shows "chan_inv (fst (SetOwnerGuid w g ex ch)) \<and> clean (snd (SetOwnerGuid w g ex ch))"
proof -
  let ?c = "fst (SetOwnerGuid w g ex ch)"
  note sp = SetOwnerGuid_spec [OF chan_wfD(1) [OF wf] assms(3) chan_wfD(6) [OF wf] refl, where w = w and ex = ex]
  have "chan_wf ?c"
    using wf sp by (auto simp: chan_wf_def)
  moreover have "owner_ok ?c"
    using assms sp by (auto simp: owner_ok_def no_members_iff)
  ultimately show ?thesis using sp by (simp add: chan_inv_def)
qed

lemma chan_mid_put:
  assumes "chan_mid ch" and "g \<noteq> 0" and "pi_player p = g" and "pi_plrPtr p = Some g"
    and "IsOwner p \<Longrightarrow> g = ch_ownerGUID ch"
    and "owned ch \<Longrightarrow> g = ch_ownerGUID ch \<Longrightarrow> IsOwner p \<and> IsModerator p"
  shows "chan_mid (put_member w g p ch)"
proof -
  let ?c = "put_member w g p ch"
  have wf: "chan_wf ch" using assms(1) by (rule chan_mid_wf)
  note v = chan_wfD(2) [OF wf]
  have "entries_ok ?c" using chan_wfD(1) [OF wf] assms(2-4) by simp
  moreover have "k = ch_ownerGUID ?c" if "IsOn ?c k" and "IsOwner (slot ?c k)" for k
    using that v chan_wfD(6) [OF wf] assms(5) by (simp split: if_splits)
  moreover have "\<forall>k \<in> set (playersWatchingStore ?c). IsOn ?c k"
    using wf v by (simp add: chan_wf_def)
  ultimately have "chan_wf ?c" using wf by (simp add: chan_wf_def)
  moreover have "owned ?c = owned ch" by (simp add: owned_def IsConstant_def)
  ultimately show ?thesis using assms(1,6) v by (simp add: chan_mid_def)
qed

lemma chan_mid_modify:
  assumes "chan_mid ch" and "IsOn ch g" and "pi_player (f (slot ch g)) = pi_player (slot ch g)"
    and "pi_plrPtr (f (slot ch g)) = pi_plrPtr (slot ch g)"
    and "IsOwner (f (slot ch g)) = IsOwner (slot ch g)"
    and "owned ch \<Longrightarrow> g = ch_ownerGUID ch \<Longrightarrow> IsModerator (slot ch g) \<Longrightarrow> IsModerator (f (slot ch g))"
  shows "chan_mid (put_member w g (f (slot ch g)) ch)"
proof (rule chan_mid_put [OF assms(1)])
  have wf: "chan_wf ch" using assms(1) by (rule chan_mid_wf)
  show "g \<noteq> 0" using wf assms(2) by (rule chan_wfD)
  show "pi_player (f (slot ch g)) = g" using chan_wfD(4) [OF wf assms(2)] assms(3) by simp
  show "pi_plrPtr (f (slot ch g)) = Some g" using chan_wfD(5) [OF wf assms(2)] assms(4) by simp
  show "g = ch_ownerGUID ch" if "IsOwner (f (slot ch g))"
    using chan_wfD(6) [OF wf assms(2)] assms(5) that by simp
  show "IsOwner (f (slot ch g)) \<and> IsModerator (f (slot ch g))"
    if "owned ch" and "g = ch_ownerGUID ch"
    using assms that \<open>g \<noteq> 0\<close> by (simp add: chan_mid_def)
qed

lemma chan_inv_modify:
  assumes "chan_inv ch" and "IsOn ch g" and "pi_player (f (slot ch g)) = pi_player (slot ch g)"
    and "pi_plrPtr (f (slot ch g)) = pi_plrPtr (slot ch g)"
    and "IsOwner (f (slot ch g)) = IsOwner (slot ch g)"
    and "owned ch \<Longrightarrow> g = ch_ownerGUID ch \<Longrightarrow> IsModerator (slot ch g) \<Longrightarrow> IsModerator (f (slot ch g))"
  shows "chan_inv (put_member w g (f (slot ch g)) ch)"
proof -
  have "playersStore ch \<noteq> []" using assms(2) by (auto simp: no_members_iff)
  with assms(1) have "owned ch \<Longrightarrow> ch_ownerGUID ch \<noteq> 0" by (simp add: chan_inv_alt)
  with chan_mid_modify [where f = f, OF chan_inv_mid [OF assms(1)] assms(2-6)] show ?thesis
    by (simp add: chan_inv_alt owned_def IsConstant_def)
qed

text \<open>A member leaves who is not the owner, or whose leaving is followed by the choice of a
  new owner.\<close>

lemma chan_wf_leave:
  assumes "chan_wf ch"
  shows "chan_wf ((drop_member g ch)\<lparr>playersWatchingStore := remove1 g (playersWatchingStore ch)\<rparr>)"
proof -
  let ?c = "(drop_member g ch)\<lparr>playersWatchingStore := remove1 g (playersWatchingStore ch)\<rparr>"
  have m: "IsOn ?c = IsOn (drop_member g ch)" "slot ?c = slot (drop_member g ch)"
    using members_ext [of ?c "drop_member g ch"] by simp_all
  have "entries_ok ?c"
    using assms entries_ok_frame [of ?c "drop_member g ch"] by (simp add: chan_wf_def)
  then show ?thesis
    using assms chan_wfD(2) [OF assms] by (auto simp: chan_wf_def m)
qed

text \<open>What the code relies on: \<open>ObjectAccessor::FindPlayerByName\<close> looks the normalised name up in
  a table of the players by name.\<close>

definition world_ok :: "world \<Rightarrow> bool" where
  "world_ok w \<longleftrightarrow> (\<forall>n v. w_FindPlayerByName w n = Some v \<longrightarrow>
     v \<noteq> 0 \<and> w_normalizePlayerName w n = Some (pl_name (w_player w v)))"

end
