(* ===== verification/ChannelPreserve.thy ===== *)
theory ChannelPreserve
  imports ChannelInv
begin

text \<open>
  Every public operation of \<open>src/src/server/game/Chat/Channels/Channel.cpp\<close> keeps the
  invariant \<open>chan_inv\<close> of theory \<open>ChannelInv\<close> and follows no null pointer: one triple per
  operation. \<open>chan_op\<close> collects the operations, \<open>chan_step\<close> is the step relation of a
  channel object, and the interpretation of \<open>component\<close> carries the invariant to every
  reachable channel.
\<close>


section \<open>The operations keep the invariant\<close>

abbreviation not_null :: "chan_effect \<Rightarrow> bool" where
  "not_null e \<equiv> e \<noteq> NullDeref"

lemma list_all_not_null: "list_all not_null es \<longleftrightarrow> clean es"
  by (auto simp: clean_def list_all_iff)

lemma tripleC:
  "(\<And>ch. P ch \<Longrightarrow> Q (fst (x ch)) \<and> clean (snd (x ch))) \<Longrightarrow> triple P x Q not_null"
  by (simp add: triple_def list_all_not_null)

lemma tripleD:
  "triple P x Q not_null \<Longrightarrow> P ch \<Longrightarrow> Q (fst (x ch)) \<and> clean (snd (x ch))"
  by (simp add: triple_def list_all_not_null)

lemma triple_sender:
  "triple P (SendToOne w mk g) P not_null" "triple P (JoinNotify w g) P not_null"
  "triple P (LeaveNotify w g) P not_null" "triple P (FlagsNotify w (Some g)) P not_null"
  "triple P UpdateChannelInDB P not_null" "triple P UpdateChannelUseageInDB P not_null"
  "triple P (AddChannelBanToDB g t) P not_null" "triple P (RemoveChannelBanFromDB g) P not_null"
  by (simp_all add: tripleC)

lemma triple_SendToAll: "(\<And>ch. P ch \<Longrightarrow> entries_ok ch) \<Longrightarrow> triple P (SendToAll w mk g) P not_null"
  by (simp add: tripleC)

lemma triple_scan: "(\<And>ch. P ch \<Longrightarrow> entries_ok ch) \<Longrightarrow> triple P (scan_derefs w) P not_null"
  by (simp add: tripleC)

lemma triple_set_slot: "(\<And>ch. P ch \<Longrightarrow> Q (put_member w g (f (slot ch g)) ch)) \<Longrightarrow>
    triple P (set_slot w g f) Q not_null"
  by (simp add: tripleC set_slot_eval)

lemma triple_SetOwnerGuid:
  assumes "\<And>ch. P ch \<Longrightarrow> chan_wf ch \<and> (if g = 0 then playersStore ch = [] else IsOn ch g)"
  shows "triple P (SetOwnerGuid w g ex) chan_inv not_null"
proof (rule tripleC)
  fix ch assume "P ch"
  from assms [OF this] show "chan_inv (fst (SetOwnerGuid w g ex ch)) \<and> clean (snd (SetOwnerGuid w g ex ch))"
    by (intro SetOwnerGuid_inv) (auto split: if_splits)
qed

lemma chan_inv_ok: "chan_inv ch \<Longrightarrow> entries_ok ch"
  by (simp add: chan_inv_def chan_wf_def)

lemmas leaf = triple_skip triple_sender triple_SendToAll [OF chan_inv_ok]

subsection \<open>Joining\<close>

lemma store_member_mid:
  assumes "chan_inv ch" and "\<not> IsOn ch g" and "g \<noteq> 0"
  shows "chan_mid (fst (store_member w g ch))"
proof -
  have "owned ch \<Longrightarrow> g \<noteq> ch_ownerGUID ch"
    using assms by (auto simp: chan_inv_alt chan_mid_def)
  then show ?thesis
    using assms unfolding store_member_def set_slot_eval fst_conv
    by (intro chan_mid_put) (auto simp: chan_inv_alt IsOwner_def MEMBER_FLAG_NONE_def)
qed

definition mid_on :: "guid \<Rightarrow> Channel \<Rightarrow> bool" where
  "mid_on g ch \<longleftrightarrow> chan_mid ch \<and> IsOn ch g"

lemma mid_on_modify:
  assumes "mid_on g ch" and "\<And>p. pi_player (f p) = pi_player p" and "\<And>p. pi_plrPtr (f p) = pi_plrPtr p"
    and "\<And>p. IsOwner (f p) = IsOwner p" and "\<And>p. IsModerator p \<Longrightarrow> IsModerator (f p)"
  shows "mid_on g (put_member w g (f (slot ch g)) ch)"
  using assms chan_mid_modify [where f = f and g = g and ch = ch and w = w]
  by (simp add: mid_on_def chan_wfD(2) chan_mid_wf)

lemma join_custom_inv: "triple (mid_on g) (join_custom w g) chan_inv not_null"
proof -
  define N where "N ch \<longleftrightarrow> chan_inv ch \<and> IsOn ch g" for ch
  have owner: "triple (mid_on g) (acts [upd (\<lambda>ch. ch\<lparr>ch_isOwnerGM := IsOwnerGM (slot ch g)\<rparr>),
      SetOwnerGuid w g False]) N not_null"
  proof (rule tripleC)
    fix ch assume m: "mid_on g ch"
    let ?c = "ch\<lparr>ch_isOwnerGM := IsOwnerGM (slot ch g)\<rparr>"
    have same: "IsOn ?c = IsOn ch" "slot ?c = slot ch" using members_ext [of ?c ch] by simp_all
    have wf: "chan_wf ?c" and on: "IsOn ?c g"
      using m entries_ok_frame [of ?c ch] by (auto simp: mid_on_def chan_mid_def chan_wf_def same)
    then have "g \<noteq> 0" by (rule chan_wfD(3))
    with SetOwnerGuid_inv [OF wf, of g w False] on
      SetOwnerGuid_spec(2) [OF chan_wfD(1) [OF wf] on chan_wfD(6) [OF wf] refl]
    show "N (fst (acts [upd (\<lambda>ch. ch\<lparr>ch_isOwnerGM := IsOwnerGM (slot ch g)\<rparr>), SetOwnerGuid w g False] ch)) \<and>
      clean (snd (acts [upd (\<lambda>ch. ch\<lparr>ch_isOwnerGM := IsOwnerGM (slot ch g)\<rparr>), SetOwnerGuid w g False] ch))"
      by (simp add: act_eval N_def)
  qed
  have keep: "triple (\<lambda>ch. mid_on g ch \<and> \<not> ((ch_ownerGUID ch = 0 \<or> (ch_isOwnerGM ch \<and> cfg_SilentlyGMJoin w)) \<and>
      ch_ownership ch)) skip N not_null"
    by (rule tripleC) (auto simp: act_eval N_def mid_on_def chan_inv_alt owned_def)
  have mute: "triple N (set_slot w g (pi_SetMuted True)) chan_inv not_null"
    by (rule triple_set_slot, unfold N_def, elim conjE, rule chan_inv_modify [where f = "pi_SetMuted True"])
      simp_all
  have moder: "triple (mid_on g) (acts [set_slot w g (pi_SetModerator True), FlagsNotify w (Some g)])
      (mid_on g) not_null"
    by (rule triple_acts_Cons [OF _ triple_acts_Cons [OF triple_sender(4) triple_acts_Nil]],
        rule triple_set_slot, (rule mid_on_modify; simp))
  show ?thesis
    unfolding join_custom_def
    apply (rule triple_acts_Cons [where Q = "mid_on g"])
     apply (rule triple_cond; rule triple_pre [where P' = "mid_on g"]; simp add: triple_sender triple_skip)
    apply (rule triple_acts_Cons [where Q = "mid_on g"])
     apply (rule triple_cond; rule triple_pre [where P' = "mid_on g"]; simp add: moder triple_skip)
    apply (rule triple_acts_Cons [where Q = N])
     apply (rule triple_cond)
      apply (rule triple_pre [OF owner], simp)
     apply (rule keep)
    apply (rule triple_acts_Cons [where Q = chan_inv])
     apply (rule triple_cond)
      apply (rule triple_pre [OF mute], simp)
     apply (rule tripleC, simp add: act_eval N_def)
    apply (rule triple_acts_Nil)
    done
qed


lemma join_accepted_inv:
  assumes g: "g \<noteq> 0"
  shows "triple (\<lambda>ch. chan_inv ch \<and> \<not> IsOn ch g) (join_accepted w g) chan_inv not_null"
proof -
  let ?P = "\<lambda>ch. chan_inv ch \<and> \<not> IsOn ch g"
  have ok: "entries_ok ch" if "?P ch" for ch using that by (simp add: chan_inv_ok)
  have store: "triple ?P (store_member w g) (mid_on g) not_null"
  proof (rule tripleC)
    fix ch assume P: "?P ch"
    then have "chan_mid (fst (store_member w g ch))" using store_member_mid g by blast
    with ok [OF P] show "mid_on g (fst (store_member w g ch)) \<and> clean (snd (store_member w g ch))"
      by (simp add: mid_on_def store_member_def set_slot_eval)
  qed
  have const: "triple (\<lambda>ch. mid_on g ch \<and> \<not> \<not> IsConstant ch) skip chan_inv not_null"
    by (rule tripleC) (simp add: act_eval mid_on_def chan_inv_alt owned_def)
  show ?thesis
    unfolding join_accepted_def
    apply (rule triple_acts_Cons [where Q = ?P], rule triple_emit, simp)
    apply (rule triple_acts_Cons [where Q = ?P], rule triple_cond)
      apply (rule tripleC, simp add: ok)
     apply (rule tripleC, simp add: act_eval)
    apply (rule triple_acts_Cons [OF store])
    apply (rule triple_acts_Cons [where Q = "mid_on g"], rule triple_emit, simp)
    apply (rule triple_acts_Cons [where Q = "mid_on g"], rule triple_sender)
    apply (rule triple_acts_Cons [where Q = "mid_on g"], rule triple_sender)
    apply (rule triple_acts_Cons [where Q = "mid_on g"])
     apply (rule triple_set_slot, (rule mid_on_modify; simp))
    apply (rule triple_acts_Cons [where Q = chan_inv], rule triple_cond)
      apply (rule triple_pre [OF join_custom_inv], simp)
     apply (rule const)
    apply (rule triple_acts_Nil)
    done
qed

lemma JoinChannel_inv: "g \<noteq> 0 \<Longrightarrow> triple chan_inv (JoinChannel w g pass) chan_inv not_null"
  unfolding JoinChannel_def
  apply (rule triple_cond, rule triple_cond)
    apply (rule tripleC, simp)
   apply (rule tripleC, simp add: act_eval)
  apply (rule triple_cond, rule tripleC, simp)
  apply (rule triple_cond, rule tripleC, simp)
  apply (rule triple_cond, rule tripleC, simp)
  apply (rule triple_pre [OF join_accepted_inv]; simp)
  done

subsection \<open>Leaving\<close>

text \<open>A member that is not the owner leaves.\<close>

lemma chan_inv_leave:
  assumes inv: "chan_inv ch" and "owned ch \<Longrightarrow> g \<noteq> ch_ownerGUID ch"
  shows "chan_inv ((drop_member g ch)\<lparr>playersWatchingStore := remove1 g (playersWatchingStore ch)\<rparr>)"
proof -
  let ?c = "(drop_member g ch)\<lparr>playersWatchingStore := remove1 g (playersWatchingStore ch)\<rparr>"
  have m: "IsOn ?c = IsOn (drop_member g ch)" "slot ?c = slot (drop_member g ch)"
    using members_ext [of ?c "drop_member g ch"] by simp_all
  note v = chan_wfD(2) [OF chan_inv_wf [OF inv]]
  have "chan_wf ?c" using chan_inv_wf [OF inv] by (rule chan_wf_leave)
  moreover have "owner_ok ?c" if o: "owned ch"
  proof -
    have ok: "owner_ok ch" and ne: "g \<noteq> ch_ownerGUID ch"
      using assms o by (auto simp: chan_inv_def)
    have "ch_ownerGUID ch \<noteq> 0" if "IsOn ch k" for k
      using ok that by (auto simp: owner_ok_def no_members_iff)
    then show ?thesis
      using ok ne v unfolding owner_ok_def no_members_iff by (auto simp: m)
  qed
  moreover have "owned ?c = owned ch" by (simp add: owned_def IsConstant_def)
  ultimately show ?thesis by (simp add: chan_inv_def)
qed

lemma pick_owner_inv: "triple chan_wf (pick_owner_on_leave w) chan_inv not_null"
proof -
  have "triple (\<lambda>ch. (chan_wf ch \<and> playersStore ch \<noteq> []) \<and> last (scan_owner w (playersStore ch)) = p)
     (acts [scan_derefs w, upd (\<lambda>ch. ch\<lparr>ch_isOwnerGM := IsGMAccount (ptr_sec w p)\<rparr>),
        SetOwnerGuid w (pi_player p) True]) chan_inv not_null" (is "triple ?P _ _ _") for p
  proof -
    have P: "chan_wf ch \<and> pi_player p \<noteq> 0 \<and> IsOn ch (pi_player p)" if "?P ch" for ch
      using that last_scanned_member [of ch p w] chan_wfD(1,3) by force
    have "triple ?P (upd (\<lambda>ch. ch\<lparr>ch_isOwnerGM := IsGMAccount (ptr_sec w p)\<rparr>))
       (\<lambda>ch. chan_wf ch \<and> pi_player p \<noteq> 0 \<and> IsOn ch (pi_player p)) not_null"
    proof (rule triple_upd)
      fix ch assume a: "?P ch"
      let ?c = "ch\<lparr>ch_isOwnerGM := IsGMAccount (ptr_sec w p)\<rparr>"
      have "IsOn ?c = IsOn ch" "slot ?c = slot ch" using members_ext [of ?c ch] by simp_all
      then show "chan_wf ?c \<and> pi_player p \<noteq> 0 \<and> IsOn ?c (pi_player p)"
        using P [OF a] entries_ok_frame [of ?c ch] by (simp add: chan_wf_def)
    qed
    note set = this
    show ?thesis
      apply (rule triple_acts_Cons [where Q = ?P], rule triple_scan, simp add: chan_wfD)
      apply (rule triple_acts_Cons [OF set])
      apply (rule triple_acts_Cons [OF triple_SetOwnerGuid triple_acts_Nil], simp)
      done
  qed
  then show ?thesis
    unfolding pick_owner_on_leave_def
    by (intro triple_cond triple_load triple_SetOwnerGuid) auto
qed


text \<open>What \<open>LeaveChannel\<close> and \<open>KickOrBan\<close> do once the entry is gone: the watcher goes,
  and the channel is ready for \<open>pick\<close>, or keeps the invariant if the owner stays.\<close>

definition gone :: "guid \<Rightarrow> bool \<Rightarrow> Channel \<Rightarrow> bool" where
  "gone g own ch \<longleftrightarrow> chan_wf ch \<and> (\<not> own \<longrightarrow> chan_inv ch)"

lemma remove_entry:
  assumes inv: "chan_inv ch" and on: "IsOn ch g" and own: "owned ch \<Longrightarrow> own = (g = ch_ownerGUID ch)"
  shows "gone g own (fst (RemoveWatching g (drop_member g ch)))"
    and "entries_ok (drop_member g ch)" and "clean (snd (RemoveWatching g (drop_member g ch)))"
proof -
  let ?c = "(drop_member g ch)\<lparr>playersWatchingStore := remove1 g (playersWatchingStore ch)\<rparr>"
  have run: "RemoveWatching g (drop_member g ch) = (?c, [])"
    by (simp add: RemoveWatching_def act_eval)
  have "\<not> own \<Longrightarrow> owned ch \<Longrightarrow> g \<noteq> ch_ownerGUID ch" using own by blast
  then show "gone g own (fst (RemoveWatching g (drop_member g ch)))"
    using chan_wf_leave [OF chan_inv_wf [OF inv], of g] chan_inv_leave [OF inv, of g]
    by (simp add: gone_def run)
  show "entries_ok (drop_member g ch)" using inv by (simp add: chan_inv_ok)
  show "clean (snd (RemoveWatching g (drop_member g ch)))" by (simp add: run)
qed

lemma LeaveChannel_inv: "triple chan_inv (LeaveChannel w g send) chan_inv not_null"
proof -
  let ?P = "\<lambda>ch. chan_inv ch \<and> \<not> \<not> IsOn ch g"
  have "triple (\<lambda>ch. ?P ch \<and> IsOwner (slot ch g) = own)
     (acts [upd (\<lambda>ch. ch\<lparr>playersStore := um_erase g (playersStore ch)\<rparr>),
            whenever (\<lambda>ch. ch_announce ch \<and> \<not> silent_gm w g) (SendToAll w (MakeLeft g) 0),
            RemoveWatching g])
     (gone g own) not_null" for own
  proof (rule tripleC)
    fix ch assume a: "?P ch \<and> IsOwner (slot ch g) = own"
    have "own = (g = ch_ownerGUID ch)" if "owned ch"
      using a that owner_flag_iff [of ch g] by simp
    with a show "gone g own (fst (acts [upd (\<lambda>ch. ch\<lparr>playersStore := um_erase g (playersStore ch)\<rparr>),
            whenever (\<lambda>ch. ch_announce ch \<and> \<not> silent_gm w g) (SendToAll w (MakeLeft g) 0),
            RemoveWatching g] ch)) \<and>
        clean (snd (acts [upd (\<lambda>ch. ch\<lparr>playersStore := um_erase g (playersStore ch)\<rparr>),
            whenever (\<lambda>ch. ch_announce ch \<and> \<not> silent_gm w g) (SendToAll w (MakeLeft g) 0),
            RemoveWatching g] ch))"
      using remove_entry [of ch g own] by (simp add: act_eval drop_member_def)
  qed
  note erase = this
  have pick: "triple (gone g own) (whenever (\<lambda>ch. own \<and> ch_ownership ch) (pick_owner_on_leave w))
     chan_inv not_null" for own
  proof (rule triple_cond)
    show "triple (\<lambda>ch. gone g own ch \<and> own \<and> ch_ownership ch) (pick_owner_on_leave w) chan_inv not_null"
      by (rule triple_pre [OF pick_owner_inv]) (simp add: gone_def)
    show "triple (\<lambda>ch. gone g own ch \<and> \<not> (own \<and> ch_ownership ch)) skip chan_inv not_null"
      by (rule tripleC) (auto simp: act_eval gone_def chan_inv_def owned_def)
  qed
  have const: "chan_inv ch" if "gone g own ch" and "IsConstant ch" for own ch
    using that by (simp add: gone_def chan_inv_def owned_def)
  have split3: "acts (a # b # c # d # xs) = andThen (acts [a, b, c]) (acts (d # xs))"
    for a b c d :: chan_act and xs
    by (simp add: fun_eq_iff act_eval)
  show ?thesis
    unfolding LeaveChannel_def
    apply (rule triple_cond)
     apply (rule tripleC, simp add: act_eval)
    apply (rule triple_acts_Cons [where Q = ?P])
     apply (rule tripleC, simp add: act_eval)
    apply (rule triple_acts_Cons [OF _ triple_acts_Nil])
    apply (rule triple_load)
    unfolding split3
    apply (rule triple_andThen [OF erase])
    apply (rule triple_acts_Cons [OF triple_sender(3)])
    apply (rule triple_acts_Cons [OF _ triple_acts_Nil])
    apply (rule triple_cond)
     apply (rule triple_acts_Cons [OF triple_sender(6)])
     apply (rule triple_acts_Cons [OF _ triple_acts_Nil])
     apply (rule triple_pre [OF pick], simp)
    apply (rule tripleC, auto simp: act_eval intro: const)
    done
qed


subsection \<open>Kicking and banning\<close>

lemma ban_store_inv:
  assumes "chan_inv ch" and "um_valid b"
  shows "chan_inv (ch\<lparr>bannedStore := b\<rparr>)"
proof -
  let ?c = "ch\<lparr>bannedStore := b\<rparr>"
  have "IsOn ?c = IsOn ch" "slot ?c = slot ch" using members_ext [of ?c ch] by simp_all
  with assms entries_ok_frame [of ?c ch] show ?thesis
    by (simp add: chan_inv_def chan_wf_def owner_ok_def owned_def IsConstant_def)
qed

lemma ban_store_on [simp]: "IsOn (ch\<lparr>bannedStore := b\<rparr>) = IsOn ch"
  using members_ext [of "ch\<lparr>bannedStore := b\<rparr>" ch] by simp

definition kick_ready :: "guid \<Rightarrow> guid \<Rightarrow> bool \<Rightarrow> bool \<Rightarrow> Channel \<Rightarrow> bool" where
  "kick_ready good victim isOn own ch \<longleftrightarrow> chan_inv ch \<and> IsOn ch good \<and> (isOn \<longrightarrow> IsOn ch victim) \<and>
     own = (ch_ownerGUID ch = victim)"

definition kick_gone :: "guid \<Rightarrow> guid \<Rightarrow> bool \<Rightarrow> Channel \<Rightarrow> bool" where
  "kick_gone good victim own ch \<longleftrightarrow> gone victim own ch \<and> (good \<noteq> victim \<longrightarrow> IsOn ch good)"

lemma kick_new_owner_inv: "triple (kick_gone good victim own) (kick_new_owner w good victim) chan_inv not_null"
proof -
  have scan: "triple (\<lambda>ch. (chan_wf ch \<and> playersStore ch \<noteq> []) \<and> last (scan_owner w (playersStore ch)) = p)
     (acts [scan_derefs w, SetOwnerGuid w (pi_player p) True]) chan_inv not_null"
    (is "triple ?P _ _ _") for p
  proof -
    have P: "chan_wf ch \<and> pi_player p \<noteq> 0 \<and> IsOn ch (pi_player p)" if "?P ch" for ch
      using that last_scanned_member [of ch p w] chan_wfD(1,3) by force
    show ?thesis
      apply (rule triple_acts_Cons [where Q = ?P], rule triple_scan, simp add: chan_wfD)
      apply (rule triple_acts_Cons [OF triple_SetOwnerGuid triple_acts_Nil])
      using P by simp
  qed
  show ?thesis
  proof (cases "good = victim")
    case False
    then have "triple (kick_gone good victim own) (SetOwnerGuid w good True) chan_inv not_null"
      by (intro triple_SetOwnerGuid) (auto simp: kick_gone_def gone_def dest: chan_wfD(3))
    with False show ?thesis by (simp add: kick_new_owner_def)
  next
    case True
    have "triple (\<lambda>ch. kick_gone good victim own ch \<and> playersStore ch \<noteq> [])
       (load (\<lambda>ch. last (scan_owner w (playersStore ch)))
         (\<lambda>p. acts [scan_derefs w, SetOwnerGuid w (pi_player p) True])) chan_inv not_null"
      by (rule triple_load, rule triple_pre [OF scan]) (simp add: kick_gone_def gone_def)
    moreover have "triple (\<lambda>ch. kick_gone good victim own ch \<and> \<not> playersStore ch \<noteq> [])
       (SetOwnerGuid w 0 True) chan_inv not_null"
      by (rule triple_SetOwnerGuid) (simp add: kick_gone_def gone_def)
    ultimately show ?thesis
      using True by (simp add: kick_new_owner_def triple_cond)
  qed
qed

lemma kick_execute_inv:
  "triple (\<lambda>ch. chan_inv ch \<and> IsOn ch good \<and> (isOn \<longrightarrow> IsOn ch victim))
     (kick_execute w good ban victim isOn) chan_inv not_null"
proof -
  have all: "triple (kick_ready good victim isOn own) (SendToAll w mk g) (kick_ready good victim isOn own) not_null"
    for own mk g by (rule triple_SendToAll) (simp add: kick_ready_def chan_inv_ok)
  have ban: "triple (kick_ready good victim isOn own)
      (upd (\<lambda>ch. ch\<lparr>bannedStore := um_assign (w_insertPos w) victim (ban_until w) (bannedStore ch)\<rparr>))
      (kick_ready good victim isOn own) not_null" for own
  proof (rule triple_upd)
    fix ch assume r: "kick_ready good victim isOn own ch"
    then have "um_valid (bannedStore ch)" by (simp add: kick_ready_def chan_inv_def chan_wf_def)
    then have "um_valid (um_assign (w_insertPos w) victim (ban_until w) (bannedStore ch))"
      by (rule um.valid_assign)
    with r show "kick_ready good victim isOn own
        (ch\<lparr>bannedStore := um_assign (w_insertPos w) victim (ban_until w) (bannedStore ch)\<rparr>)"
      by (simp add: kick_ready_def ban_store_inv)
  qed
  have notice: "triple (kick_ready good victim isOn own)
     (if ban then unless (\<lambda>ch. IsBanned w ch victim) (acts
        [upd (\<lambda>ch. ch\<lparr>bannedStore := um_assign (w_insertPos w) victim (ban_until w) (bannedStore ch)\<rparr>),
         AddChannelBanToDB victim (ban_until w),
         if \<not> silent_gm w good then SendToAll w (MakePlayerBanned victim good) 0 else skip])
      else if \<not> silent_gm w good then SendToAll w (MakePlayerKicked victim good) 0 else skip)
     (kick_ready good victim isOn own) not_null" for own
  proof -
    have "triple (kick_ready good victim isOn own) (acts
        [upd (\<lambda>ch. ch\<lparr>bannedStore := um_assign (w_insertPos w) victim (ban_until w) (bannedStore ch)\<rparr>),
         AddChannelBanToDB victim (ban_until w),
         if \<not> silent_gm w good then SendToAll w (MakePlayerBanned victim good) 0 else skip])
       (kick_ready good victim isOn own) not_null"
      by (rule triple_acts_Cons [OF ban triple_acts_Cons [OF triple_sender(7) triple_acts_Cons [OF _ triple_acts_Nil]]])
        (simp add: all triple_skip)
    then show ?thesis
      by (cases ban) (auto intro!: triple_cond all triple_skip
          intro: triple_pre tripleC simp: act_eval)
  qed
  have erase: "triple (kick_ready good victim isOn own)
     (if isOn then acts
          [upd (\<lambda>ch. ch\<lparr>playersStore := um_erase victim (playersStore ch)\<rparr>),
           emit (\<lambda>_. [LeftChannel victim]),
           RemoveWatching victim,
           LeaveNotify w victim]
      else skip) (kick_gone good victim own) not_null" for own
  proof (rule tripleC)
    fix ch assume r: "kick_ready good victim isOn own ch"
    then have inv: "chan_inv ch" and own: "owned ch \<Longrightarrow> own = (victim = ch_ownerGUID ch)"
      by (auto simp: kick_ready_def)
    show "kick_gone good victim own (fst ((if isOn then acts
          [upd (\<lambda>ch. ch\<lparr>playersStore := um_erase victim (playersStore ch)\<rparr>),
           emit (\<lambda>_. [LeftChannel victim]), RemoveWatching victim, LeaveNotify w victim] else skip) ch)) \<and>
      clean (snd ((if isOn then acts
          [upd (\<lambda>ch. ch\<lparr>playersStore := um_erase victim (playersStore ch)\<rparr>),
           emit (\<lambda>_. [LeftChannel victim]), RemoveWatching victim, LeaveNotify w victim] else skip) ch))"
    proof (cases isOn)
      case False
      with r inv show ?thesis by (simp add: act_eval kick_gone_def gone_def kick_ready_def chan_inv_wf)
    next
      case True
      with r have on: "IsOn ch victim" by (simp add: kick_ready_def)
      note e = remove_entry [OF inv on own]
      have "IsOn (fst (RemoveWatching victim (drop_member victim ch))) good" if "good \<noteq> victim"
        using that r chan_wfD(2) [OF chan_inv_wf [OF inv]]
          members_ext [of "fst (RemoveWatching victim (drop_member victim ch))" "drop_member victim ch"]
        by (simp add: RemoveWatching_def act_eval kick_ready_def)
      with e True show ?thesis
        by (simp add: act_eval kick_gone_def drop_member_def [symmetric])
    qed
  qed
  have final: "triple (kick_gone good victim own)
     (whenever (\<lambda>ch. own \<and> ch_ownership ch) (kick_new_owner w good victim)) chan_inv not_null" for own
  proof (rule triple_cond)
    show "triple (\<lambda>ch. kick_gone good victim own ch \<and> own \<and> ch_ownership ch)
       (kick_new_owner w good victim) chan_inv not_null"
      by (rule triple_pre [OF kick_new_owner_inv]) blast
    show "triple (\<lambda>ch. kick_gone good victim own ch \<and> \<not> (own \<and> ch_ownership ch)) skip chan_inv not_null"
      by (rule tripleC) (auto simp: act_eval kick_gone_def gone_def chan_inv_def owned_def)
  qed
  show ?thesis
    unfolding kick_execute_def
  proof (rule triple_load)
    fix own
    show "triple (\<lambda>ch. (chan_inv ch \<and> IsOn ch good \<and> (isOn \<longrightarrow> IsOn ch victim)) \<and> (ch_ownerGUID ch = victim) = own)
      (acts [(if ban then unless (\<lambda>ch. IsBanned w ch victim) (acts
        [upd (\<lambda>ch. ch\<lparr>bannedStore := um_assign (w_insertPos w) victim (ban_until w) (bannedStore ch)\<rparr>),
         AddChannelBanToDB victim (ban_until w),
         if \<not> silent_gm w good then SendToAll w (MakePlayerBanned victim good) 0 else skip])
      else if \<not> silent_gm w good then SendToAll w (MakePlayerKicked victim good) 0 else skip),
       (if isOn then acts
          [upd (\<lambda>ch. ch\<lparr>playersStore := um_erase victim (playersStore ch)\<rparr>),
           emit (\<lambda>_. [LeftChannel victim]), RemoveWatching victim, LeaveNotify w victim] else skip),
       whenever (\<lambda>ch. own \<and> ch_ownership ch) (kick_new_owner w good victim)]) chan_inv not_null"
      by (rule triple_pre [OF triple_acts_Cons [OF notice triple_acts_Cons [OF erase
            triple_acts_Cons [OF final triple_acts_Nil]]]]) (auto simp: kick_ready_def)
  qed
qed

lemma KickOrBan_inv: "triple chan_inv (KickOrBan w good n ban) chan_inv not_null"
proof -
  have resolved: "(isOn \<longrightarrow> IsOn ch v)"
    if "kick_resolve w good n ban ch = Target v a s isOn" for ch v a s isOn
    using that by (auto simp: kick_resolve_def Let_def split: if_splits option.splits)
  have run: "triple (\<lambda>ch. chan_inv ch \<and> IsOn ch good \<and> (isOn \<longrightarrow> IsOn ch v))
     (load (kick_refusal w good ban v a s) (\<lambda>r. case r of Some mk \<Rightarrow> SendToOne w mk good
        | None \<Rightarrow> kick_execute w good ban v isOn)) chan_inv not_null" for v a s isOn
    apply (rule triple_load)
    subgoal for r
      apply (cases r; simp only: option.case)
       apply (rule triple_pre [OF kick_execute_inv], blast)
      apply (rule triple_pre [OF triple_sender(1)], blast)
      done
    done
  show ?thesis
    unfolding KickOrBan_def
    apply (rule triple_cond, rule tripleC, simp)
    apply (rule triple_cond, rule tripleC, simp)
    apply (rule triple_load)
    subgoal for t
      apply (cases t; simp only: kick_target.case)
        apply (rule triple_pre [OF run], use resolved in blast)
       apply (rule tripleC, simp add: act_eval)
      apply (rule tripleC, simp)
      done
    done
qed

lemma bans_valid: "chan_inv ch \<Longrightarrow> um_valid (bannedStore ch)"
  by (simp add: chan_inv_def chan_wf_def)

lemma AddBan_inv: "triple chan_inv (AddBan w g t) chan_inv not_null"
  unfolding AddBan_def
  by (rule triple_upd, rule ban_store_inv) (simp, rule um.valid_assign, rule bans_valid)

lemma erase_ban_inv: "triple chan_inv (erase_ban g) chan_inv not_null"
  unfolding erase_ban_def
  by (rule triple_upd, rule ban_store_inv) (simp, rule um.valid_erase, rule bans_valid)

lemma UnBan_inv: "triple chan_inv (UnBan w g n) chan_inv not_null"
  unfolding UnBan_def Let_def
  apply (rule triple_cond, rule tripleC, simp)
  apply (rule triple_cond, rule tripleC, simp)
  apply (rule triple_cond, rule tripleC, simp)
  apply (rule triple_cond, rule tripleC, simp)
  apply (rule triple_pre [OF triple_acts_inv [where I = chan_inv]])
   apply (auto intro: leaf erase_ban_inv triple_emit)
  done

lemma UnBanGuid_inv: "triple chan_inv (UnBanGuid w g) chan_inv not_null"
  unfolding UnBanGuid_def
  apply (rule triple_cond)
   apply (rule triple_pre [OF triple_acts_inv [where I = chan_inv]])
    apply (auto intro: leaf erase_ban_inv)
  apply (rule triple_pre [OF triple_skip], blast)
  done

subsection \<open>Settings\<close>

text \<open>A change of the channel that leaves members, bans, watchers, owner and rights alone.\<close>

lemma chan_inv_frame:
  assumes "chan_inv ch" and "playersStore ch' = playersStore ch" and "bannedStore ch' = bannedStore ch"
    and "playersWatchingStore ch' = playersWatchingStore ch" and "ch_ownerGUID ch' = ch_ownerGUID ch"
    and "ch_ownership ch' = ch_ownership ch" and "ch_channelId ch' = ch_channelId ch"
  shows "chan_inv ch'"
  using assms members_ext [OF assms(2)]
  by (simp add: chan_inv_def chan_wf_def owner_ok_def owned_def IsConstant_def entries_ok_def)

lemma triple_upd_frame:
  assumes "\<And>ch. playersStore (f ch) = playersStore ch \<and> bannedStore (f ch) = bannedStore ch \<and>
     playersWatchingStore (f ch) = playersWatchingStore ch \<and> ch_ownerGUID (f ch) = ch_ownerGUID ch \<and>
     ch_ownership (f ch) = ch_ownership ch \<and> ch_channelId (f ch) = ch_channelId ch"
  shows "triple chan_inv (upd f) chan_inv not_null"
  by (rule triple_upd) (use assms chan_inv_frame in blast)

lemma Password_inv: "triple chan_inv (Password w g pass) chan_inv not_null"
  unfolding Password_def
  apply (rule triple_cond, rule tripleC, simp)
  apply (rule triple_cond, rule tripleC, simp)
  apply (rule triple_cond, rule tripleC, simp)
  apply (rule triple_pre [OF triple_acts_inv [where I = chan_inv]])
   apply (auto intro: leaf triple_upd_frame)
  done

lemma Announce_inv: "triple chan_inv (Announce w g) chan_inv not_null"
  unfolding Announce_def
  apply (rule triple_cond, rule tripleC, simp)
  apply (rule triple_cond, rule tripleC, simp)
  apply (rule triple_cond, rule tripleC, simp)
  apply (rule triple_pre [OF triple_acts_inv [where I = chan_inv]])
   apply (auto intro: leaf triple_upd_frame)
  done

lemma ToggleModeration_inv: "triple chan_inv (ToggleModeration w g) chan_inv not_null"
  unfolding ToggleModeration_def Let_def
  apply (rule triple_cond, rule tripleC, simp)
  apply (rule triple_cond, rule tripleC, simp)
  apply (rule triple_pre [OF triple_acts_inv [where I = chan_inv]])
   apply (auto intro: leaf triple_upd_frame)
  done

lemma SetModerator_inv:
  "triple (\<lambda>ch. chan_inv ch \<and> IsOn ch g \<and> (st \<or> \<not> owned ch \<or> g \<noteq> ch_ownerGUID ch))
     (SetModerator w g st) chan_inv not_null"
proof (rule tripleC)
  fix ch assume a: "chan_inv ch \<and> IsOn ch g \<and> (st \<or> \<not> owned ch \<or> g \<noteq> ch_ownerGUID ch)"
  then have inv: "chan_inv ch" and on: "IsOn ch g" by simp_all
  let ?c = "put_member w g (pi_SetModerator st (slot ch g)) ch"
  have c: "chan_inv ?c"
    using a by (intro chan_inv_modify [where f = "pi_SetModerator st"]) auto
  have ptr: "pi_plrPtr (slot ch g) = Some g" using chan_inv_wf [OF inv] on by (rule chan_wfD)
  show "chan_inv (fst (SetModerator w g st ch)) \<and> clean (snd (SetModerator w g st ch))"
    using inv on c chan_inv_ok [OF c] ptr
    by (simp add: SetModerator_def act_eval slot_ref_eval set_slot_eval chan_inv_ok)
qed

lemma SetMute_inv: "triple (\<lambda>ch. chan_inv ch \<and> IsOn ch g) (SetMute w g st) chan_inv not_null"
proof (rule tripleC)
  fix ch assume a: "chan_inv ch \<and> IsOn ch g"
  let ?c = "put_member w g (pi_SetMuted st (slot ch g)) ch"
  have c: "chan_inv ?c"
    using a by (intro chan_inv_modify [where f = "pi_SetMuted st"]) auto
  show "chan_inv (fst (SetMute w g st ch)) \<and> clean (snd (SetMute w g st ch))"
    using a c chan_inv_ok [OF c]
    by (simp add: SetMute_def act_eval slot_ref_eval set_slot_eval)
qed

text \<open>\<open>SetMode\<close> can only reach \<open>SetModerator\<close> for the owner when the owner names himself, and
  then the name guard has returned before: the player found under a name bears that name.\<close>

lemma SetMode_inv:
  assumes w: "world_ok w" "w_normalizePlayerName w n = Some n"
  shows "triple chan_inv (SetMode w g n md st) chan_inv not_null"
proof -
  let ?v = "case w_FindPlayerByName w n of Some v \<Rightarrow> v | None \<Rightarrow> 0"
  let ?P = "\<lambda>ch. chan_inv ch \<and> IsOn ch ?v \<and> (md \<longrightarrow> ?v \<noteq> ch_ownerGUID ch)"
  have reach: "?P ch" if "chan_inv ch" and "\<not> (g = ch_ownerGUID ch \<and> n = pl_name (w_player w g) \<and> md)"
    and "\<not> mode_not_found w g (w_FindPlayerByName w n) ch"
    and "\<not> (ch_ownerGUID ch = ?v \<and> ch_ownerGUID ch \<noteq> g)" for ch
    using that w by (cases "w_FindPlayerByName w n") (auto simp: mode_not_found_def world_ok_def)
  show ?thesis
    unfolding SetMode_def Let_def
    apply (rule triple_cond, rule tripleC, simp)
    apply (rule triple_cond, rule tripleC, simp)
    apply (rule triple_cond, rule tripleC, simp add: act_eval)
    apply (rule triple_cond, rule tripleC, simp)
    apply (rule triple_cond, rule tripleC, simp)
    apply (rule triple_pre [where P' = ?P])
     apply (cases md; simp only: if_True if_False)
      apply (rule triple_cond)
       apply (rule tripleC, simp add: act_eval)
      apply (rule triple_pre [OF SetModerator_inv], simp)
     apply (rule triple_cond)
      apply (rule tripleC, simp)
     apply (rule triple_pre [OF SetMute_inv], simp)
    by (rule reach; elim conjE; assumption)
qed

lemma SetOwner_inv: "triple chan_inv (SetOwner w g n) chan_inv not_null"
  unfolding SetOwner_def Let_def
  apply (rule triple_cond, rule tripleC, simp)
  apply (rule triple_cond, rule tripleC, simp)
  apply (rule triple_cond, rule tripleC, simp)
  apply (rule triple_SetOwnerGuid)
  apply (simp add: chan_inv_wf)
  done

subsection \<open>The rest\<close>

lemma SendWhoOwner_inv: "triple chan_inv (SendWhoOwner w g) chan_inv not_null"
  by (rule tripleC) (simp add: SendWhoOwner_def act_eval)

lemma ListMembers_inv: "triple chan_inv (ListMembers w g) chan_inv not_null"
proof (rule tripleC)
  fix ch assume "chan_inv ch"
  then have "entries_ok ch" by (rule chan_inv_ok)
  then have "pi_plrPtr (snd e) \<noteq> None" if "e \<in> set (playersStore ch)" for e
    using that by (cases e) (auto dest: entries_ok_ptr)
  then have "clean (concat (map (\<lambda>e. if pi_plrPtr (snd e) = None then [NullDeref] else []) (playersStore ch)))"
    by (fastforce simp: clean_def)
  then show "chan_inv (fst (ListMembers w g ch)) \<and> clean (snd (ListMembers w g ch))"
    using \<open>chan_inv ch\<close> by (simp add: ListMembers_def act_eval)
qed

lemma Say_inv: "triple chan_inv (Say w g what lang) chan_inv not_null"
  by (rule tripleC) (simp add: Say_def Let_def act_eval chan_inv_ok)

lemma Invite_inv: "triple chan_inv (Invite w g n) chan_inv not_null"
  by (rule tripleC) (simp add: Invite_def act_eval split: option.split)

lemma watching_inv:
  assumes inv: "chan_inv ch" and ws: "distinct ws" "\<And>k. k \<in> set ws \<Longrightarrow> IsOn ch k"
  shows "chan_inv (ch\<lparr>playersWatchingStore := ws\<rparr>)"
proof -
  let ?c = "ch\<lparr>playersWatchingStore := ws\<rparr>"
  have m: "IsOn ?c = IsOn ch" "slot ?c = slot ch" using members_ext [of ?c ch] by simp_all
  have "chan_wf ?c"
    using chan_inv_wf [OF inv] ws entries_ok_frame [of ?c ch] by (simp add: chan_wf_def m)
  moreover have "owned ?c = owned ch" "owner_ok ?c = owner_ok ch"
    by (simp_all add: owned_def IsConstant_def owner_ok_def m)
  ultimately show ?thesis using inv by (simp add: chan_inv_def)
qed

lemma watchers_members:
  "chan_inv ch \<Longrightarrow> distinct (playersWatchingStore ch)"
  "chan_inv ch \<Longrightarrow> k \<in> set (playersWatchingStore ch) \<Longrightarrow> IsOn ch k"
  by (simp_all add: chan_inv_def chan_wf_def)

lemma AddWatching_inv: "triple chan_inv (AddWatching w g) chan_inv not_null"
  unfolding AddWatching_def
proof (rule triple_cond)
  show "triple (\<lambda>ch. chan_inv ch \<and> \<not> IsOn ch g) skip chan_inv not_null"
    by (rule triple_pre [OF triple_skip]) blast
  show "triple (\<lambda>ch. chan_inv ch \<and> \<not> \<not> IsOn ch g)
     (upd (\<lambda>ch. ch\<lparr>playersWatchingStore := us_insert (w_insertPos w) g (playersWatchingStore ch)\<rparr>))
     chan_inv not_null"
    by (rule triple_upd, rule watching_inv)
      (auto intro: distinct_us_insert dest: watchers_members)
qed

lemma RemoveWatching_inv: "triple chan_inv (RemoveWatching g) chan_inv not_null"
  unfolding RemoveWatching_def
  by (rule triple_upd, rule watching_inv)
    (auto dest: watchers_members notin_set_remove1 simp: set_remove1_eq [OF watchers_members(1)])


section \<open>The channel as a component\<close>

definition SetPassword :: "string \<Rightarrow> chan_act" where
  "SetPassword npassword = upd (\<lambda>ch. ch\<lparr>ch_password := npassword\<rparr>)"

text \<open>The public operations, each with the player who asks for it. \<open>Voice\<close> and \<open>DeVoice\<close>
  have empty bodies.\<close>

datatype chan_op =
    OpJoin guid string | OpLeave guid bool | OpKickOrBan guid string bool | OpAddBan guid u32
  | OpUnBan guid string | OpUnBanGuid guid | OpPassword guid string | OpSetPassword string
  | OpSetMode guid string bool bool | OpSetOwner guid string | OpSendWhoOwner guid
  | OpList guid | OpAnnounce guid | OpSay guid string u32 | OpInvite guid string
  | OpVoice guid guid | OpDeVoice guid guid
  | OpToggleModeration guid | OpAddWatching guid | OpRemoveWatching guid

fun run_op :: "world \<Rightarrow> chan_op \<Rightarrow> chan_act" where
  "run_op w (OpJoin g pass) = JoinChannel w g pass"
| "run_op w (OpLeave g send) = LeaveChannel w g send"
| "run_op w (OpKickOrBan g n ban) = KickOrBan w g n ban"
| "run_op w (OpAddBan g t) = AddBan w g t"
| "run_op w (OpUnBan g n) = UnBan w g n"
| "run_op w (OpUnBanGuid g) = UnBanGuid w g"
| "run_op w (OpPassword g pass) = Password w g pass"
| "run_op w (OpSetPassword pass) = SetPassword pass"
| "run_op w (OpSetMode g n md st) = SetMode w g n md st"
| "run_op w (OpSetOwner g n) = SetOwner w g n"
| "run_op w (OpSendWhoOwner g) = SendWhoOwner w g"
| "run_op w (OpList g) = ListMembers w g"
| "run_op w (OpAnnounce g) = Announce w g"
| "run_op w (OpSay g what lang) = Say w g what lang"
| "run_op w (OpInvite g n) = Invite w g n"
| "run_op w (OpVoice g1 g2) = skip"
| "run_op w (OpDeVoice g1 g2) = skip"
| "run_op w (OpToggleModeration g) = ToggleModeration w g"
| "run_op w (OpAddWatching g) = AddWatching w g"
| "run_op w (OpRemoveWatching g) = RemoveWatching g"

text \<open>A player who joins is a player object, and its identifier is not 0; the handlers
  normalise the name they pass to \<open>SetMode\<close>.\<close>

fun op_ok :: "world \<Rightarrow> chan_op \<Rightarrow> bool" where
  "op_ok w (OpJoin g pass) = (g \<noteq> 0)"
| "op_ok w (OpSetMode g n md st) = (w_normalizePlayerName w n = Some n)"
| "op_ok w _ = True"

lemma run_op_inv:
  assumes "world_ok w" and "op_ok w op"
  shows "triple chan_inv (run_op w op) chan_inv not_null"
  using assms
  by (cases op) (simp_all add: JoinChannel_inv LeaveChannel_inv KickOrBan_inv AddBan_inv UnBan_inv
      UnBanGuid_inv Password_inv SetPassword_def triple_upd_frame SetMode_inv SetOwner_inv
      SendWhoOwner_inv ListMembers_inv Announce_inv Say_inv Invite_inv ToggleModeration_inv
      AddWatching_inv RemoveWatching_inv triple_skip)

text \<open>A step is an operation, in whatever state the rest of the server is at that moment, or
  a rehash, which reorders the entries of an \<open>unordered_map\<close>.\<close>

inductive chan_step :: "Channel \<Rightarrow> Channel \<Rightarrow> bool" where
  chan_step_op: "world_ok w \<Longrightarrow> op_ok w op \<Longrightarrow> chan_step ch (fst (run_op w op ch))"
| chan_step_rehash: "mset m = mset (playersStore ch) \<Longrightarrow> chan_step ch (ch\<lparr>playersStore := m\<rparr>)"

definition chan_init :: "Channel \<Rightarrow> bool" where
  "chan_init ch \<longleftrightarrow> playersStore ch = [] \<and> bannedStore ch = [] \<and> playersWatchingStore ch = [] \<and>
     ch_ownerGUID ch = 0"

lemma rehash_members:
  assumes "valid_store ch" and m: "mset m = mset (playersStore ch)"
  shows "valid_store (ch\<lparr>playersStore := m\<rparr>) \<and> IsOn (ch\<lparr>playersStore := m\<rparr>) = IsOn ch \<and>
     slot (ch\<lparr>playersStore := m\<rparr>) = slot ch"
proof -
  have "mset (keys m) = mset (keys (playersStore ch))" using m by simp
  moreover have "distinct (keys (playersStore ch))"
    using assms(1) by (simp add: valid_store_def um_valid_def)
  ultimately have d: "distinct (keys m)" by (metis mset_eq_imp_distinct_iff)
  have "set m = set (playersStore ch)" using m by (rule mset_eq_setD)
  with d assms(1) have "map_of m = map_of (playersStore ch)"
    by (simp add: map_of_inject_set valid_store_def um_valid_def)
  with d show ?thesis
    by (simp add: valid_store_def um_valid_def IsOn_def slot_def has_key_def fun_eq_iff)
qed

lemma chan_step_inv:
  assumes inv: "chan_inv ch" and step: "chan_step ch ch'"
  shows "chan_inv ch'"
  using step inv
proof cases
  case (chan_step_op w op)
  then show ?thesis using tripleD [OF run_op_inv inv] by simp
next
  case (chan_step_rehash m)
  have v: "valid_store ch" using inv by (simp add: chan_inv_ok)
  have "m = [] \<longleftrightarrow> playersStore ch = []" using chan_step_rehash(2) by (metis mset_zero_iff)
  with rehash_members [OF v chan_step_rehash(2)] inv show ?thesis
    by (simp add: chan_step_rehash(1) chan_inv_def chan_wf_def entries_ok_def owner_ok_def owned_def
        IsConstant_def)
qed

lemma chan_init_inv: "chan_init ch \<Longrightarrow> chan_inv ch"
  by (simp add: chan_init_def chan_inv_def chan_wf_def entries_ok_def valid_store_def um_valid_def
      owner_ok_def IsOn_def has_key_def)

interpretation chan: component chan_init chan_step chan_inv
  by unfold_locales (rule chan_init_inv, assumption, rule chan_step_inv)

inductive_cases chan_stepE: "chan_step ch ch'"

end
