(* ===== verification/ChannelProps.thy ===== *)
theory ChannelProps
  imports ChannelPreserve
begin

text \<open>
  What the chat channels of \<open>src/src/server/game/Chat/Channels/Channel.cpp\<close> guarantee:
  ownership in every reachable channel, no null pointers, who may do what, the exact effect
  of joining, of the owner leaving, of kicks and bans, and who hears a line. \<open>demo_world\<close>
  and \<open>demo_joined\<close> are a concrete server and a channel reached on it, at which the
  properties with hypotheses are applied.
\<close>


section \<open>A concrete server\<close>

definition demo_player :: "guid \<Rightarrow> Player" where
  "demo_player g = \<lparr>pl_name = (if g = 1 then ''Ann'' else if g = 2 then ''Bob'' else ''Cid''),
     pl_security = (if g = 3 then SEC_MODERATOR else 0), pl_accountId = ucast g, pl_teamId = TEAM_ALLIANCE, pl_race = 1,
     pl_hasGroup = False, pl_gmVisible = True, pl_ignores = []\<rparr>"

definition demo_find :: "string \<Rightarrow> guid option" where
  "demo_find n = (if n = ''Ann'' then Some 1 else if n = ''Bob'' then Some 2
     else if n = ''Cid'' then Some 3 else None)"

definition demo_world :: world where
  "demo_world = \<lparr>w_player = demo_player, w_FindPlayer = (\<lambda>_. True), w_FindConnectedPlayer = (\<lambda>_. True),
     w_normalizePlayerName = Some, w_FindPlayerByName = demo_find, w_GetCharacterGuidByName = (\<lambda>n. case demo_find n of Some g \<Rightarrow> g | None \<Rightarrow> 0),
     w_GetCharacterCacheByGuid = (\<lambda>_. None), w_GetCharacterNameByGuid = (\<lambda>g. Some (pl_name (demo_player g))),
     w_TeamIdForRace = (\<lambda>_. TEAM_ALLIANCE), w_GameTime = 1600000000, w_insertPos = 0,
     cfg_RestrictedLfg = True, cfg_SilentlyGMJoin = True, cfg_AllowTwoSideChannel = False,
     cfg_ModerationGMLevel = 0\<rparr>"

definition demo_channel :: Channel where
  "demo_channel = fst (fst (Channel_ctor (\<lambda>_. None) (\<lambda>_. channelRightsEmpty) False False ''World'' 0 0
     TEAM_ALLIANCE True True 0))"

text \<open>Ann opens the channel, Bob and the game master Cid join.\<close>

definition demo_run :: "chan_op list \<Rightarrow> Channel" where
  "demo_run ops = foldl (\<lambda>ch op. fst (run_op demo_world op ch)) demo_channel ops"

definition demo_joined :: Channel where
  "demo_joined = demo_run [OpJoin 1 [], OpJoin 2 [], OpJoin 3 []]"

lemma demo_world_ok: "world_ok demo_world"
  by (simp add: world_ok_def demo_world_def demo_find_def demo_player_def)

lemma demo_init: "chan_init demo_channel"
  by (simp add: demo_channel_def Channel_ctor_def chan_init_def Let_def channelRightsEmpty_def)

lemma demo_run_reach: "list_all (op_ok demo_world) ops \<Longrightarrow> chan_step\<^sup>*\<^sup>* demo_channel (demo_run ops)"
proof (induction ops rule: rev_induct)
  case (snoc op ops)
  then have run: "chan_step\<^sup>*\<^sup>* demo_channel (demo_run ops)" and ok: "op_ok demo_world op" by simp_all
  have "chan_step (demo_run ops) (demo_run (ops @ [op]))"
    using chan_step_op [OF demo_world_ok ok] by (simp add: demo_run_def)
  with run show ?case by (rule rtranclp.rtrancl_into_rtrancl)
qed (simp add: demo_run_def)

lemma demo_joined_reach: "chan_step\<^sup>*\<^sup>* demo_channel demo_joined"
  unfolding demo_joined_def by (rule demo_run_reach) simp

lemma demo_joined_inv: "chan_inv demo_joined"
  using chan.reachable_inv [OF demo_init demo_joined_reach] .


section \<open>Ownership and pointers\<close>

text \<open>C1: the constructor yields an empty channel, and from it, whatever operations run in
  whatever order, a custom channel that hands out ownership is empty or has exactly one
  member flagged as owner: the recorded one, who is a moderator.\<close>

theorem channel_owner_unique:
  assumes "ch0 = fst (fst (Channel_ctor dbc rights preserve m name cid dbid team ann own idMax))"
    and "chan_step\<^sup>*\<^sup>* ch0 ch" and "ch_ownership ch" and "\<not> IsConstant ch" and "playersStore ch \<noteq> []"
  shows "(\<exists>!k. IsOn ch k \<and> IsOwner (slot ch k)) \<and>
     IsOn ch (ch_ownerGUID ch) \<and> IsModerator (slot ch (ch_ownerGUID ch))"
proof -
  have "chan_init ch0"
    by (simp add: assms(1) Channel_ctor_def chan_init_def Let_def split: option.split)
  then have inv: "chan_inv ch" using assms(2) by (rule chan.reachable_inv)
  have own: "owned ch" using assms by (simp add: owned_def)
  with inv assms(5) have on: "IsOn ch (ch_ownerGUID ch) \<and> IsModerator (slot ch (ch_ownerGUID ch))"
    by (simp add: chan_inv_def owner_ok_def)
  with owner_flag_iff [OF inv own] show ?thesis by blast
qed

theorem channel_owner_unique_witness:
  "(\<exists>!k. IsOn demo_joined k \<and> IsOwner (slot demo_joined k)) \<and>
   IsOn demo_joined (ch_ownerGUID demo_joined) \<and> IsModerator (slot demo_joined (ch_ownerGUID demo_joined))"
proof -
  have "ch_ownership demo_joined" "\<not> IsConstant demo_joined" "playersStore demo_joined \<noteq> []"
    by code_simp+
  from channel_owner_unique [OF demo_channel_def demo_joined_reach this] show ?thesis by blast
qed

text \<open>No operation on a reachable channel follows a null player pointer.\<close>

theorem channel_no_null:
  assumes "chan_init ch0" and "chan_step\<^sup>*\<^sup>* ch0 ch" and "world_ok w" and "op_ok w op"
  shows "NullDeref \<notin> set (snd (run_op w op ch))"
  using tripleD [OF run_op_inv [OF assms(3,4)] chan.reachable_inv [OF assms(1,2)]]
  by (simp add: clean_def)

theorem channel_no_null_witness: "NullDeref \<notin> set (snd (run_op demo_world (OpSay 1 ''hi'' 7) demo_joined))"
  by (rule channel_no_null [OF demo_init demo_joined_reach demo_world_ok]) simp

section \<open>Rights\<close>

text \<open>The player a moderation request comes from.\<close>

definition op_of_player :: "guid \<Rightarrow> chan_op \<Rightarrow> bool" where
  "op_of_player g op = (case op of
     OpKickOrBan p n b \<Rightarrow> p = g | OpUnBan p n \<Rightarrow> p = g | OpPassword p s \<Rightarrow> p = g
   | OpSetMode p n md st \<Rightarrow> p = g | OpAnnounce p \<Rightarrow> p = g | _ \<Rightarrow> False)"

text \<open>C15: a player who is not a moderator of the channel (or not on it at all) and no game
  master changes nothing by kicking, banning, lifting a ban, setting the password, changing
  modes or switching the announcements: the channel stays as it is, and at most one reply
  is sent, to the player himself.\<close>

theorem ordinary_member_powerless:
  assumes "op_of_player g op" and "\<not> (IsOn ch g \<and> IsModerator (slot ch g))" and "\<not> IsGMAccount (sec w g)"
  shows "fst (run_op w op ch) = ch \<and> (\<exists>p. set (snd (run_op w op ch)) \<subseteq> {SendPacket g p})"
  using assms
  by (cases op) (auto simp: op_of_player_def act_eval KickOrBan_def UnBan_def Password_def SetMode_def
      Announce_def SendToOne_def Let_def)

theorem ordinary_member_powerless_witness:
  "fst (run_op demo_world (OpKickOrBan 2 ''Ann'' True) demo_joined) = demo_joined"
proof -
  have "\<not> (IsOn demo_joined 2 \<and> IsModerator (slot demo_joined 2))" "\<not> IsGMAccount (sec demo_world 2)"
    by code_simp+
  from ordinary_member_powerless [OF _ this, of "OpKickOrBan 2 ''Ann'' True"] show ?thesis
    by (simp add: op_of_player_def)
qed

text \<open>C3: a moderator of the channel who is neither game master nor moderator by account can
  neither kick nor ban the owner, and nobody but the owner, game masters included, can
  change the owner's modes.\<close>

theorem owner_protected:
  assumes v: "w_FindPlayerByName w n = Some (ch_ownerGUID ch)" and g: "g \<noteq> ch_ownerGUID ch"
    and on: "IsOn ch (ch_ownerGUID ch)" "ch_ownerGUID ch \<noteq> 0"
  shows "fst (SetMode w g n md st ch) = ch \<and>
     (\<not> IsGMAccount (sec w g) \<and> \<not> is_moderator_account w (pl_accountId (w_player w g)) ch \<longrightarrow>
        fst (KickOrBan w g n ban ch) = ch)"
  using assms
  by (auto simp: KickOrBan_def SetMode_def kick_resolve_def kick_refusal_def act_eval Let_def)

theorem owner_protected_witness:
  "fst (SetMode demo_world 3 ''Ann'' True False demo_joined) = demo_joined"
proof -
  have "w_FindPlayerByName demo_world ''Ann'' = Some (ch_ownerGUID demo_joined)" "3 \<noteq> ch_ownerGUID demo_joined"
    "IsOn demo_joined (ch_ownerGUID demo_joined)" "ch_ownerGUID demo_joined \<noteq> 0"
    by code_simp+
  then show ?thesis using owner_protected [of demo_world "''Ann''" demo_joined 3] by blast
qed

section \<open>Joining, leaving, kicking, banning\<close>

definition members_are :: "(guid \<Rightarrow> bool) \<Rightarrow> Channel \<Rightarrow> bool" where
  "members_are D ch \<longleftrightarrow> valid_store ch \<and> IsOn ch = D"

abbreviation keeps :: "(guid \<Rightarrow> bool) \<Rightarrow> chan_act \<Rightarrow> bool" where
  "keeps D x \<equiv> triple (members_are D) x (members_are D) (\<lambda>_. True)"

lemma keeps_id: "(\<And>ch. fst (x ch) = ch) \<Longrightarrow> keeps D x"
  by (simp add: triple_def list_all_iff)

lemma keeps_upd:
  assumes "\<And>ch. playersStore (f ch) = playersStore ch"
  shows "keeps D (upd f)"
proof (rule triple_upd)
  show "members_are D (f ch)" if "members_are D ch" for ch
    using that members_ext [OF assms [of ch]] by (simp add: members_are_def)
qed

lemma keeps_leaf:
  "keeps D skip" "keeps D (SendToAll w mk h)" "keeps D (SendToOne w mk h)" "keeps D (emit e)"
  "keeps D (FlagsNotify w q)" "keeps D (JoinNotify w h)" "keeps D UpdateChannelUseageInDB"
  by (rule keeps_id, simp add: act_eval)+

lemma keeps_put: "D g \<Longrightarrow> members_are D ch \<Longrightarrow> members_are D (put_member w g p ch)"
  by (auto simp: members_are_def fun_eq_iff)

lemma keeps_set_slot: "D g \<Longrightarrow> keeps D (set_slot w g f)"
  by (simp add: triple_def set_slot_eval keeps_put)

lemma keeps_slot_ref: "D g \<Longrightarrow> keeps D (slot_ref w g)"
  by (auto simp: triple_def slot_ref_eval members_are_def)

lemma keeps_on_cond: "keeps D x \<Longrightarrow> keeps D y \<Longrightarrow> keeps D (cond b x y)"
  by (simp add: triple_def act_eval)

lemma keeps_on_load: "(\<And>v. keeps D (k v)) \<Longrightarrow> keeps D (load r k)"
  by (simp add: triple_def act_eval)

lemma keeps_SetOwnerGuid:
  assumes g: "g = 0 \<or> D g"
  shows "keeps D (SetOwnerGuid w g ex)"
proof -
  have drop: "keeps D (drop_owner w)"
    unfolding drop_owner_def
    by (rule tripleI)
      (auto simp: act_eval set_slot_eval members_are_def fun_eq_iff list_all_iff)
  have enter: "keeps D (enter_owner w g ex)" if "D g"
    unfolding enter_owner_def Let_def
    by (rule triple_acts_inv)
      (auto intro!: keeps_slot_ref keeps_set_slot keeps_on_load triple_acts_inv that keeps_leaf)
  show ?thesis
    unfolding SetOwnerGuid_def
    by (rule triple_acts_inv) (use g drop enter in \<open>auto intro: keeps_upd keeps_leaf\<close>)
qed

lemma keeps_join_custom: "D g \<Longrightarrow> keeps D (join_custom w g)"
  unfolding join_custom_def
  by (rule triple_acts_inv)
    (auto intro!: keeps_on_cond triple_acts_inv keeps_set_slot keeps_SetOwnerGuid keeps_leaf
      keeps_upd)

lemma join_accepted_on:
  assumes "valid_store ch"
  shows "IsOn (fst (join_accepted w g ch)) = (\<lambda>k. k = g \<or> IsOn ch k)"
proof -
  let ?D = "\<lambda>k. k = g \<or> IsOn ch k"
  have first: "triple (members_are (IsOn ch)) (acts [emit (\<lambda>_. [JoinedChannel g]),
      whenever (\<lambda>ch. ch_announce ch \<and> \<not> silent_gm w g) (SendToAll w (MakeJoined g) 0),
      store_member w g]) (members_are ?D) (\<lambda>_. True)"
    by (simp add: triple_def act_eval store_member_def set_slot_eval members_are_def fun_eq_iff list_all_iff)
  have rest: "keeps ?D (acts [
      emit (\<lambda>ch. if cr_joinMessage (ch_channelRights ch) \<noteq> []
                  then [PSendSysMessage g (cr_joinMessage (ch_channelRights ch))] else []),
      SendToOne w MakeYouJoined g,
      JoinNotify w g,
      set_slot w g (pi_SetOwnerGM (IsGMAccount (sec w g))),
      whenever (\<lambda>ch. \<not> IsConstant ch) (join_custom w g)])"
    by (rule triple_acts_inv)
      (auto intro!: keeps_on_cond keeps_join_custom keeps_set_slot keeps_leaf)
  have split3: "acts (a # b # c # d # xs) = andThen (acts [a, b, c]) (acts (d # xs))"
    for a b c d :: chan_act and xs
    by (simp add: fun_eq_iff act_eval)
  have "triple (members_are (IsOn ch)) (join_accepted w g) (members_are ?D) (\<lambda>_. True)"
    unfolding join_accepted_def split3 [where c = "store_member w g"] by (rule triple_andThen [OF first rest])
  then show ?thesis using assms by (auto simp: triple_def members_are_def)
qed

text \<open>C2: who gets in. A player is on the channel after \<open>JoinChannel\<close> exactly if he was before,
  or he is not banned, gives the password (where one is set) and is not turned away by the
  looking-for-group rule; nobody else's membership changes.\<close>

theorem join_admission:
  assumes "chan_inv ch"
  shows "IsOn (fst (JoinChannel w g pass ch)) k \<longleftrightarrow> IsOn ch k \<or>
     (k = g \<and> \<not> IsBanned w ch g \<and> (ch_password ch = [] \<or> pass = ch_password ch) \<and> \<not> in_lfg_refused w g ch)"
  using assms join_accepted_on [of ch w g]
  by (auto simp: JoinChannel_def act_eval chan_inv_ok)

theorem join_admission_witness:
  "IsOn (fst (JoinChannel demo_world 4 [] demo_joined)) 4"
  by (subst join_admission [OF demo_joined_inv]) code_simp

lemma LeaveChannel_state:
  "fst (LeaveChannel w g send ch) =
     (if \<not> IsOn ch g then ch
      else let c = (drop_member g ch)\<lparr>playersWatchingStore := remove1 g (playersWatchingStore ch)\<rparr>
           in if \<not> IsConstant ch \<and> IsOwner (slot ch g) \<and> ch_ownership ch
              then fst (pick_owner_on_leave w c) else c)"
  by (simp add: LeaveChannel_def act_eval RemoveWatching_def drop_member_def Let_def IsConstant_def)

lemma scan_owner_choice:
  "m \<noteq> [] \<Longrightarrow> last (scan_owner w m) =
     (case List.find (\<lambda>e. ptr_sec w (snd e) = 0) m of Some e \<Rightarrow> snd e | None \<Rightarrow> snd (last m))"
  by (induction w m rule: scan_owner.induct) (auto simp: scan_owner_Nil_iff split: option.split)

text \<open>C4: the owner of an owned channel leaves and others stay. The recorded owner is then the
  first of them, in the order of the table, whose account has no privileges, and the last of
  them if there is none.\<close>

theorem owner_succession:
  assumes inv: "chan_inv ch" and "ch_ownership ch" and "\<not> IsConstant ch"
    and g: "g = ch_ownerGUID ch" "IsOn ch g" and m: "m = um_erase g (playersStore ch)" "m \<noteq> []"
  shows "ch_ownerGUID (fst (LeaveChannel w g send ch)) =
     fst (case List.find (\<lambda>e. ptr_sec w (snd e) = 0) m of Some e \<Rightarrow> e | None \<Rightarrow> last m)"
proof -
  let ?c = "(drop_member g ch)\<lparr>playersWatchingStore := remove1 g (playersWatchingStore ch)\<rparr>"
  let ?e = "case List.find (\<lambda>e. ptr_sec w (snd e) = 0) m of Some e \<Rightarrow> e | None \<Rightarrow> last m"
  let ?p = "last (scan_owner w m)"
  have "IsOwner (slot ch g)" using owner_flag_iff [OF inv] assms by (simp add: owned_def)
  with assms have run: "fst (LeaveChannel w g send ch) = fst (pick_owner_on_leave w ?c)"
    by (simp add: LeaveChannel_state)
  have c: "chan_wf ?c" using chan_inv_wf [OF inv] by (rule chan_wf_leave)
  have st: "playersStore ?c = m" by (simp add: m drop_member_def)
  have p: "?p = snd ?e" using scan_owner_choice [OF m(2)] by (simp split: option.split)
  have e: "?e \<in> set m"
    using m(2) by (auto split: option.split simp: find_Some_iff)
  have "(fst ?e, ?p) \<in> set (playersStore ?c)" using e by (simp add: st p)
  then have on: "IsOn ?c (fst ?e)" and "slot ?c (fst ?e) = ?p"
    unfolding member_entry [OF chan_wfD(2) [OF c]] by blast+
  then have pl: "pi_player ?p = fst ?e" using chan_wfD(4) [OF c on] by simp
  let ?d = "?c\<lparr>ch_isOwnerGM := IsGMAccount (ptr_sec w ?p)\<rparr>"
  have d: "entries_ok ?d" "IsOn ?d = IsOn ?c" "slot ?d = slot ?c" "ch_ownerGUID ?d = ch_ownerGUID ?c"
    using chan_wfD(1) [OF c] entries_ok_frame [of ?d ?c] members_ext [of ?d ?c] by simp_all
  have "ch_ownerGUID (fst (SetOwnerGuid w (fst ?e) True ?d)) = fst ?e"
  proof (rule SetOwnerGuid_spec(3) [OF d(1) _ _ refl])
    show "IsOn ?d (fst ?e)" unfolding d(2) by (rule on)
    show "k = ch_ownerGUID ?d" if "IsOn ?d k" and "IsOwner (slot ?d k)" for k
      using that unfolding d(2-4) by (rule chan_wfD(6) [OF c])
  qed
  then show ?thesis
    using m(2) pl by (simp add: run pick_owner_on_leave_def act_eval st)
qed

theorem owner_succession_witness: "ch_ownerGUID (fst (LeaveChannel demo_world 1 True demo_joined)) = 2"
proof -
  have h: "ch_ownership demo_joined" "\<not> IsConstant demo_joined" "1 = ch_ownerGUID demo_joined"
    "IsOn demo_joined 1" "um_erase 1 (playersStore demo_joined) \<noteq> []"
    "fst (case List.find (\<lambda>e. ptr_sec demo_world (snd e) = 0) (um_erase 1 (playersStore demo_joined)) of
       Some e \<Rightarrow> e | None \<Rightarrow> last (um_erase 1 (playersStore demo_joined))) = 2"
    by code_simp+
  have "ch_ownerGUID (fst (LeaveChannel demo_world 1 True demo_joined)) =
      fst (case List.find (\<lambda>e. ptr_sec demo_world (snd e) = 0) (um_erase 1 (playersStore demo_joined)) of
       Some e \<Rightarrow> e | None \<Rightarrow> last (um_erase 1 (playersStore demo_joined)))"
    by (rule owner_succession [OF demo_joined_inv h(1-4) refl h(5)])
  then show ?thesis unfolding h(6) .
qed


lemma SetOwnerGuid_on:
  "valid_store ch \<Longrightarrow> g = 0 \<or> IsOn ch g \<Longrightarrow> IsOn (fst (SetOwnerGuid w g ex ch)) = IsOn ch"
  using keeps_SetOwnerGuid [of g "IsOn ch" w ex] by (auto simp: triple_def members_are_def)

lemma kick_new_owner_on:
  assumes ok: "entries_ok ch" and "good \<noteq> v \<Longrightarrow> IsOn ch good"
  shows "IsOn (fst (kick_new_owner w good v ch)) = IsOn ch \<and>
     bannedStore (fst (kick_new_owner w good v ch)) = bannedStore ch \<and>
     playersWatchingStore (fst (kick_new_owner w good v ch)) = playersWatchingStore ch"
  using assms last_scanned_member [OF ok _ refl, of w]
  by (simp add: kick_new_owner_def act_eval SetOwnerGuid_on)

lemma kick_execute_state:
  "fst (kick_execute w good ban v True ch) =
     (let c1 = (if ban \<and> \<not> IsBanned w ch v
                then ch\<lparr>bannedStore := um_assign (w_insertPos w) v (ban_until w) (bannedStore ch)\<rparr> else ch);
          c2 = (drop_member v c1)\<lparr>playersWatchingStore := remove1 v (playersWatchingStore ch)\<rparr>
      in if ch_ownerGUID ch = v \<and> ch_ownership ch then fst (kick_new_owner w good v c2) else c2)"
  by (simp add: kick_execute_def act_eval RemoveWatching_def drop_member_def Let_def)

text \<open>C9: what a kick or ban does that is not refused. Exactly the victim is off the channel
  and off the watchers. A kick leaves the bans as they were; a ban holds for the victim, and
  him alone, until the recorded time, unless a ban already ran, which is kept.\<close>

theorem kick_ban_effect:
  assumes inv: "chan_inv ch" and good: "IsOn ch good" "IsModerator (slot ch good) \<or> IsGMAccount (sec w good)"
    and v: "w_FindPlayerByName w n = Some v" "IsOn ch v"
    and ref: "kick_refusal w good ban v (pl_accountId (w_player w v)) (sec w v) ch = None"
    and ch': "ch' = fst (KickOrBan w good n ban ch)"
  shows "(IsOn ch' k \<longleftrightarrow> IsOn ch k \<and> k \<noteq> v) \<and> v \<notin> set (playersWatchingStore ch') \<and>
     (IsBanned (w\<lparr>w_GameTime := t\<rparr>) ch' k \<longleftrightarrow>
        (if k = v \<and> ban \<and> \<not> IsBanned w ch v then t < uint (ban_until w)
         else IsBanned (w\<lparr>w_GameTime := t\<rparr>) ch k))"
proof -
  let ?c1 = "if ban \<and> \<not> IsBanned w ch v
     then ch\<lparr>bannedStore := um_assign (w_insertPos w) v (ban_until w) (bannedStore ch)\<rparr> else ch"
  let ?c2 = "(drop_member v ?c1)\<lparr>playersWatchingStore := remove1 v (playersWatchingStore ch)\<rparr>"
  have v0: "v \<noteq> 0" using chan_inv_wf [OF inv] v(2) by (rule chan_wfD)
  have c1: "entries_ok ?c1" "IsOn ?c1 = IsOn ch"
    using chan_inv_ok [OF inv] entries_ok_frame [of ?c1 ch] by (simp_all add: if_split)
  have c2: "entries_ok ?c2" "IsOn ?c2 = (\<lambda>k. k \<noteq> v \<and> IsOn ch k)"
    using c1 entries_ok_frame [of ?c2 "drop_member v ?c1"] members_ext [of ?c2 "drop_member v ?c1"]
    by (simp_all add: fun_eq_iff)
  have "kick_resolve w good n ban ch = Target v (pl_accountId (w_player w v)) (sec w v) True"
    using v v0 by (simp add: kick_resolve_def)
  then have run: "ch' = fst (kick_execute w good ban v True ch)"
    using good ref by (auto simp: ch' KickOrBan_def act_eval)
  have new: "IsOn ch' = IsOn ?c2 \<and> bannedStore ch' = bannedStore ?c2 \<and>
      playersWatchingStore ch' = playersWatchingStore ?c2"
    using kick_new_owner_on [OF c2(1), of good v w] good c2(2)
    unfolding run kick_execute_state Let_def by (simp only: if_split) simp
  have w: "v \<notin> set (remove1 v (playersWatchingStore ch))"
    using watchers_members(1) [OF inv] by simp
  have b: "map_of (bannedStore ?c2) = (if ban \<and> \<not> IsBanned w ch v
     then (map_of (bannedStore ch))(v \<mapsto> ban_until w) else map_of (bannedStore ch))"
    by (simp add: um.find_assign bans_valid [OF inv])
  have on: "IsOn ch' k \<longleftrightarrow> IsOn ch k \<and> k \<noteq> v" using new c2(2) by metis
  have watch: "v \<notin> set (playersWatchingStore ch')" using new w by simp
  have ban: "map_of (bannedStore ch') = (if ban \<and> \<not> IsBanned w ch v
     then (map_of (bannedStore ch))(v \<mapsto> ban_until w) else map_of (bannedStore ch))"
    using new b by metis
  show ?thesis
    by (simp add: on watch IsBanned_def [of "w\<lparr>w_GameTime := t\<rparr>"] ban)
qed

theorem kick_ban_effect_witness:
  "\<not> IsOn (fst (KickOrBan demo_world 1 ''Bob'' True demo_joined)) 2 \<and>
   IsBanned (demo_world\<lparr>w_GameTime := 1600000001\<rparr>) (fst (KickOrBan demo_world 1 ''Bob'' True demo_joined)) 2"
proof -
  have h: "IsOn demo_joined 1" "IsModerator (slot demo_joined 1) \<or> IsGMAccount (sec demo_world 1)"
    "w_FindPlayerByName demo_world ''Bob'' = Some 2" "IsOn demo_joined 2"
    "kick_refusal demo_world 1 True 2 (pl_accountId (w_player demo_world 2)) (sec demo_world 2) demo_joined = None"
    "\<not> IsBanned demo_world demo_joined 2" "1600000001 < uint (ban_until demo_world)"
    by code_simp+
  show ?thesis
    using kick_ban_effect [OF demo_joined_inv h(1-5) refl, of 2 1600000001] h(6,7) by simp
qed

text \<open>\<open>ban_until\<close> is 60 days from now as long as that fits the 32 bits of the table.\<close>

theorem ban_lasts:
  assumes "0 \<le> w_GameTime w" and "w_GameTime w + 60 * 86400 < 2 ^ 32"
  shows "uint (ban_until w) = w_GameTime w + 60 * 86400"
proof -
  have "uint (word_of_int (w_GameTime w + 60 * 86400) :: u32) = w_GameTime w + 60 * 86400"
    using assms by (intro word_of_int_inverse) auto
  then show ?thesis by (simp add: ban_until_def CHANNEL_BAN_DURATION_def)
qed

theorem ban_lasts_witness: "uint (ban_until demo_world) = 1600000000 + 60 * 86400"
  using ban_lasts [of demo_world] by (simp add: demo_world_def)

section \<open>Talking\<close>

text \<open>C16: a line said by a member who is not muted reaches exactly the members who do not
  ignore the speaker, all of them if the speaker is a moderator, once each, and changes nothing.
  \<open>lang\<close> is replaced by the universal language where both sides share channels.\<close>

theorem say_reaches:
  assumes inv: "chan_inv ch" and "IsOn ch g" and "\<not> IsMuted (slot ch g)" and "what \<noteq> []"
    and p: "p = ChatPacket (if cfg_AllowTwoSideChannel w then LANG_UNIVERSAL else lang) g True what (ch_name ch)"
  shows "Say w g what lang ch = (ch, map (\<lambda>e. SendPacket (fst e) p)
     (filter (\<lambda>e. IsModerator (slot ch g) \<or> g \<notin> set (pl_ignores (w_player w (fst e)))) (playersStore ch)))"
proof -
  have g: "g \<noteq> 0" "pi_plrPtr (slot ch g) = Some g"
    using chan_wfD(3,5) [OF chan_inv_wf [OF inv] assms(2)] by simp_all
  have ptr: "pi_plrPtr (snd e) = Some (fst e)" if "e \<in> set (playersStore ch)" for e
    using that entries_ok_ptr [OF chan_inv_ok [OF inv]] by (cases e) auto
  have "concat (map (\<lambda>e. send_member w q h (snd e)) m) =
      map (\<lambda>e. SendPacket (fst e) q) (filter (\<lambda>e. h = 0 \<or> h \<notin> set (pl_ignores (w_player w (fst e)))) m)"
    if "set m \<subseteq> set (playersStore ch)" for m q h
    using that by (induction m) (auto simp: send_member_def ptr)
  from this [OF order_refl] show ?thesis
    using assms(2-4) g by (simp add: Say_def Let_def act_eval SendToAll_def p LANG_UNIVERSAL_def)
qed

theorem say_reaches_witness:
  "snd (Say demo_world 2 ''hi'' 7 demo_joined) = map (\<lambda>e. SendPacket (fst e) (ChatPacket 7 2 True ''hi'' ''World''))
     (playersStore demo_joined)"
proof -
  have h: "IsOn demo_joined 2" "\<not> IsMuted (slot demo_joined 2)" "''hi'' \<noteq> ([] :: string)"
    by code_simp+
  have n: "ch_name demo_joined = ''World''" by code_simp
  show ?thesis
    using say_reaches [OF demo_joined_inv h refl, of demo_world 7] n
    by (simp add: demo_world_def demo_player_def)
qed

text \<open>\<open>ToggleModeration\<close> announces that the channel is moderated or no longer so, but
  the flag it flips, which the constructor leaves uninitialised, has no effect on who may
  speak: every line has the same effects whatever the flag.\<close>

theorem moderation_without_effect:
  "snd (Say w g what lang (ch\<lparr>ch_moderation := b\<rparr>)) = snd (Say w g what lang ch)"
proof -
  have "IsOn (ch\<lparr>ch_moderation := b\<rparr>) = IsOn ch" "slot (ch\<lparr>ch_moderation := b\<rparr>) = slot ch"
    using members_ext [of "ch\<lparr>ch_moderation := b\<rparr>" ch] by simp_all
  then show ?thesis
    by (simp add: Say_def Let_def act_eval SendToAll_def SendToOne_def MakeNotMember_def MakeMuted_def
        MakeNotifyPacket_def)
qed

text \<open>A channel without ownership.\<close>

definition unowned_channel :: Channel where
  "unowned_channel = demo_channel\<lparr>ch_ownership := False\<rparr>"

text \<open>In a channel that hands out no ownership a game master can still be made owner with
  \<open>SetOwner\<close>; when that owner leaves, nothing clears the record, and the channel names a
  player who is not on it as its owner.\<close>

theorem stale_owner:
  "(let ch = fold (\<lambda>op ch. fst (run_op demo_world op ch))
        [OpJoin 3 [], OpJoin 2 [], OpSetOwner 3 ''Bob'', OpLeave 2 True] unowned_channel
    in chan_init unowned_channel \<and> ch_ownerGUID ch = 2 \<and> \<not> IsOn ch 2 \<and> IsOn ch 3)"
  by code_simp

end
