(* ===== verification/TextUtil.thy ===== *)
theory TextUtil
  imports Prelude
begin

text \<open>
  The text helpers of \<open>src/src/common/Utilities\<close> that the chat code uses: splitting
  (\<open>Tokenize.cpp\<close>), decimal numbers (\<open>StringConvert.h\<close>), the character classes and case
  mapping on wide characters (\<open>Util.h\<close>) and \<open>normalizePlayerName\<close>
  (\<open>src/src/server/game/Globals/ObjectMgr.cpp\<close>). The UTF-8 codec is a library (\<open>utf8cpp\<close>) and
  a parameter: \<open>dec\<close> and \<open>enc\<close>, \<open>None\<close> where the library throws. A wide character is a
  natural number; \<open>uint16(wchar)\<close> in the case mapping takes it modulo \<open>2 ^ 16\<close>.
\<close>

section \<open>Splitting\<close>

function Tokenize :: "'a list \<Rightarrow> 'a \<Rightarrow> bool \<Rightarrow> 'a list list" where
  "Tokenize str sep keepEmpty =
     (let token = takeWhile (\<lambda>c. c \<noteq> sep) str; rest = dropWhile (\<lambda>c. c \<noteq> sep) str
      in (if keepEmpty \<or> token \<noteq> [] then [token] else []) @
         (if rest = [] then [] else Tokenize (tl rest) sep keepEmpty))"
  by auto
termination
proof (relation "measure (\<lambda>(s, _). length s)")
  fix str token rest :: "'a list" and sep :: 'a and keepEmpty :: bool
  assume r: "rest = dropWhile (\<lambda>c. c \<noteq> sep) str" and "rest \<noteq> []"
  have "length rest \<le> length str" unfolding r by (rule length_dropWhile_le)
  with \<open>rest \<noteq> []\<close> show "((tl rest, sep, keepEmpty), str, sep, keepEmpty) \<in> measure (\<lambda>(s, _). length s)"
    by (cases rest) auto
qed simp

declare Tokenize.simps [simp del]

fun join_with :: "'a \<Rightarrow> 'a list list \<Rightarrow> 'a list" where
  "join_with sep [] = []"
| "join_with sep [t] = t"
| "join_with sep (t # u # ts) = t @ sep # join_with sep (u # ts)"

lemma rest_Cons:
  assumes "dropWhile (\<lambda>c. c \<noteq> sep) str \<noteq> []"
  obtains r where "dropWhile (\<lambda>c. c \<noteq> sep) str = sep # r"
proof -
  have "hd (dropWhile (\<lambda>c. c \<noteq> sep) str) = sep" using hd_dropWhile [OF assms] by simp
  with assms have "dropWhile (\<lambda>c. c \<noteq> sep) str = sep # tl (dropWhile (\<lambda>c. c \<noteq> sep) str)"
    by (cases "dropWhile (\<lambda>c. c \<noteq> sep) str") auto
  then show thesis by (rule that)
qed

text \<open>With \<open>keepEmpty\<close> nothing is lost: joining the tokens gives the text back.\<close>

theorem tokenize_join: "join_with sep (Tokenize str sep True) = str"
proof (induction str sep True rule: Tokenize.induct)
  case (1 str sep)
  let ?tok = "takeWhile (\<lambda>c. c \<noteq> sep) str" and ?rest = "dropWhile (\<lambda>c. c \<noteq> sep) str"
  have split: "?tok @ ?rest = str" by simp
  show ?case
  proof (cases "?rest = []")
    case True
    then show ?thesis using split by (subst Tokenize.simps) (simp add: Let_def)
  next
    case False
    then obtain r where r: "?rest = sep # r" by (rule rest_Cons)
    have ih: "join_with sep (Tokenize r sep True) = r" using "1"[OF refl refl False] r by simp
    have "Tokenize r sep True \<noteq> []" by (subst Tokenize.simps) (simp add: Let_def)
    then obtain u ts where "Tokenize r sep True = u # ts" by (cases "Tokenize r sep True") auto
    with ih r split show ?thesis by (subst Tokenize.simps) (simp add: Let_def)
  qed
qed

text \<open>C13: without it, the tokens are non-empty and free of the separator, and their characters
  are those of the text that are not separators, in order.\<close>

theorem tokenize_tokens:
  "(\<forall>t \<in> set (Tokenize str sep False). t \<noteq> [] \<and> sep \<notin> set t) \<and>
   concat (Tokenize str sep False) = filter (\<lambda>c. c \<noteq> sep) str"
proof (induction str sep False rule: Tokenize.induct)
  case (1 str sep)
  let ?tok = "takeWhile (\<lambda>c. c \<noteq> sep) str" and ?rest = "dropWhile (\<lambda>c. c \<noteq> sep) str"
  have tok: "sep \<notin> set ?tok" by (auto dest: set_takeWhileD)
  have flt: "filter (\<lambda>c. c \<noteq> sep) str = ?tok @ filter (\<lambda>c. c \<noteq> sep) ?rest"
    by (induction str) auto
  show ?case
  proof (cases "?rest = []")
    case True
    have all: "\<And>c. c \<in> set str \<Longrightarrow> c \<noteq> sep" using True by auto
    have tk: "?tok = str" using all by (simp add: takeWhile_eq_all_conv)
    have fl: "filter (\<lambda>c. c \<noteq> sep) str = str" using all by (simp add: filter_id_conv)
    have "Tokenize str sep False = (if str \<noteq> [] then [str] else [])"
      by (subst Tokenize.simps) (simp add: Let_def True tk del: dropWhile_eq_Nil_conv)
    then show ?thesis using all by (auto simp: fl)
  next
    case False
    then obtain r where r: "?rest = sep # r" by (rule rest_Cons)
    have ih: "(\<forall>t \<in> set (Tokenize r sep False). t \<noteq> [] \<and> sep \<notin> set t) \<and>
       concat (Tokenize r sep False) = filter (\<lambda>c. c \<noteq> sep) r"
      using "1"[OF refl refl False] r by simp
    show ?thesis
      by (subst (1 2) Tokenize.simps) (use ih r tok flt in \<open>auto simp: Let_def\<close>)
  qed
qed

theorem tokenize_tokens_witness: "concat (Tokenize ''ab,,c,'' (CHR '','') False) = ''abc''"
  using tokenize_tokens [of "''ab,,c,''" "CHR '',''"] by simp

section \<open>Decimal numbers\<close>

definition digit_value :: "char \<Rightarrow> nat option" where
  "digit_value c = (let n = of_char c in if 48 \<le> n \<and> n \<le> 57 then Some (n - 48) else None)"

fun digits_value :: "nat \<Rightarrow> string \<Rightarrow> nat option" where
  "digits_value acc [] = Some acc"
| "digits_value acc (c # cs) =
     (case digit_value c of None \<Rightarrow> None | Some d \<Rightarrow> digits_value (10 * acc + d) cs)"

text \<open>\<open>StringTo<uint64>\<close>: \<open>std::from_chars\<close> must use up the whole text and stay in range.\<close>

definition StringTo_u64 :: "string \<Rightarrow> u64 option" where
  "StringTo_u64 s =
     (if s = [] then None
      else case digits_value 0 s of
             None \<Rightarrow> None
           | Some n \<Rightarrow> if n < 2 ^ 64 then Some (of_nat n) else None)"

fun decimal :: "nat \<Rightarrow> string" where
  "decimal n = (if n < 10 then [char_of (48 + n)] else decimal (n div 10) @ [char_of (48 + n mod 10)])"

declare decimal.simps [simp del]

definition ToString_u64 :: "u64 \<Rightarrow> string" where
  "ToString_u64 v = decimal (unat v)"

lemma digits_value_append:
  "digits_value acc (s @ t) = (case digits_value acc s of None \<Rightarrow> None | Some n \<Rightarrow> digits_value n t)"
  by (induction acc s rule: digits_value.induct) (auto split: option.split)

lemma digit_value_char: "d < 10 \<Longrightarrow> digit_value (char_of (48 + d)) = Some d"
  by (simp add: digit_value_def Let_def)

lemma digits_value_decimal: "digits_value 0 (decimal n) = Some n"
proof (induction n rule: decimal.induct)
  case (1 n)
  show ?case
    by (subst decimal.simps) (use 1 in \<open>simp add: digits_value_append digit_value_char\<close>)
qed

text \<open>A number printed with \<open>ToString\<close> is read back by \<open>StringTo\<close>.\<close>

theorem string_to_to_string: "StringTo_u64 (ToString_u64 v) = Some v"
proof -
  have "decimal (unat v) \<noteq> []" by (subst decimal.simps) simp
  moreover have "unat v < 2 ^ 64" using unsigned_less [of v] by simp
  ultimately show ?thesis
    by (simp add: StringTo_u64_def ToString_u64_def digits_value_decimal)
qed

section \<open>Wide characters\<close>

type_synonym wchar = nat

definition between :: "wchar \<Rightarrow> wchar \<Rightarrow> wchar \<Rightarrow> bool" where
  "between a c b \<longleftrightarrow> a \<le> c \<and> c \<le> b"

definition uint16 :: "wchar \<Rightarrow> nat" where
  "uint16 c = c mod 2 ^ 16"

definition isBasicLatinCharacter :: "wchar \<Rightarrow> bool" where
  "isBasicLatinCharacter c \<longleftrightarrow> between 0x61 c 0x7A \<or> between 0x41 c 0x5A"

definition isExtendedLatinCharacter :: "wchar \<Rightarrow> bool" where
  "isExtendedLatinCharacter c \<longleftrightarrow> isBasicLatinCharacter c \<or> between 0xC0 c 0xD6 \<or>
     between 0xD8 c 0xDE \<or> c = 0xDF \<or> between 0xE0 c 0xF6 \<or> between 0xF8 c 0xFE \<or>
     between 0x100 c 0x12F \<or> c = 0x1E9E"

definition isCyrillicCharacter :: "wchar \<Rightarrow> bool" where
  "isCyrillicCharacter c \<longleftrightarrow> between 0x410 c 0x44F \<or> c = 0x401 \<or> c = 0x451"

definition isEastAsianCharacter :: "wchar \<Rightarrow> bool" where
  "isEastAsianCharacter c \<longleftrightarrow> between 0x1100 c 0x11F9 \<or> between 0x3041 c 0x30FF \<or>
     between 0x3131 c 0x318E \<or> between 0x31F0 c 0x31FF \<or> between 0x3400 c 0x4DB5 \<or>
     between 0x4E00 c 0x9FC3 \<or> between 0xAC00 c 0xD7A3 \<or> between 0xFF01 c 0xFFEE"

definition isNumeric :: "wchar \<Rightarrow> bool" where
  "isNumeric c \<longleftrightarrow> between 0x30 c 0x39"

definition isNumericOrSpace :: "wchar \<Rightarrow> bool" where
  "isNumericOrSpace c \<longleftrightarrow> isNumeric c \<or> c = 0x20"

definition string_of_class :: "(wchar \<Rightarrow> bool) \<Rightarrow> wchar list \<Rightarrow> bool \<Rightarrow> bool" where
  "string_of_class cls wstr numericOrSpace =
     list_all (\<lambda>c. \<not> (\<not> cls c \<and> (\<not> numericOrSpace \<or> \<not> isNumericOrSpace c))) wstr"

definition isBasicLatinString :: "wchar list \<Rightarrow> bool \<Rightarrow> bool" where
  "isBasicLatinString = string_of_class isBasicLatinCharacter"

definition isExtendedLatinString :: "wchar list \<Rightarrow> bool \<Rightarrow> bool" where
  "isExtendedLatinString = string_of_class isExtendedLatinCharacter"

definition isCyrillicString :: "wchar list \<Rightarrow> bool \<Rightarrow> bool" where
  "isCyrillicString = string_of_class isCyrillicCharacter"

definition isEastAsianString :: "wchar list \<Rightarrow> bool \<Rightarrow> bool" where
  "isEastAsianString = string_of_class isEastAsianCharacter"

definition wcharToUpper :: "wchar \<Rightarrow> wchar" where
  "wcharToUpper c =
     (if between 0x61 c 0x7A then uint16 c - 0x20
      else if c = 0xDF then 0x1E9E
      else if between 0xE0 c 0xF6 then uint16 c - 0x20
      else if between 0xF8 c 0xFE then uint16 c - 0x20
      else if between 0x101 c 0x12F \<and> c mod 2 = 1 then uint16 c - 1
      else if between 0x430 c 0x44F then uint16 c - 0x20
      else if c = 0x451 then 0x401
      else c)"

definition wcharToUpperOnlyLatin :: "wchar \<Rightarrow> wchar" where
  "wcharToUpperOnlyLatin c = (if isBasicLatinCharacter c then wcharToUpper c else c)"

definition wcharToLower :: "wchar \<Rightarrow> wchar" where
  "wcharToLower c =
     (if between 0x41 c 0x5A then uint16 c + 0x20
      else if between 0xC0 c 0xD6 then uint16 c + 0x20
      else if between 0xD8 c 0xDE then uint16 c + 0x20
      else if between 0x100 c 0x12E \<and> c mod 2 = 0 then uint16 c + 1
      else if c = 0x1E9E then 0xDF
      else if c = 0x401 then 0x451
      else if between 0x410 c 0x42F then uint16 c + 0x20
      else c)"

definition wstrToUpper :: "wchar list \<Rightarrow> wchar list" where
  "wstrToUpper = List.map wcharToUpper"

definition wstrToLower :: "wchar list \<Rightarrow> wchar list" where
  "wstrToLower = List.map wcharToLower"

lemma uint16_small: "c < 65536 \<Longrightarrow> uint16 c = c"
  by (simp add: uint16_def)

lemma even_odd: "c mod 2 = 0 \<longleftrightarrow> even c" "c mod 2 = 1 \<longleftrightarrow> odd c" "c mod 2 = Suc 0 \<longleftrightarrow> odd c" for c :: nat
  by (auto simp: even_iff_mod_2_eq_zero odd_iff_mod_2_eq_one)

lemmas case_defs = wcharToLower_def wcharToUpper_def between_def uint16_small even_odd

lemma upper_lower: "wcharToUpper (wcharToLower c) = wcharToUpper c"
  by (auto simp: case_defs)

text \<open>The upper case mapping, branch by branch.\<close>

lemma upper_branches:
  obtains "between 0x61 c 0x7A" "wcharToUpper c = c - 0x20" | "c = 0xDF" "wcharToUpper c = 0x1E9E"
  | "between 0xE0 c 0xF6 \<or> between 0xF8 c 0xFE" "wcharToUpper c = c - 0x20"
  | "between 0x101 c 0x12F" "odd c" "wcharToUpper c = c - 1"
  | "between 0x430 c 0x44F" "wcharToUpper c = c - 0x20" | "c = 0x451" "wcharToUpper c = 0x401"
  | "wcharToUpper c = c"
proof -
  note up = wcharToUpper_def between_def uint16_small even_odd
  consider (a) "between 0x61 c 0x7A" | (b) "c = 0xDF" | (c) "between 0xE0 c 0xF6 \<or> between 0xF8 c 0xFE"
    | (d) "between 0x101 c 0x12F" "odd c" | (e) "between 0x430 c 0x44F" | (f) "c = 0x451"
    | (g) "\<not> between 0x61 c 0x7A" "c \<noteq> 0xDF" "\<not> between 0xE0 c 0xF6" "\<not> between 0xF8 c 0xFE"
          "\<not> (between 0x101 c 0x12F \<and> odd c)" "\<not> between 0x430 c 0x44F" "c \<noteq> 0x451"
    by blast
  then show thesis
  proof cases
    case a then show ?thesis using that(1) by (simp add: up)
  next
    case b then show ?thesis using that(2) by (simp add: up)
  next
    case c then show ?thesis using that(3) by (auto simp: up)
  next
    case d then show ?thesis using that(4) by (simp add: up)
  next
    case e then show ?thesis using that(5) by (simp add: up)
  next
    case f then show ?thesis using that(6) by (simp add: up)
  next
    case g then show ?thesis using that(7) by (auto simp: wcharToUpper_def even_odd)
  qed
qed

lemma lower_upper: "wcharToLower (wcharToUpper c) = wcharToLower c"
proof (rule upper_branches [of c])
  note lo = wcharToLower_def between_def uint16_small even_odd
  show ?thesis if "between 0x61 c 0x7A" "wcharToUpper c = c - 0x20" using that by (auto simp: lo)
  show ?thesis if "c = 0xDF" "wcharToUpper c = 0x1E9E" using that by (simp add: lo)
  show ?thesis if "between 0xE0 c 0xF6 \<or> between 0xF8 c 0xFE" "wcharToUpper c = c - 0x20"
  proof -
    have "0x20 \<le> c" using that(1) by (auto simp: between_def)
    then obtain x where x: "c = x + 0x20" using le_Suc_ex [of "0x20" c] by auto
    have "(192 \<le> x \<and> x \<le> 214) \<or> (216 \<le> x \<and> x \<le> 222)" using that(1) by (auto simp: x between_def)
    then show ?thesis using that(2) by (elim disjE) (simp_all add: x lo)
  qed
  show ?thesis if "between 0x101 c 0x12F" "odd c" "wcharToUpper c = c - 1"
  proof -
    have "even (c - 1)" "c - 1 \<le> 0x12E" "0x100 \<le> c - 1" "c - 1 + 1 = c"
      using that by (auto simp: between_def)
    then show ?thesis using that by (simp add: lo)
  qed
  show ?thesis if "between 0x430 c 0x44F" "wcharToUpper c = c - 0x20"
  proof -
    have "0x20 \<le> c" using that(1) by (auto simp: between_def)
    then obtain x where x: "c = x + 0x20" using le_Suc_ex [of "0x20" c] by auto
    show ?thesis using that by (simp add: x lo)
  qed
  show ?thesis if "c = 0x451" "wcharToUpper c = 0x401" using that by (simp add: lo)
  show ?thesis if "wcharToUpper c = c" using that by simp
qed

lemma lower_lower: "wcharToLower (wcharToLower c) = wcharToLower c"
  using lower_upper [of "wcharToLower c"] by (simp add: upper_lower lower_upper)

lemma upper_upper: "wcharToUpper (wcharToUpper c) = wcharToUpper c"
  using upper_lower [of "wcharToUpper c"] by (simp add: upper_lower lower_upper)

lemma lower_space: "wcharToLower c = 0x20 \<longleftrightarrow> c = 0x20" "wcharToUpper c = 0x20 \<longleftrightarrow> c = 0x20"
proof -
  have "c \<noteq> 32 \<longrightarrow> wcharToLower c \<noteq> 32" "wcharToLower 32 = 32" by (simp_all add: case_defs)
  then show "wcharToLower c = 0x20 \<longleftrightarrow> c = 0x20" by auto
  have "c \<noteq> 32 \<longrightarrow> wcharToUpper c \<noteq> 32" "wcharToUpper 32 = 32" by (auto simp: case_defs)
  then show "wcharToUpper c = 0x20 \<longleftrightarrow> c = 0x20" by auto
qed

text \<open>The two case mappings agree on which characters are variants of each other, and
  each is idempotent: lower case is a canonical form, and so is upper case.\<close>

theorem case_canonical:
  "wcharToLower (wcharToUpper c) = wcharToLower c \<and> wcharToUpper (wcharToLower c) = wcharToUpper c \<and>
   wcharToLower (wcharToLower c) = wcharToLower c \<and> wcharToUpper (wcharToUpper c) = wcharToUpper c"
  by (simp add: lower_upper upper_lower lower_lower upper_upper)

lemma wstrToLower_idem: "wstrToLower (wstrToLower s) = wstrToLower s"
  by (simp add: wstrToLower_def lower_lower)

section \<open>Player names\<close>

definition normalizePlayerName ::
  "(string \<Rightarrow> wchar list option) \<Rightarrow> (wchar list \<Rightarrow> string option) \<Rightarrow> string \<Rightarrow> string option" where
  "normalizePlayerName dec enc name =
     (if name = [] then None
      else if CHR '' '' \<in> set name then None
      else case dec name of
             None \<Rightarrow> None
           | Some tmp \<Rightarrow>
               enc (case wstrToLower tmp of [] \<Rightarrow> [] | c # cs \<Rightarrow> wcharToUpper c # cs))"

text \<open>What is relied on of the codec: what it encodes it decodes to the same characters,
  only the empty text has no characters, and a space is encoded as a space.\<close>

definition utf8_codec :: "(string \<Rightarrow> wchar list option) \<Rightarrow> (wchar list \<Rightarrow> string option) \<Rightarrow> bool" where
  "utf8_codec dec enc \<longleftrightarrow>
     (\<forall>t s. enc t = Some s \<longrightarrow> dec s = Some t) \<and>
     (\<forall>t s. dec s = Some t \<longrightarrow> (s = [] \<longleftrightarrow> t = []) \<and> (CHR '' '' \<in> set s \<longleftrightarrow> 0x20 \<in> set t))"

lemma normalize_again:
  assumes codec: "utf8_codec dec enc" and n: "normalizePlayerName dec enc name = Some m"
  shows "normalizePlayerName dec enc m = Some m"
proof -
  have name: "name \<noteq> []" "CHR '' '' \<notin> set name" using n by (auto simp: normalizePlayerName_def split: if_splits)
  then obtain t where t: "dec name = Some t" using n by (auto simp: normalizePlayerName_def split: option.splits)
  then have "t \<noteq> []" "0x20 \<notin> set t" using codec name by (auto simp: utf8_codec_def)
  then obtain c cs where tcs: "t = c # cs" by (cases t) auto
  let ?u = "wcharToUpper (wcharToLower c) # wstrToLower cs"
  have enc: "enc ?u = Some m" using n name t tcs by (simp add: normalizePlayerName_def wstrToLower_def)
  have dec: "dec m = Some ?u" using codec enc by (simp add: utf8_codec_def)
  have "0x20 \<notin> set ?u" using \<open>0x20 \<notin> set t\<close> by (auto simp: tcs wstrToLower_def lower_space dest!: sym [of "32"])
  then have "m \<noteq> []" "CHR '' '' \<notin> set m" using codec dec unfolding utf8_codec_def by blast+
  then show ?thesis
    using dec enc by (simp add: normalizePlayerName_def wstrToLower_def comp_def lower_lower lower_upper upper_lower)
qed

text \<open>ASCII, the part of UTF-8 used in the examples.\<close>

definition ascii_dec :: "string \<Rightarrow> wchar list option" where
  "ascii_dec s = (if list_all (\<lambda>c. (of_char c :: nat) < 128) s then Some (map of_char s) else None)"

definition ascii_enc :: "wchar list \<Rightarrow> string option" where
  "ascii_enc t = (if list_all (\<lambda>c. c < 128) t then Some (map char_of t) else None)"

lemma ascii_codec: "utf8_codec ascii_dec ascii_enc"
proof -
  have sp: "of_char c = (32::nat) \<longleftrightarrow> c = CHR '' ''" for c
    using of_char_eq_iff [of c "CHR '' ''"] by simp
  have "ascii_dec s = Some t" if "ascii_enc t = Some s" for s t
  proof -
    have t: "\<forall>c \<in> set t. c < 128" and s: "s = map char_of t"
      using that by (auto simp: ascii_enc_def list_all_iff split: if_splits)
    have "map (of_char \<circ> (char_of :: nat \<Rightarrow> char)) t = map id t"
      using t by (intro map_cong) auto
    with t s show ?thesis by (auto simp: ascii_dec_def list_all_iff)
  qed
  moreover have "CHR '' '' \<in> set s \<longleftrightarrow> 32 \<in> (of_char ` set s :: nat set)" for s
    by (force simp: sp)
  ultimately show ?thesis
    by (auto simp: utf8_codec_def ascii_dec_def split: if_splits)
qed

text \<open>Normalising a name twice is normalising it once, so a name taken from the table of
  players is found again.\<close>

theorem normalize_idempotent:
  assumes "utf8_codec dec enc" and "normalizePlayerName dec enc name = Some m"
  shows "normalizePlayerName dec enc m = Some m"
  using assms by (rule normalize_again)

theorem normalize_idempotent_witness:
  "normalizePlayerName ascii_dec ascii_enc ''Ann'' = Some ''Ann''"
proof -
  have "normalizePlayerName ascii_dec ascii_enc ''aNN'' = Some ''Ann''"
  proof -
    have "char_of (65 :: nat) = CHR ''A''" "char_of (110 :: nat) = CHR ''n''" by code_simp+
    then show ?thesis
      by (simp add: normalizePlayerName_def ascii_dec_def ascii_enc_def wstrToLower_def case_defs)
  qed
  then show ?thesis by (rule normalize_idempotent [OF ascii_codec])
qed

section \<open>The main part of a name\<close>

text \<open>The endings are built with \<open>std::wstring { ..., wchar_t(0x0000) }\<close>, whose initializer list
  includes the 0: it is a character of the ending.\<close>

definition dropEnds :: "wchar list list list" where
  "dropEnds =
     (let a = [0x430, 0]; o' = [0x43E, 0]; ya = [0x44F, 0]; ie = [0x435, 0]; i = [0x438, 0];
          yeru = [0x44B, 0]; u = [0x443, 0]; yu = [0x44E, 0]; oj = [0x43E, 0x439, 0];
          ie_j = [0x435, 0x439, 0]; io_j = [0x451, 0x439, 0]; o_m = [0x43E, 0x43C, 0];
          io_m = [0x451, 0x43C, 0]; ie_m = [0x435, 0x43C, 0]; soft = [0x44C, 0]; j = [0x439, 0]
      in [[a, o', ya, ie, soft, j],
          [a, ya, yeru, i],
          [ie, u, yu, i],
          [u, yu, o', ie, soft, ya, a],
          [oj, io_j, ie_j, o_m, io_m, ie_m, yu],
          [ie, i]])"

fun drop_ending :: "wchar list \<Rightarrow> wchar list list \<Rightarrow> wchar list" where
  "drop_ending wname [] = wname"
| "drop_ending wname (e # es) =
     (if length e > length wname then drop_ending wname es
      else if drop (length wname - length e) wname = e then take (length wname - length e) wname
      else drop_ending wname es)"

definition GetMainPartOfName :: "wchar list \<Rightarrow> nat \<Rightarrow> wchar list" where
  "GetMainPartOfName wname declension =
     (if wname = [] \<or> \<not> isCyrillicCharacter (hd wname) \<or> declension > 5 then wname
      else drop_ending wname (dropEnds ! declension))"

lemma drop_ending_none: "0 \<notin> set wname \<Longrightarrow> \<forall>e \<in> set es. 0 \<in> set e \<Longrightarrow> drop_ending wname es = wname"
proof (induction wname es rule: drop_ending.induct)
  case (2 wname e es)
  then have "drop (length wname - length e) wname \<noteq> e" by (metis in_set_dropD list.set_intros(1))
  with 2 show ?case by simp
qed simp

text \<open>No ending is ever dropped: whatever the declension, a name without the character 0
  is its own main part.\<close>

theorem main_part_never_drops:
  assumes "0 \<notin> set wname"
  shows "GetMainPartOfName wname declension = wname"
proof -
  have "\<forall>es \<in> set dropEnds. \<forall>e \<in> set es. 0 \<in> set e" by (simp add: dropEnds_def Let_def)
  moreover have "dropEnds ! declension \<in> set dropEnds" if "declension \<le> 5"
    using that by (intro nth_mem) (simp add: dropEnds_def Let_def)
  ultimately have "drop_ending wname (dropEnds ! declension) = wname" if "declension \<le> 5"
    using that assms by (intro drop_ending_none) auto
  then show ?thesis by (simp add: GetMainPartOfName_def)
qed

theorem main_part_never_drops_witness: "GetMainPartOfName [0x410, 0x43D, 0x43D, 0x430] 0 = [0x410, 0x43D, 0x43D, 0x430]"
  by (rule main_part_never_drops) simp

end
