(* ===== verification/ChannelMgr.thy ===== *)
theory ChannelMgr
  imports ChannelProps TextUtil "HOL-Library.Char_ord" "HOL-Library.List_Lexorder"
begin

text \<open>
  The channel managers (\<open>src/src/server/game/Chat/Channels/ChannelMgr.cpp\<close>) and the packet
  handlers on top of them (\<open>src/src/server/game/Handlers/ChannelHandler.cpp\<close>, with the parts
  of \<open>Player.cpp\<close> they call): one table of channels per side, the channel rights by name, the
  counter of database ids and each player's list of joined channels. A channel object is
  named by its manager and the key it is filed under.
\<close>

section \<open>State\<close>

type_synonym chan_key = "TeamId \<times> wchar list"

record chan_server =
  sv_alliance :: "(wchar list \<times> Channel) list"
  sv_horde :: "(wchar list \<times> Channel) list"
  sv_rights :: "(string \<times> ChannelRights) list"
  sv_idMax :: u32
  sv_joined :: "guid \<Rightarrow> chan_key list"

text \<open>Configuration, client data and the codec: \<open>ce_dbc\<close> the flags of a built-in channel,
  \<open>ce_zone\<close> the flags of the area a player is in.\<close>

record chan_env =
  ce_world :: world
  ce_dec :: "string \<Rightarrow> wchar list option"
  ce_enc :: "wchar list \<Rightarrow> string option"
  ce_dbc :: "u32 \<Rightarrow> u32 option"
  ce_zone :: "guid \<Rightarrow> u32 option"
  ce_guildId :: "guid \<Rightarrow> u32"
  ce_moderation0 :: bool
  cfg_PreserveCustomChannels :: bool
  cfg_LfgLocationAll :: bool
  cfg_StrictLinkKick :: bool

definition chans :: "TeamId \<Rightarrow> chan_server \<Rightarrow> (wchar list \<times> Channel) list" where
  "chans t sv = (if t = TEAM_HORDE then sv_horde sv else sv_alliance sv)"

definition set_chans :: "TeamId \<Rightarrow> (wchar list \<times> Channel) list \<Rightarrow> chan_server \<Rightarrow> chan_server" where
  "set_chans t m sv = (if t = TEAM_HORDE then sv\<lparr>sv_horde := m\<rparr> else sv\<lparr>sv_alliance := m\<rparr>)"

text \<open>Which manager serves a side; \<open>None\<close> is the null pointer.\<close>

definition forTeam :: "world \<Rightarrow> TeamId \<Rightarrow> TeamId option" where
  "forTeam w teamId =
     (if cfg_AllowTwoSideChannel w then Some TEAM_ALLIANCE
      else if teamId = TEAM_ALLIANCE then Some TEAM_ALLIANCE
      else if teamId = TEAM_HORDE then Some TEAM_HORDE
      else None)"

section \<open>Channel rights\<close>

definition tolower_ascii :: "char \<Rightarrow> char" where
  "tolower_ascii c = (if CHR ''A'' \<le> c \<and> c \<le> CHR ''Z'' then char_of (of_char c + 32 :: nat) else c)"

definition GetChannelRightsFor :: "(string \<times> ChannelRights) list \<Rightarrow> string \<Rightarrow> ChannelRights" where
  "GetChannelRightsFor rights name =
     (case map_of rights (List.map tolower_ascii name) of Some r \<Rightarrow> r | None \<Rightarrow> channelRightsEmpty)"

definition SetChannelRightsFor ::
  "string \<Rightarrow> ChannelRights \<Rightarrow> (string \<times> ChannelRights) list \<Rightarrow> (string \<times> ChannelRights) list" where
  "SetChannelRightsFor name r rights = om_assign (List.map tolower_ascii name) r rights"

definition moderator_accounts :: "string \<Rightarrow> u32 list" where
  "moderator_accounts s =
     foldl (\<lambda>acc tok.
        let a = (case StringTo_u64 tok of Some v \<Rightarrow> v | None \<Rightarrow> 0)
        in if a \<noteq> 0 \<and> ucast (ucast a :: u32) = a then insort_insert (ucast a) acc else acc)
      [] (if s = [] then [] else Tokenize s (CHR '' '') False)"

definition LoadChannelRights ::
  "(string \<times> u32 \<times> u32 \<times> string \<times> string \<times> string) list \<Rightarrow> (string \<times> ChannelRights) list" where
  "LoadChannelRights rows =
     foldl (\<lambda>rights (name, flags, delay, joinmsg, delaymsg, mods).
        SetChannelRightsFor name \<lparr>cr_flags = flags, cr_speakDelay = delay, cr_joinMessage = joinmsg,
          cr_speakMessage = delaymsg, cr_moderators = moderator_accounts mods\<rparr> rights)
      [] rows"

section \<open>Finding and making channels\<close>

definition chan_key :: "chan_env \<Rightarrow> string \<Rightarrow> wchar list" where
  "chan_key env name = wstrToLower (case ce_dec env name of Some w \<Rightarrow> w | None \<Rightarrow> [])"

definition GetJoinChannel ::
  "chan_env \<Rightarrow> TeamId \<Rightarrow> string \<Rightarrow> u32 \<Rightarrow> chan_server \<Rightarrow> chan_server \<times> chan_effect list" where
  "GetJoinChannel env t name channelId sv =
     (case map_of (chans t sv) (chan_key env name) of
        Some ch \<Rightarrow> (sv, [])
      | None \<Rightarrow>
          (let r = Channel_ctor (ce_dbc env) (GetChannelRightsFor (sv_rights sv))
                     (cfg_PreserveCustomChannels env) (ce_moderation0 env) name channelId 0 t True True
                     (sv_idMax sv)
           in ((set_chans t (um_assign (w_insertPos (ce_world env)) (chan_key env name) (fst (fst r))
                  (chans t sv)) sv)\<lparr>sv_idMax := snd (fst r)\<rparr>,
               snd r)))"

definition MakeNotOnPacket :: "string \<Rightarrow> packet" where
  "MakeNotOnPacket name = Packet SMSG_CHANNEL_NOTIFY [F8 5, FStr name]"

definition GetChannel :: "chan_env \<Rightarrow> TeamId \<Rightarrow> string \<Rightarrow> guid \<Rightarrow> bool \<Rightarrow> chan_server \<Rightarrow>
    Channel option \<times> chan_effect list" where
  "GetChannel env t name p pkt sv =
     (case map_of (chans t sv) (chan_key env name) of
        None \<Rightarrow> (None, if pkt then [SendPacket p (MakeNotOnPacket name)] else [])
      | Some ch \<Rightarrow> (Some ch, []))"

text \<open>A row of \<open>channels\<close>: id, name, team, announce, ownership, password; the bans of a
  channel come from a query of their own.\<close>

definition team_of_u32 :: "u32 \<Rightarrow> TeamId" where
  "team_of_u32 n = (if n = 0 then TEAM_ALLIANCE else if n = 1 then TEAM_HORDE else TEAM_NEUTRAL)"

definition load_bans :: "world \<Rightarrow> (u32 \<times> u32) list \<Rightarrow> Channel \<Rightarrow> Channel" where
  "load_bans w bans ch = foldl (\<lambda>c (g, t). fst (AddBan w (guid_plain HG_Player g) t c)) ch bans"

definition LoadChannel :: "chan_env \<Rightarrow> (u32 \<Rightarrow> (u32 \<times> u32) list) \<Rightarrow>
    u32 \<times> string \<times> u32 \<times> u8 \<times> u8 \<times> string \<Rightarrow>
    chan_server \<times> (string \<times> u32) list \<times> chan_effect list \<Rightarrow>
    chan_server \<times> (string \<times> u32) list \<times> chan_effect list" where
  "LoadChannel env bans row st =
     (case row of (dbid, name, team, announce, ownership, password) \<Rightarrow>
        case ce_dec env name of
          None \<Rightarrow> (fst st, fst (snd st) @ [(name, team)], snd (snd st))
        | Some wname \<Rightarrow>
            (case forTeam (ce_world env) (team_of_u32 team) of
               None \<Rightarrow> (fst st, fst (snd st) @ [(name, team)], snd (snd st))
             | Some t \<Rightarrow>
                 (let sv = fst st;
                      r = Channel_ctor (ce_dbc env) (GetChannelRightsFor (sv_rights sv))
                            (cfg_PreserveCustomChannels env) (ce_moderation0 env) name 0 dbid
                            (team_of_u32 team) (announce \<noteq> 0) (ownership \<noteq> 0) (sv_idMax sv);
                      ch = load_bans (ce_world env) (bans dbid) (fst (SetPassword password (fst (fst r))));
                      idMax = snd (fst r)
                  in ((set_chans t (um_assign (w_insertPos (ce_world env)) wname ch (chans t sv)) sv)
                        \<lparr>sv_idMax := (if dbid > idMax then dbid else idMax)\<rparr>,
                      fst (snd st), snd (snd st) @ snd r))))"

definition LoadChannels :: "chan_env \<Rightarrow> (u32 \<times> string \<times> u32 \<times> u8 \<times> u8 \<times> string) list \<Rightarrow>
    (u32 \<Rightarrow> (u32 \<times> u32) list) \<Rightarrow> chan_server \<Rightarrow> chan_server \<times> chan_effect list" where
  "LoadChannels env rows bans sv =
     (let st = foldl (\<lambda>st row. LoadChannel env bans row st) (sv, [], []) rows
      in (fst st, snd (snd st) @ map (\<lambda>(n, t). ExecDelChannel n t) (fst (snd st))))"

definition CleanOldChannelsInDB :: "int \<Rightarrow> chan_effect list" where
  "CleanOldChannelsInDB duration =
     (if duration > 0 then [ExecDelOldChannels (duration * 86400), ExecDelOldChannelsBans] else [])"

section \<open>Running an operation on a channel object\<close>

text \<open>\<open>Player::JoinedChannel\<close> and \<open>Player::LeftChannel\<close>.\<close>

definition track :: "chan_key \<Rightarrow> chan_effect \<Rightarrow> (guid \<Rightarrow> chan_key list) \<Rightarrow> (guid \<Rightarrow> chan_key list)" where
  "track k e joined =
     (case e of
        JoinedChannel g \<Rightarrow> joined(g := joined g @ [k])
      | LeftChannel g \<Rightarrow> joined(g := removeAll k (joined g))
      | _ \<Rightarrow> joined)"

definition on_object :: "chan_env \<Rightarrow> chan_key \<Rightarrow> chan_act \<Rightarrow> (chan_server, chan_effect) act" where
  "on_object env k x sv =
     (case map_of (chans (fst k) sv) (snd k) of
        None \<Rightarrow> (sv, [])
      | Some ch \<Rightarrow>
          (let r = x ch
           in ((set_chans (fst k) (AList.update (snd k) (fst r) (chans (fst k) sv)) sv)
                 \<lparr>sv_joined := fold (track k) (snd r) (sv_joined sv)\<rparr>,
               snd r)))"

definition team_of :: "chan_env \<Rightarrow> guid \<Rightarrow> TeamId option" where
  "team_of env p = forTeam (ce_world env) (pl_teamId (w_player (ce_world env) p))"

text \<open>The common shape of the handlers: the player's manager, the channel by name, the
  operation.\<close>

definition on_named :: "chan_env \<Rightarrow> guid \<Rightarrow> string \<Rightarrow> bool \<Rightarrow> chan_act \<Rightarrow> (chan_server, chan_effect) act" where
  "on_named env p name pkt x sv =
     (case team_of env p of
        None \<Rightarrow> (sv, [])
      | Some t \<Rightarrow>
          (case GetChannel env t name p pkt sv of
             (None, es) \<Rightarrow> (sv, es)
           | (Some _, es) \<Rightarrow> on_object env (t, chan_key env name) x sv))"

definition with_target :: "chan_env \<Rightarrow> string \<Rightarrow> (string \<Rightarrow> (chan_server, chan_effect) act) \<Rightarrow>
    (chan_server, chan_effect) act" where
  "with_target env target k =
     (case normalizePlayerName (ce_dec env) (ce_enc env) target of None \<Rightarrow> skip | Some n \<Rightarrow> k n)"

section \<open>The packet handlers\<close>

definition CHANNEL_DBC_FLAG_ZONE_DEP :: u32 where "CHANNEL_DBC_FLAG_ZONE_DEP = 0x00002"
definition CHANNEL_DBC_FLAG_CITY_ONLY :: u32 where "CHANNEL_DBC_FLAG_CITY_ONLY = 0x00010"
definition CHANNEL_DBC_FLAG_GUILD_REQ :: u32 where "CHANNEL_DBC_FLAG_GUILD_REQ = 0x20000"
definition AREA_FLAG_SLAVE_CAPITAL :: u32 where "AREA_FLAG_SLAVE_CAPITAL = 0x00000008"
definition AREA_FLAG_ARENA_INSTANCE :: u32 where "AREA_FLAG_ARENA_INSTANCE = 0x00010000"

definition MAX_CHANNEL_PASS_STR :: nat where "MAX_CHANNEL_PASS_STR = 31"

definition CanJoinConstantChannelInZone :: "chan_env \<Rightarrow> guid \<Rightarrow> u32 \<Rightarrow> u32 \<Rightarrow> bool" where
  "CanJoinConstantChannelInZone env p channel zone =
     (if channel AND CHANNEL_DBC_FLAG_LFG \<noteq> 0 \<and> cfg_LfgLocationAll env then True
      else if channel AND CHANNEL_DBC_FLAG_ZONE_DEP \<noteq> 0 \<and> zone AND AREA_FLAG_ARENA_INSTANCE \<noteq> 0 then False
      else if channel AND CHANNEL_DBC_FLAG_CITY_ONLY \<noteq> 0 \<and> \<not> (zone AND AREA_FLAG_SLAVE_CAPITAL \<noteq> 0) then False
      else if channel AND CHANNEL_DBC_FLAG_GUILD_REQ \<noteq> 0 \<and> ce_guildId env p \<noteq> 0 then False
      else True)"

definition DisallowHyperlinksAndMaybeKick :: "chan_env \<Rightarrow> guid \<Rightarrow> string \<Rightarrow> bool \<times> chan_effect list" where
  "DisallowHyperlinksAndMaybeKick env p str =
     (if CHR ''|'' \<notin> set str then (True, [])
      else (False, if cfg_StrictLinkKick env then [KickSession p] else []))"

definition is_digit :: "char \<Rightarrow> bool" where
  "is_digit c \<longleftrightarrow> digit_value c \<noteq> None"

definition HandleJoinChannel ::
  "chan_env \<Rightarrow> guid \<Rightarrow> u32 \<Rightarrow> string \<Rightarrow> string \<Rightarrow> (chan_server, chan_effect) act" where
  "HandleJoinChannel env p channelId channelName password =
     (if channelId \<noteq> 0 \<and>
         (case ce_dbc env channelId of
            None \<Rightarrow> True
          | Some channel \<Rightarrow>
              (case ce_zone env p of
                 None \<Rightarrow> True
               | Some zone \<Rightarrow> \<not> CanJoinConstantChannelInZone env p channel zone)) then skip
      else if channelName = [] \<or> is_digit (hd channelName) then
        emit (\<lambda>_. [SendPacket p (Packet SMSG_CHANNEL_NOTIFY
          [F8 (notify_code CHAT_INVALID_NAME_NOTICE), FStr channelName])])
      else if length password > MAX_CHANNEL_PASS_STR then skip
      else if length channelName \<ge> 100 then skip
      else case DisallowHyperlinksAndMaybeKick env p channelName of
        (False, es) \<Rightarrow> emit (\<lambda>_. es)
      | (True, es) \<Rightarrow>
          (case team_of env p of
             None \<Rightarrow> skip
           | Some t \<Rightarrow> andThen (GetJoinChannel env t channelName channelId)
               (on_object env (t, chan_key env channelName) (JoinChannel (ce_world env) p password))))"

definition HandleLeaveChannel :: "chan_env \<Rightarrow> guid \<Rightarrow> string \<Rightarrow> (chan_server, chan_effect) act" where
  "HandleLeaveChannel env p name =
     (if name = [] then skip else on_named env p name True (LeaveChannel (ce_world env) p True))"

definition HandleChannelList :: "chan_env \<Rightarrow> guid \<Rightarrow> string \<Rightarrow> (chan_server, chan_effect) act" where
  "HandleChannelList env p name = on_named env p name True (ListMembers (ce_world env) p)"

definition HandleChannelPassword :: "chan_env \<Rightarrow> guid \<Rightarrow> string \<Rightarrow> string \<Rightarrow> (chan_server, chan_effect) act" where
  "HandleChannelPassword env p name password =
     (if length password > MAX_CHANNEL_PASS_STR then skip
      else on_named env p name True (Password (ce_world env) p password))"

definition HandleChannelSetOwner :: "chan_env \<Rightarrow> guid \<Rightarrow> string \<Rightarrow> string \<Rightarrow> (chan_server, chan_effect) act" where
  "HandleChannelSetOwner env p name target =
     with_target env target (\<lambda>n. on_named env p name True (SetOwner (ce_world env) p n))"

definition HandleChannelOwner :: "chan_env \<Rightarrow> guid \<Rightarrow> string \<Rightarrow> (chan_server, chan_effect) act" where
  "HandleChannelOwner env p name = on_named env p name True (SendWhoOwner (ce_world env) p)"

definition HandleChannelModerator :: "chan_env \<Rightarrow> guid \<Rightarrow> string \<Rightarrow> string \<Rightarrow> (chan_server, chan_effect) act" where
  "HandleChannelModerator env p name target =
     with_target env target (\<lambda>n. on_named env p name True (SetMode (ce_world env) p n True True))"

definition HandleChannelUnmoderator :: "chan_env \<Rightarrow> guid \<Rightarrow> string \<Rightarrow> string \<Rightarrow> (chan_server, chan_effect) act" where
  "HandleChannelUnmoderator env p name target =
     with_target env target (\<lambda>n. on_named env p name True (SetMode (ce_world env) p n True False))"

definition HandleChannelMute :: "chan_env \<Rightarrow> guid \<Rightarrow> string \<Rightarrow> string \<Rightarrow> (chan_server, chan_effect) act" where
  "HandleChannelMute env p name target =
     with_target env target (\<lambda>n. on_named env p name True (SetMode (ce_world env) p n False True))"

definition HandleChannelUnmute :: "chan_env \<Rightarrow> guid \<Rightarrow> string \<Rightarrow> string \<Rightarrow> (chan_server, chan_effect) act" where
  "HandleChannelUnmute env p name target =
     with_target env target (\<lambda>n. on_named env p name True (SetMode (ce_world env) p n False False))"

definition HandleChannelInvite :: "chan_env \<Rightarrow> guid \<Rightarrow> string \<Rightarrow> string \<Rightarrow> (chan_server, chan_effect) act" where
  "HandleChannelInvite env p name target =
     with_target env target (\<lambda>n. on_named env p name True (Invite (ce_world env) p n))"

definition HandleChannelKick :: "chan_env \<Rightarrow> guid \<Rightarrow> string \<Rightarrow> string \<Rightarrow> (chan_server, chan_effect) act" where
  "HandleChannelKick env p name target =
     with_target env target (\<lambda>n. on_named env p name True (Kick (ce_world env) p n))"

definition HandleChannelBan :: "chan_env \<Rightarrow> guid \<Rightarrow> string \<Rightarrow> string \<Rightarrow> (chan_server, chan_effect) act" where
  "HandleChannelBan env p name target =
     with_target env target (\<lambda>n. on_named env p name True (Ban (ce_world env) p n))"

definition HandleChannelUnban :: "chan_env \<Rightarrow> guid \<Rightarrow> string \<Rightarrow> string \<Rightarrow> (chan_server, chan_effect) act" where
  "HandleChannelUnban env p name target =
     with_target env target (\<lambda>n. on_named env p name True (UnBan (ce_world env) p n))"

definition HandleChannelAnnouncements :: "chan_env \<Rightarrow> guid \<Rightarrow> string \<Rightarrow> (chan_server, chan_effect) act" where
  "HandleChannelAnnouncements env p name = on_named env p name True (Announce (ce_world env) p)"

definition HandleChannelModerateOpcode :: "chan_env \<Rightarrow> guid \<Rightarrow> string \<Rightarrow> (chan_server, chan_effect) act" where
  "HandleChannelModerateOpcode env p name = on_named env p name True (ToggleModeration (ce_world env) p)"

definition HandleGetChannelMemberCount :: "chan_env \<Rightarrow> guid \<Rightarrow> string \<Rightarrow> (chan_server, chan_effect) act" where
  "HandleGetChannelMemberCount env p name =
     on_named env p name True (emit (\<lambda>ch. [SendPacket p (Packet SMSG_CHANNEL_MEMBER_COUNT
       [FStr (ch_name ch), F8 (ch_flags ch), F32 (GetNumPlayers ch)])]))"

definition ClearChannelWatch :: "chan_env \<Rightarrow> guid \<Rightarrow> (chan_server, chan_effect) act" where
  "ClearChannelWatch env p =
     load (\<lambda>sv. sv_joined sv p) (each (\<lambda>k. on_object env k (RemoveWatching p)))"

definition HandleSetChannelWatch :: "chan_env \<Rightarrow> guid \<Rightarrow> string \<Rightarrow> (chan_server, chan_effect) act" where
  "HandleSetChannelWatch env p name =
     andThen (ClearChannelWatch env p)
       (if name = [] then skip else on_named env p name False (AddWatching (ce_world env) p))"

definition HandleClearChannelWatch :: "chan_env \<Rightarrow> guid \<Rightarrow> string \<Rightarrow> (chan_server, chan_effect) act" where
  "HandleClearChannelWatch env p name =
     (if name = [] then skip else on_named env p name False (RemoveWatching p))"

text \<open>Logging out leaves every joined channel, without telling the player.\<close>

definition CleanupChannels :: "chan_env \<Rightarrow> guid \<Rightarrow> (chan_server, chan_effect) act" where
  "CleanupChannels env p =
     load (\<lambda>sv. sv_joined sv p) (each (\<lambda>k. acts
       [upd (\<lambda>sv. sv\<lparr>sv_joined := (sv_joined sv)(p := tl (sv_joined sv p))\<rparr>),
        on_object env k (LeaveChannel (ce_world env) p False)]))"

end
