(* ===== verification/ChannelMgrProps.thy ===== *)
theory ChannelMgrProps
  imports ChannelMgr
begin

text \<open>
  What the channel managers and handlers of theory \<open>ChannelMgr\<close> guarantee. The server as a
  whole is a \<open>component\<close>: its steps are the packets of players, loading and rehashing, its
  invariant is that of every channel. Then the lookups: names whatever their case, channels
  loaded from the database, channel rights, moderator accounts.
\<close>

section \<open>The server-wide invariant\<close>

definition chans_inv :: "(wchar list \<times> Channel) list \<Rightarrow> bool" where
  "chans_inv m \<longleftrightarrow> um_valid m \<and> (\<forall>ch \<in> snd ` set m. chan_inv ch)"

definition sv_inv :: "chan_server \<Rightarrow> bool" where
  "sv_inv sv \<longleftrightarrow> chans_inv (sv_alliance sv) \<and> chans_inv (sv_horde sv)"

definition env_ok :: "chan_env \<Rightarrow> bool" where
  "env_ok env \<longleftrightarrow> world_ok (ce_world env) \<and> utf8_codec (ce_dec env) (ce_enc env) \<and>
     w_normalizePlayerName (ce_world env) = normalizePlayerName (ce_dec env) (ce_enc env)"

lemma chans_set [simp]:
  "chans_inv m \<Longrightarrow> sv_inv sv \<Longrightarrow> sv_inv (set_chans t m sv)" "sv_inv sv \<Longrightarrow> chans_inv (chans t sv)"
  by (auto simp: sv_inv_def set_chans_def chans_def)

lemma sv_inv_other [simp]: "sv_inv (sv\<lparr>sv_idMax := i\<rparr>) = sv_inv sv" "sv_inv (sv\<lparr>sv_joined := j\<rparr>) = sv_inv sv"
  "sv_inv (sv\<lparr>sv_rights := r\<rparr>) = sv_inv sv"
  by (simp_all add: sv_inv_def)

lemma chans_inv_get: "chans_inv m \<Longrightarrow> map_of m k = Some ch \<Longrightarrow> chan_inv ch"
  by (force simp: chans_inv_def dest: map_of_SomeD)

lemma chans_inv_assign: "chans_inv m \<Longrightarrow> chan_inv ch \<Longrightarrow> chans_inv (um_assign n k ch m)"
proof -
  assume m: "chans_inv m" and ch: "chan_inv ch"
  then have v: "um_valid (um_assign n k ch m)" by (simp add: chans_inv_def um.valid_assign)
  have find: "map_of (um_assign n k ch m) = (map_of m)(k \<mapsto> ch)"
    using m by (simp add: chans_inv_def um.find_assign)
  have "chan_inv c" if "(j, c) \<in> set (um_assign n k ch m)" for j c
  proof -
    have "map_of (um_assign n k ch m) j = Some c"
      using in_set_iff_map_of [of "um_assign n k ch m" j c] v that by (simp add: um_valid_def)
    then show ?thesis
      unfolding find using ch chans_inv_get [OF m, of j c] by (cases "j = k") simp_all
  qed
  with v show ?thesis unfolding chans_inv_def by fastforce
qed

lemma update_is_assign: "map_of m k = Some c \<Longrightarrow> AList.update k ch m = um_assign n k ch m"
  by (simp add: um_assign_def has_key_def)

lemma on_object_inv:
  assumes x: "triple chan_inv x chan_inv not_null"
  shows "triple sv_inv (on_object env k x) sv_inv not_null"
proof (rule tripleI)
  fix sv assume sv: "sv_inv sv"
  show "sv_inv (fst (on_object env k x sv)) \<and> list_all not_null (snd (on_object env k x sv))"
  proof (cases "map_of (chans (fst k) sv) (snd k)")
    case None
    then show ?thesis using sv by (simp add: on_object_def)
  next
    case (Some ch)
    have m: "chans_inv (chans (fst k) sv)" using sv by simp
    then have "chan_inv ch" using Some by (rule chans_inv_get)
    then have r: "chan_inv (fst (x ch))" "list_all not_null (snd (x ch))"
      using x by (simp_all add: triple_def)
    show ?thesis
      using sv r chans_inv_assign [OF m r(1), of 0 "snd k"] Some
      by (simp add: on_object_def Let_def update_is_assign [OF Some, of _ 0])
  qed
qed

lemma on_named_inv:
  assumes "triple chan_inv x chan_inv not_null"
  shows "triple sv_inv (on_named env p name pkt x) sv_inv not_null"
proof (rule tripleI)
  fix sv assume sv: "sv_inv sv"
  show "sv_inv (fst (on_named env p name pkt x sv)) \<and> list_all not_null (snd (on_named env p name pkt x sv))"
    using sv on_object_inv [OF assms]
    by (auto simp: on_named_def GetChannel_def triple_def split: option.split)
qed

lemma with_target_inv:
  assumes "env_ok env"
    and "\<And>n. w_normalizePlayerName (ce_world env) n = Some n \<Longrightarrow> triple sv_inv (k n) sv_inv not_null"
  shows "triple sv_inv (with_target env target k) sv_inv not_null"
  using assms normalize_again [of "ce_dec env" "ce_enc env" target]
  by (auto simp: with_target_def env_ok_def triple_skip split: option.split)

lemma ctor_init: "chan_init (fst (fst (Channel_ctor dbc rights pr m name cid dbid t a o' i)))"
  by (simp add: Channel_ctor_def chan_init_def Let_def split: option.split)

lemma ctor_effects: "list_all not_null (snd (Channel_ctor dbc rights pr m name cid dbid t a o' i))"
  by (simp add: Channel_ctor_def Let_def split: option.split)

lemma GetJoinChannel_inv: "triple sv_inv (GetJoinChannel env t name cid) sv_inv not_null"
proof (rule tripleI)
  fix sv assume sv: "sv_inv sv"
  have new: "sv_inv (set_chans t (um_assign n k (fst (fst (Channel_ctor dbc rights pr m name cid 0 t True True i)))
      (chans t sv)) sv)" for n k dbc rights pr m i
    using sv by (intro chans_set chans_inv_assign chan_init_inv ctor_init)
  show "sv_inv (fst (GetJoinChannel env t name cid sv)) \<and>
      list_all not_null (snd (GetJoinChannel env t name cid sv))"
    using sv by (cases "map_of (chans t sv) (chan_key env name)")
      (simp_all add: GetJoinChannel_def Let_def new ctor_effects)
qed

section \<open>The server as a component\<close>

datatype chan_cmd =
    CmdJoin u32 string string | CmdLeave string | CmdList string | CmdPassword string string
  | CmdSetOwner string string | CmdOwner string | CmdModerator string string
  | CmdUnmoderator string string | CmdMute string string | CmdUnmute string string
  | CmdInvite string string | CmdKick string string | CmdBan string string | CmdUnban string string
  | CmdAnnouncements string | CmdModerate string | CmdMemberCount string | CmdSetWatch string
  | CmdClearWatch string | CmdLogout

fun run_cmd :: "chan_env \<Rightarrow> guid \<Rightarrow> chan_cmd \<Rightarrow> (chan_server, chan_effect) act" where
  "run_cmd env p (CmdJoin cid name pass) = HandleJoinChannel env p cid name pass"
| "run_cmd env p (CmdLeave name) = HandleLeaveChannel env p name"
| "run_cmd env p (CmdList name) = HandleChannelList env p name"
| "run_cmd env p (CmdPassword name pass) = HandleChannelPassword env p name pass"
| "run_cmd env p (CmdSetOwner name t) = HandleChannelSetOwner env p name t"
| "run_cmd env p (CmdOwner name) = HandleChannelOwner env p name"
| "run_cmd env p (CmdModerator name t) = HandleChannelModerator env p name t"
| "run_cmd env p (CmdUnmoderator name t) = HandleChannelUnmoderator env p name t"
| "run_cmd env p (CmdMute name t) = HandleChannelMute env p name t"
| "run_cmd env p (CmdUnmute name t) = HandleChannelUnmute env p name t"
| "run_cmd env p (CmdInvite name t) = HandleChannelInvite env p name t"
| "run_cmd env p (CmdKick name t) = HandleChannelKick env p name t"
| "run_cmd env p (CmdBan name t) = HandleChannelBan env p name t"
| "run_cmd env p (CmdUnban name t) = HandleChannelUnban env p name t"
| "run_cmd env p (CmdAnnouncements name) = HandleChannelAnnouncements env p name"
| "run_cmd env p (CmdModerate name) = HandleChannelModerateOpcode env p name"
| "run_cmd env p (CmdMemberCount name) = HandleGetChannelMemberCount env p name"
| "run_cmd env p (CmdSetWatch name) = HandleSetChannelWatch env p name"
| "run_cmd env p (CmdClearWatch name) = HandleClearChannelWatch env p name"
| "run_cmd env p CmdLogout = CleanupChannels env p"

lemma HandleJoinChannel_inv:
  "p \<noteq> 0 \<Longrightarrow> triple sv_inv (HandleJoinChannel env p cid name pass) sv_inv not_null"
proof -
  assume p: "p \<noteq> 0"
  have join: "triple sv_inv (case team_of env p of None \<Rightarrow> skip
     | Some t \<Rightarrow> andThen (GetJoinChannel env t name cid)
         (on_object env (t, chan_key env name) (JoinChannel (ce_world env) p pass))) sv_inv not_null"
    by (auto simp: triple_skip split: option.split
        intro: triple_andThen [OF GetJoinChannel_inv on_object_inv [OF JoinChannel_inv [OF p]]])
  show ?thesis
    unfolding HandleJoinChannel_def DisallowHyperlinksAndMaybeKick_def
    by (auto simp: triple_skip triple_emit join split: bool.split)
qed

lemma ClearChannelWatch_inv: "triple sv_inv (ClearChannelWatch env p) sv_inv not_null"
  unfolding ClearChannelWatch_def
  by (rule triple_load, rule triple_pre [OF triple_each [where P = sv_inv]])
    (auto intro: on_object_inv RemoveWatching_inv)

lemma CleanupChannels_inv: "triple sv_inv (CleanupChannels env p) sv_inv not_null"
proof -
  have "triple sv_inv (acts [upd (\<lambda>sv. sv\<lparr>sv_joined := (sv_joined sv)(p := tl (sv_joined sv p))\<rparr>),
        on_object env k (LeaveChannel (ce_world env) p False)]) sv_inv not_null" for k
    by (rule triple_acts_inv) (auto intro: triple_upd on_object_inv LeaveChannel_inv)
  then show ?thesis
    unfolding CleanupChannels_def
    by (intro triple_load triple_pre [OF triple_each [where P = sv_inv]]) auto
qed

lemma run_cmd_inv:
  assumes env: "env_ok env" and p: "p \<noteq> 0"
  shows "triple sv_inv (run_cmd env p cmd) sv_inv not_null"
proof (cases cmd)
  case CmdJoin
  then show ?thesis using HandleJoinChannel_inv [OF p] by simp
next
  case CmdSetWatch
  then show ?thesis
    by (auto simp: HandleSetChannelWatch_def intro!: triple_andThen [OF ClearChannelWatch_inv]
        triple_skip on_named_inv AddWatching_inv)
next
  case CmdLogout
  then show ?thesis by (simp add: CleanupChannels_inv)
next
  case CmdMemberCount
  then show ?thesis
    by (auto simp: HandleGetChannelMemberCount_def intro!: on_named_inv triple_emit)
qed (use env in \<open>auto simp: HandleLeaveChannel_def HandleChannelList_def HandleChannelPassword_def
   HandleChannelSetOwner_def HandleChannelOwner_def HandleChannelModerator_def HandleChannelUnmoderator_def
   HandleChannelMute_def HandleChannelUnmute_def HandleChannelInvite_def HandleChannelKick_def
   HandleChannelBan_def HandleChannelUnban_def HandleChannelAnnouncements_def HandleChannelModerateOpcode_def
   HandleClearChannelWatch_def Kick_def Ban_def env_ok_def
   intro!: triple_skip with_target_inv on_named_inv LeaveChannel_inv ListMembers_inv Password_inv SetOwner_inv
   SendWhoOwner_inv SetMode_inv Invite_inv KickOrBan_inv UnBan_inv Announce_inv ToggleModeration_inv
   RemoveWatching_inv\<close>)

lemma load_bans_inv: "chan_inv ch \<Longrightarrow> chan_inv (load_bans w bans ch)"
proof (induction bans arbitrary: ch)
  case (Cons b bans)
  obtain g t where b: "b = (g, t)" by (cases b)
  have "chan_inv (fst (AddBan w (guid_plain HG_Player g) t ch))"
    using tripleD [OF AddBan_inv Cons.prems] by blast
  then show ?case using Cons.IH by (simp add: load_bans_def b)
qed (simp add: load_bans_def)

lemma LoadChannel_inv: "sv_inv (fst st) \<Longrightarrow> sv_inv (fst (LoadChannel env bans row st))"
proof -
  assume st: "sv_inv (fst st)"
  have pw: "triple chan_inv (SetPassword pw) chan_inv not_null" for pw
    by (simp add: SetPassword_def triple_upd_frame)
  have ch: "chan_inv (load_bans w b (fst (SetPassword pw (fst (fst (Channel_ctor dbc rights pr m n c d t a o' i))))))"
    for w b pw dbc rights pr m n c d t a o' i
    using tripleD [OF pw chan_init_inv [OF ctor_init]] by (intro load_bans_inv) blast
  have "sv_inv (set_chans t (um_assign n k
     (load_bans w b (fst (SetPassword pw (fst (fst (Channel_ctor dbc rights pr m nm c d tm a o' i))))))
     (chans t (fst st))) (fst st))" for t n k w b pw dbc rights pr m nm c d tm a o' i
    using st ch by (intro chans_set chans_inv_assign)
  then show ?thesis
    using st by (auto simp: LoadChannel_def Let_def split: prod.split option.split)
qed

lemma LoadChannels_inv: "sv_inv sv \<Longrightarrow> sv_inv (fst (LoadChannels env rows bans sv))"
proof -
  have "sv_inv (fst st) \<Longrightarrow> sv_inv (fst (foldl (\<lambda>st row. LoadChannel env bans row st) st rows))" for st
  proof (induction rows arbitrary: st)
    case (Cons row rows)
    show ?case unfolding foldl.simps by (rule Cons.IH) (rule LoadChannel_inv [OF Cons.prems])
  qed simp
  then show "sv_inv sv \<Longrightarrow> sv_inv (fst (LoadChannels env rows bans sv))"
    by (simp add: LoadChannels_def Let_def)
qed

text \<open>A step of the server: a packet of a player (or his logging out), loading the channels or
  the channel rights, or a rehash of one channel's members.\<close>

inductive sv_step :: "chan_server \<Rightarrow> chan_server \<Rightarrow> bool" where
  sv_step_cmd: "env_ok env \<Longrightarrow> p \<noteq> 0 \<Longrightarrow> sv_step sv (fst (run_cmd env p cmd sv))"
| sv_step_load: "sv_step sv (fst (LoadChannels env rows bans sv))"
| sv_step_rights: "sv_step sv (sv\<lparr>sv_rights := LoadChannelRights rrows\<rparr>)"
| sv_step_rehash: "map_of (chans t sv) k = Some ch \<Longrightarrow> mset m = mset (playersStore ch) \<Longrightarrow>
     sv_step sv (set_chans t (AList.update k (ch\<lparr>playersStore := m\<rparr>) (chans t sv)) sv)"

definition sv_init :: "chan_server \<Rightarrow> bool" where
  "sv_init sv \<longleftrightarrow> sv_alliance sv = [] \<and> sv_horde sv = []"

lemma sv_step_inv:
  assumes sv: "sv_inv sv" and step: "sv_step sv sv'"
  shows "sv_inv sv'"
  using step
proof cases
  case (sv_step_cmd env p cmd)
  then show ?thesis using run_cmd_inv [of env p cmd] sv by (simp add: triple_def)
next
  case (sv_step_load env rows bans)
  then show ?thesis using sv by (simp add: LoadChannels_inv)
next
  case (sv_step_rights rows)
  then show ?thesis using sv by simp
next
  case (sv_step_rehash t k ch m)
  have cs: "chans_inv (chans t sv)" using sv by simp
  have "chan_inv (ch\<lparr>playersStore := m\<rparr>)"
    using chan_step_inv [OF chans_inv_get [OF cs sv_step_rehash(2)] chan_step_rehash [OF sv_step_rehash(3)]] .
  then show ?thesis
    using sv chans_inv_assign [OF cs, of _ 0 k]
    by (simp add: sv_step_rehash(1) update_is_assign [OF sv_step_rehash(2), of _ 0])
qed

lemma sv_init_inv: "sv_init sv \<Longrightarrow> sv_inv sv"
  by (simp add: sv_init_def sv_inv_def chans_inv_def um_valid_def)

interpretation srv: component sv_init sv_step sv_inv
  by (unfold_locales; blast intro: sv_init_inv sv_step_inv)

section \<open>Guarantees of the managers\<close>

definition demo_env :: chan_env where
  "demo_env = \<lparr>ce_world = demo_world\<lparr>w_normalizePlayerName := normalizePlayerName ascii_dec ascii_enc\<rparr>,
     ce_dec = ascii_dec, ce_enc = ascii_enc, ce_dbc = (\<lambda>_. None), ce_zone = (\<lambda>_. None),
     ce_guildId = (\<lambda>_. 0), ce_moderation0 = False, cfg_PreserveCustomChannels = True,
     cfg_LfgLocationAll = True, cfg_StrictLinkKick = True\<rparr>"

definition demo_server :: chan_server where
  "demo_server = \<lparr>sv_alliance = [], sv_horde = [], sv_rights = [], sv_idMax = 0, sv_joined = (\<lambda>_. [])\<rparr>"

text \<open>C5: in every state the server reaches, whatever players send and whenever channels are
  loaded, each custom channel that hands out ownership and has members has its recorded owner
  among them, and no packet handler follows a null player pointer.\<close>

theorem server_channels_owned:
  assumes "sv_init sv0" and "sv_step\<^sup>*\<^sup>* sv0 sv" and "env_ok env" and "p \<noteq> 0"
  shows "NullDeref \<notin> set (snd (run_cmd env p cmd sv)) \<and>
     (map_of (chans t sv) k = Some ch \<longrightarrow> ch_ownership ch \<longrightarrow> \<not> IsConstant ch \<longrightarrow> playersStore ch \<noteq> [] \<longrightarrow>
        IsOn ch (ch_ownerGUID ch) \<and> IsOwner (slot ch (ch_ownerGUID ch)))"
proof -
  have inv: "sv_inv sv" using assms(1,2) by (rule srv.reachable_inv)
  have "chan_inv ch" if "map_of (chans t sv) k = Some ch"
    using inv that by (intro chans_inv_get [OF chans_set(2)])
  then show ?thesis
    using inv run_cmd_inv [OF assms(3,4), of cmd]
    by (auto simp: triple_def list_all_iff chan_inv_def owned_def owner_ok_def)
qed

lemma demo_env_ok: "env_ok demo_env"
proof -
  have c: "char_of (65 :: nat) = CHR ''A''" "char_of (110 :: nat) = CHR ''n''" "char_of (66 :: nat) = CHR ''B''"
    "char_of (111 :: nat) = CHR ''o''" "char_of (98 :: nat) = CHR ''b''" "char_of (67 :: nat) = CHR ''C''"
    "char_of (105 :: nat) = CHR ''i''" "char_of (100 :: nat) = CHR ''d''" by code_simp+
  have "normalizePlayerName ascii_dec ascii_enc n = Some n" if "n \<in> {''Ann'', ''Bob'', ''Cid''}" for n
    using that c
    by (auto simp: normalizePlayerName_def ascii_dec_def ascii_enc_def wstrToLower_def case_defs)
  then show ?thesis
    using ascii_codec
    by (auto simp: env_ok_def demo_env_def world_ok_def demo_world_def demo_find_def demo_player_def)
qed

theorem server_channels_owned_witness:
  "NullDeref \<notin> set (snd (run_cmd demo_env 1 (CmdJoin 0 ''World'' []) demo_server))"
  by (rule server_channels_owned [THEN conjunct1, OF _ rtranclp.rtrancl_refl demo_env_ok])
    (simp_all add: sv_init_def demo_server_def)

text \<open>C10: channel names are found whatever their case: after \<open>GetJoinChannel\<close> with a name,
  every name with the same lower case form finds that channel, and joining under it creates
  nothing new.\<close>

theorem channel_names_caseless:
  assumes "sv_inv sv" and "chan_key env name' = chan_key env name"
    and sv': "sv' = fst (GetJoinChannel env t name cid sv)"
  shows "\<exists>ch. fst (GetChannel env t name' p pkt sv') = Some ch \<and> GetJoinChannel env t name' cid' sv' = (sv', [])"
proof -
  have m: "um_valid (chans t sv)" using assms(1) chans_set(2) [of sv t] by (simp add: chans_inv_def)
  have "map_of (chans t sv') (chan_key env name) \<noteq> None"
  proof (cases "map_of (chans t sv) (chan_key env name)")
    case None
    have "chans t (s\<lparr>sv_idMax := i\<rparr>) = chans t s" "chans t (set_chans t c s) = c" for s i c
      by (simp_all add: chans_def set_chans_def)
    then show ?thesis using None m by (simp add: sv' GetJoinChannel_def Let_def um.find_assign)
  next
    case (Some ch)
    then show ?thesis by (simp add: sv' GetJoinChannel_def)
  qed
  then show ?thesis using assms(2) by (auto simp: GetChannel_def GetJoinChannel_def)
qed

theorem channel_names_caseless_witness:
  "\<exists>ch. fst (GetChannel demo_env TEAM_ALLIANCE ''WORLD'' 1 True
     (fst (GetJoinChannel demo_env TEAM_ALLIANCE ''World'' 0 demo_server))) = Some ch"
proof -
  have "sv_inv demo_server" by (rule sv_init_inv) (simp add: sv_init_def demo_server_def)
  moreover have "chan_key demo_env ''WORLD'' = chan_key demo_env ''World''"
    by (simp add: chan_key_def demo_env_def ascii_dec_def wstrToLower_def case_defs)
  ultimately show ?thesis using channel_names_caseless [OF _ _ refl] by blast
qed

text \<open>C17: a saved channel whose name has an upper case character cannot be found after the
  channels are loaded: it is filed under the name as saved, while every lookup is for a lower
  case name. A player who joins by the saved name gets a new channel instead.\<close>

theorem saved_channel_lost:
  assumes "sv_alliance sv = []" and dec: "ce_dec env name = Some wname" and upper: "wstrToLower wname \<noteq> wname"
    and "dbid > 0"
    and sv': "sv' = fst (LoadChannels env [(dbid, name, 0, a, ow, pw)] bans sv)"
  shows "(\<exists>ch. map_of (sv_alliance sv') wname = Some ch \<and> ch_channelDBId ch = dbid) \<and>
     fst (GetChannel env TEAM_ALLIANCE name' p pkt sv') = None"
proof -
  have db: "ch_channelDBId (load_bans w bs ch) = ch_channelDBId ch" for w bs ch
    unfolding load_bans_def by (induction bs arbitrary: ch) (auto simp: AddBan_def act_eval)
  let ?ch = "load_bans (ce_world env) (bans dbid) (fst (SetPassword pw (fst (fst (Channel_ctor (ce_dbc env)
     (GetChannelRightsFor (sv_rights sv)) (cfg_PreserveCustomChannels env) (ce_moderation0 env) name 0 dbid
     TEAM_ALLIANCE (a \<noteq> 0) (ow \<noteq> 0) (sv_idMax sv))))))"
  have id: "ch_channelDBId ?ch = dbid"
    using assms(4) by (simp add: db SetPassword_def act_eval Channel_ctor_def Let_def split: option.split)
  have team: "forTeam (ce_world env) TEAM_ALLIANCE = Some TEAM_ALLIANCE" "team_of_u32 0 = TEAM_ALLIANCE"
    by (simp_all add: forTeam_def team_of_u32_def)
  have "um_assign n k ch [] = [(k, ch)]" for n k and ch :: Channel
    by (cases n) (simp_all add: um_assign_def has_key_def)
  then have sv: "sv_alliance sv' = [(wname, ?ch)]"
    using assms(1) by (simp add: sv' LoadChannels_def LoadChannel_def Let_def dec team chans_def set_chans_def)
  have "wname \<noteq> chan_key env name'"
    using upper wstrToLower_idem unfolding chan_key_def by metis
  then show ?thesis using id by (simp add: sv GetChannel_def chans_def)
qed

theorem saved_channel_lost_witness:
  "fst (GetChannel demo_env TEAM_ALLIANCE ''World'' 1 True
     (fst (LoadChannels demo_env [(7, ''World'', 0, 1, 1, [])] (\<lambda>_. []) demo_server))) = None"
proof -
  have "ce_dec demo_env ''World'' = Some (map of_char ''World'')"
    "wstrToLower (map of_char ''World'') \<noteq> map of_char ''World''"
    by (simp_all add: demo_env_def ascii_dec_def wstrToLower_def case_defs)
  then show ?thesis by (intro saved_channel_lost [THEN conjunct2, OF _ _ _ _ refl]) (simp_all add: demo_server_def)
qed

text \<open>Channel rights are kept per lower case name: what \<open>SetChannelRightsFor\<close> stores is
  what \<open>GetChannelRightsFor\<close> returns under every spelling, and no other name is affected.\<close>

theorem channel_rights_lookup:
  "GetChannelRightsFor (SetChannelRightsFor name r rights) name' =
     (if List.map tolower_ascii name' = List.map tolower_ascii name then r
      else GetChannelRightsFor rights name')"
  by (simp add: GetChannelRightsFor_def SetChannelRightsFor_def map_of_om_assign)

text \<open>The moderator accounts of a row are the numbers in it that fit 32 bits and are not 0,
  without repetition.\<close>

theorem moderator_accounts_correct:
  "distinct (moderator_accounts s) \<and>
   (v \<in> set (moderator_accounts s) \<longleftrightarrow>
      v \<noteq> 0 \<and> (\<exists>tok \<in> set (Tokenize s (CHR '' '') False). StringTo_u64 tok = Some (ucast v)))"
proof -
  let ?f = "\<lambda>acc tok. let a = (case StringTo_u64 tok of Some v \<Rightarrow> v | None \<Rightarrow> 0)
        in if a \<noteq> 0 \<and> ucast (ucast a :: u32) = a then insort_insert (ucast a :: u32) acc else acc"
  let ?ok = "\<lambda>tok v. v \<noteq> 0 \<and> StringTo_u64 tok = Some (ucast (v :: u32))"
  have down: "ucast (ucast v :: u64) = v" "(ucast v :: u64) = 0 \<longleftrightarrow> v = 0" for v :: u32
    by (transfer, simp)+
  have step: "distinct (?f acc tok) \<and> (v \<in> set (?f acc tok) \<longleftrightarrow> v \<in> set acc \<or> ?ok tok v)"
    if "distinct acc" for acc tok v
  proof (cases "StringTo_u64 tok")
    case None
    then show ?thesis using that by simp
  next
    case (Some a)
    have "ucast (ucast a :: u32) = a \<Longrightarrow> (a = ucast v) = (ucast a = v)" for v :: u32
      using down by metis
    then show ?thesis
      using that Some down
      by (auto simp: Let_def set_insort_insert distinct_insort_insert)
  qed
  have "distinct acc \<Longrightarrow> distinct (foldl ?f acc toks) \<and>
      (v \<in> set (foldl ?f acc toks) \<longleftrightarrow> v \<in> set acc \<or> (\<exists>tok \<in> set toks. ?ok tok v))" for acc toks
    by (induction toks arbitrary: acc) (use step in \<open>auto simp del: Let_def\<close>)
  from this [of "[]"] show ?thesis by (auto simp: moderator_accounts_def Tokenize.simps)
qed
end
