(* ===== verification/Binary32.thy ===== *)
theory Binary32
  imports Prelude "HOL-Library.Log_Nat" Complex_Main
begin

text \<open>
  The \<open>float\<close> arithmetic of the reputation code: a finite \<open>float\<close> is the rational number it
  stands for, a product is the exact product rounded to the nearest binary32 number, ties to
  even (IEEE 754, the mode of the target). Overflow to infinity and NaN are left out: the
  factors are configuration rates and reputation amounts.
\<close>

definition pow2 :: "int \<Rightarrow> rat" where
  "pow2 e = (if 0 \<le> e then 2 ^ nat e else 1 / 2 ^ nat (- e))"

text \<open>The exponent: the largest \<open>e\<close> with \<open>2 ^ e \<le> x\<close>, for a positive \<open>x\<close>.\<close>

definition ilog2 :: "rat \<Rightarrow> int" where
  "ilog2 x = (let e = bitlen (fst (quotient_of x)) - bitlen (snd (quotient_of x))
              in if pow2 e \<le> x then e else e - 1)"

definition round_even :: "rat \<Rightarrow> int" where
  "round_even y = (let n = floor y; r = y - of_int n
     in if r < 1 / 2 then n else if r > 1 / 2 then n + 1 else if even n then n else n + 1)"

definition fl :: "rat \<Rightarrow> rat" where
  "fl x = (if x = 0 then 0
           else let u = pow2 (max (ilog2 \<bar>x\<bar>) (-126) - 23) in u * of_int (round_even (x / u)))"

definition fmul :: "rat \<Rightarrow> rat \<Rightarrow> rat" where
  "fmul x y = fl (x * y)"

text \<open>\<open>static_cast\<close> to an integer drops the fraction.\<close>

definition ftrunc :: "rat \<Rightarrow> int" where
  "ftrunc x = (if x < 0 then ceiling x else floor x)"

lemma pow2_pos [simp]: "0 < pow2 e"
  by (simp add: pow2_def)

lemma round_even_int [simp]: "round_even (of_int n) = n"
  by (simp add: round_even_def Let_def)

lemma ftrunc_int [simp]: "ftrunc (of_int n) = n"
  by (simp add: ftrunc_def)

lemma ceiling_or_trunc:
  "\<bar>of_int (ftrunc x) - x\<bar> < 1" "\<bar>of_int (ceiling x) - x\<bar> < (1 :: rat)"
  by (auto simp: ftrunc_def abs_if) linarith+

lemma ilog2_int: "0 < n \<Longrightarrow> n < 2 ^ 24 \<Longrightarrow> ilog2 (of_int n) \<le> 23"
proof -
  assume n: "0 < n" "n < 2 ^ 24"
  have "bitlen n \<le> 24" using n bitlen_le_iff_power [of n 24] by simp
  moreover have "bitlen 1 = 1" by (simp add: bitlen_alt_def)
  ultimately show ?thesis by (auto simp: ilog2_def Let_def)
qed

lemma fl_int:
  assumes "\<bar>n\<bar> < 2 ^ 24"
  shows "fl (of_int n) = of_int n"
proof (cases "n = 0")
  case False
  let ?e = "max (ilog2 \<bar>of_int n\<bar>) (-126) - 23"
  have e: "?e \<le> 0" using ilog2_int [of "\<bar>n\<bar>"] assms False by simp
  then have u: "pow2 ?e = 1 / 2 ^ nat (- ?e)" by (cases "?e = 0") (simp_all add: pow2_def)
  have "of_int n / pow2 ?e = of_int (n * 2 ^ nat (- ?e))" by (simp add: u)
  then have "round_even (of_int n / pow2 ?e) = n * 2 ^ nat (- ?e)" by (metis round_even_int)
  then show ?thesis using False by (simp add: fl_def Let_def u)
qed (simp add: fl_def)

end
