(* ===== verification/Reputation.thy ===== *)
theory Reputation
  imports Binary32 Containers
begin

text \<open>
  The reputation of a player (\<open>src/src/server/game/Reputation/ReputationMgr.cpp\<close> and \<open>.h\<close>):
  ranks and standings, the table of factions, the counters of honored, revered and exalted
  factions, gains with their spillover to related factions, visibility and war flags,
  loading, saving and the packets. Standings are 32-bit signed: sums are wrapped by
  \<open>int32\<close>. Client data (\<open>Faction.dbc\<close>), the spillover tables, the player's race and class,
  the script hook and the value of an out-of-range float conversion are inputs (\<open>rep_env\<close>).
\<close>

section \<open>Data\<close>

definition int32 :: "int \<Rightarrow> int" where
  "int32 x = signed_take_bit 31 x"

text \<open>A rank is its number, from 0 (hated) to 7 (exalted).\<close>

type_synonym ReputationRank = nat

definition REP_HATED :: ReputationRank where "REP_HATED = 0"
definition REP_HOSTILE :: ReputationRank where "REP_HOSTILE = 1"
definition REP_NEUTRAL :: ReputationRank where "REP_NEUTRAL = 3"
definition REP_HONORED :: ReputationRank where "REP_HONORED = 5"
definition REP_REVERED :: ReputationRank where "REP_REVERED = 6"
definition REP_EXALTED :: ReputationRank where "REP_EXALTED = 7"

lemmas rep_ranks = REP_HATED_def REP_HOSTILE_def REP_NEUTRAL_def REP_HONORED_def REP_REVERED_def
  REP_EXALTED_def

definition FACTION_FLAG_VISIBLE :: u8 where "FACTION_FLAG_VISIBLE = 0x01"
definition FACTION_FLAG_AT_WAR :: u8 where "FACTION_FLAG_AT_WAR = 0x02"
definition FACTION_FLAG_HIDDEN :: u8 where "FACTION_FLAG_HIDDEN = 0x04"
definition FACTION_FLAG_INVISIBLE_FORCED :: u8 where "FACTION_FLAG_INVISIBLE_FORCED = 0x08"
definition FACTION_FLAG_PEACE_FORCED :: u8 where "FACTION_FLAG_PEACE_FORCED = 0x10"
definition FACTION_FLAG_INACTIVE :: u8 where "FACTION_FLAG_INACTIVE = 0x20"
definition FACTION_FLAG_SPECIAL :: u8 where "FACTION_FLAG_SPECIAL = 0x80"

record FactionState =
  fs_ID :: u32
  fs_ListID :: u32
  fs_Standing :: int
  fs_Flags :: u8
  fs_needSend :: bool
  fs_needSave :: bool
  fs_roundedUp :: bool

definition fs_zero :: FactionState where
  "fs_zero = \<lparr>fs_ID = 0, fs_ListID = 0, fs_Standing = 0, fs_Flags = 0, fs_needSend = False,
     fs_needSave = False, fs_roundedUp = False\<rparr>"

record ReputationMgr =
  rm_factions :: "(u32 \<times> FactionState) list"
  rm_forced :: "(u32 \<times> ReputationRank) list"
  rm_visible :: u8
  rm_honored :: u8
  rm_revered :: u8
  rm_exalted :: u8
  rm_sendIncreased :: bool

text \<open>A row of \<open>Faction.dbc\<close>; the arrays have four elements.\<close>

record FactionEntry =
  fe_ID :: u32
  fe_listID :: int
  fe_raceMask :: "u32 list"
  fe_classMask :: "u32 list"
  fe_baseValue :: "int list"
  fe_repFlags :: "u32 list"
  fe_team :: u32
  fe_rateIn :: rat
  fe_rateOut :: rat
  fe_maxRankIn :: u32

record RepSpill =
  sp_faction :: "u32 list"
  sp_rate :: "rat list"
  sp_rank :: "u32 list"

definition MAX_SPILLOVER_FACTIONS :: nat where "MAX_SPILLOVER_FACTIONS = 4"

record rep_env =
  re_faction :: "u32 \<Rightarrow> FactionEntry option"
  re_numRows :: nat
  re_raceMask :: u32
  re_classMask :: u32
  re_spill :: "u32 \<Rightarrow> RepSpill option"
  re_teamList :: "u32 \<Rightarrow> u32 list option"
  re_gainRate :: rat
  re_hook :: "u32 \<Rightarrow> int \<Rightarrow> bool \<Rightarrow> bool \<times> int"
  re_badCast :: "rat \<Rightarrow> int"
  re_loading :: bool
  re_guid :: u32

datatype rep_opcode = SMSG_SET_FORCED_REACTIONS | SMSG_SET_FACTION_STANDING
  | SMSG_INITIALIZE_FACTIONS | SMSG_SET_FACTION_VISIBLE

datatype rep_field = R8 u8 | R32 u32 | RFloat rat

datatype rep_criteria = KNOWN_FACTIONS | GAIN_REPUTATION | GAIN_EXALTED_REPUTATION
  | GAIN_REVERED_REPUTATION | GAIN_HONORED_REPUTATION

datatype rep_effect =
    RepPacket rep_opcode "rep_field list"
  | RankChange u32 ReputationRank ReputationRank bool
  | ReputationChanged u32
  | CriteriaUpdate rep_criteria u32
  | DelReputation u32 u16
  | InsReputation u32 u16 int u16
  | RepNullDeref

type_synonym rep_act = "(ReputationMgr, rep_effect) act"

section \<open>Ranks and standings\<close>

definition PointsInRank :: "int list" where
  "PointsInRank = [36000, 3000, 3000, 3000, 6000, 12000, 21000, 1000]"

definition Reputation_Cap :: int where "Reputation_Cap = 42999"
definition Reputation_Bottom :: int where "Reputation_Bottom = -42000"

text \<open>The loop of \<open>ReputationToRank\<close> from rank \<open>n - 1\<close> down.\<close>

fun rank_loop :: "int \<Rightarrow> int \<Rightarrow> nat \<Rightarrow> ReputationRank" where
  "rank_loop standing limit 0 = 0"
| "rank_loop standing limit (Suc i) =
     (let limit' = limit - PointsInRank ! i
      in if standing \<ge> limit' then i else rank_loop standing limit' i)"

definition ReputationToRank :: "int \<Rightarrow> ReputationRank" where
  "ReputationToRank standing = rank_loop standing (Reputation_Cap + 1) 8"

definition ReputationRankToStanding :: "ReputationRank \<Rightarrow> int" where
  "ReputationRankToStanding rank =
     (let standing = foldl (\<lambda>s i. s + PointsInRank ! i) Reputation_Bottom [0..<rank + 1]
      in max (standing - 1) Reputation_Bottom)"

section \<open>Reading\<close>

definition list_key :: "FactionEntry \<Rightarrow> u32" where
  "list_key fe = word_of_int (fe_listID fe)"

definition CanHaveReputation :: "FactionEntry \<Rightarrow> bool" where
  "CanHaveReputation fe \<longleftrightarrow> fe_listID fe \<ge> 0"

definition GetState :: "ReputationMgr \<Rightarrow> FactionEntry \<Rightarrow> FactionState option" where
  "GetState rm fe = (if CanHaveReputation fe then map_of (rm_factions rm) (list_key fe) else None)"

text \<open>The first of the four base entries whose race and class masks fit.\<close>

definition base_fits :: "rep_env \<Rightarrow> FactionEntry \<Rightarrow> nat \<Rightarrow> bool" where
  "base_fits env fe i \<longleftrightarrow>
     (fe_raceMask fe ! i AND re_raceMask env \<noteq> 0 \<or> (fe_raceMask fe ! i = 0 \<and> fe_classMask fe ! i \<noteq> 0)) \<and>
     (fe_classMask fe ! i AND re_classMask env \<noteq> 0 \<or> fe_classMask fe ! i = 0)"

definition GetBaseReputation :: "rep_env \<Rightarrow> FactionEntry option \<Rightarrow> int" where
  "GetBaseReputation env fe' =
     (case fe' of None \<Rightarrow> 0
      | Some fe \<Rightarrow> (case List.find (base_fits env fe) [0, 1, 2, 3] of Some i \<Rightarrow> fe_baseValue fe ! i | None \<Rightarrow> 0))"

definition GetDefaultStateFlags :: "rep_env \<Rightarrow> FactionEntry option \<Rightarrow> u32" where
  "GetDefaultStateFlags env fe' =
     (case fe' of None \<Rightarrow> 0
      | Some fe \<Rightarrow> (case List.find (base_fits env fe) [0, 1, 2, 3] of Some i \<Rightarrow> fe_repFlags fe ! i | None \<Rightarrow> 0))"

definition GetReputation :: "rep_env \<Rightarrow> ReputationMgr \<Rightarrow> FactionEntry option \<Rightarrow> int" where
  "GetReputation env rm fe' =
     (case fe' of None \<Rightarrow> 0
      | Some fe \<Rightarrow> (case GetState rm fe of
                      Some st \<Rightarrow> int32 (GetBaseReputation env fe' + fs_Standing st)
                    | None \<Rightarrow> 0))"

definition GetReputationById :: "rep_env \<Rightarrow> ReputationMgr \<Rightarrow> u32 \<Rightarrow> int" where
  "GetReputationById env rm id' =
     (case re_faction env id' of None \<Rightarrow> 0 | Some fe \<Rightarrow> GetReputation env rm (Some fe))"

definition GetRank :: "rep_env \<Rightarrow> ReputationMgr \<Rightarrow> FactionEntry option \<Rightarrow> ReputationRank" where
  "GetRank env rm fe' = ReputationToRank (GetReputation env rm fe')"

definition GetBaseRank :: "rep_env \<Rightarrow> FactionEntry option \<Rightarrow> ReputationRank" where
  "GetBaseRank env fe' = ReputationToRank (GetBaseReputation env fe')"

definition IsAtWar :: "ReputationMgr \<Rightarrow> FactionEntry option \<Rightarrow> bool" where
  "IsAtWar rm fe' =
     (case fe' of None \<Rightarrow> False
      | Some fe \<Rightarrow> (case GetState rm fe of
                      Some st \<Rightarrow> fs_Flags st AND FACTION_FLAG_AT_WAR \<noteq> 0
                    | None \<Rightarrow> False))"

definition IsAtWarById :: "rep_env \<Rightarrow> ReputationMgr \<Rightarrow> u32 \<Rightarrow> bool" where
  "IsAtWarById env rm id' =
     (case re_faction env id' of None \<Rightarrow> False | Some fe \<Rightarrow> IsAtWar rm (Some fe))"

definition GetForcedRankIfAny :: "ReputationMgr \<Rightarrow> u32 \<Rightarrow> ReputationRank option" where
  "GetForcedRankIfAny rm faction = map_of (rm_forced rm) faction"

definition ApplyForceReaction :: "u32 \<Rightarrow> ReputationRank \<Rightarrow> bool \<Rightarrow> rep_act" where
  "ApplyForceReaction faction rank apply' = upd (\<lambda>rm. rm\<lparr>rm_forced :=
     (if apply' then om_assign faction rank (rm_forced rm) else om_erase faction (rm_forced rm))\<rparr>)"

section \<open>Changing one faction\<close>

text \<open>A \<open>FactionState*\<close> points into the table: it is the key of the entry.\<close>

definition fstate :: "ReputationMgr \<Rightarrow> u32 \<Rightarrow> FactionState" where
  "fstate rm k = (case map_of (rm_factions rm) k of Some f \<Rightarrow> f | None \<Rightarrow> fs_zero)"

definition modify_faction :: "u32 \<Rightarrow> (FactionState \<Rightarrow> FactionState) \<Rightarrow> rep_act" where
  "modify_faction k f = upd (\<lambda>rm. rm\<lparr>rm_factions := om_modify k f (rm_factions rm)\<rparr>)"

definition has_flag :: "FactionState \<Rightarrow> u8 \<Rightarrow> bool" where
  "has_flag f m \<longleftrightarrow> fs_Flags f AND m \<noteq> 0"

definition FORCED_OR_HIDDEN :: u8 where
  "FORCED_OR_HIDDEN = FACTION_FLAG_INVISIBLE_FORCED OR FACTION_FLAG_HIDDEN"

definition set_fs_flag :: "u8 \<Rightarrow> bool \<Rightarrow> FactionState \<Rightarrow> FactionState" where
  "set_fs_flag m on f = f\<lparr>fs_Flags := (if on then fs_Flags f OR m else fs_Flags f AND NOT m),
     fs_needSend := True, fs_needSave := True\<rparr>"

definition SendVisible :: "rep_env \<Rightarrow> u32 \<Rightarrow> rep_act" where
  "SendVisible env k = (if re_loading env then skip
     else emit (\<lambda>rm. [RepPacket SMSG_SET_FACTION_VISIBLE [R32 (fs_ListID (fstate rm k))]]))"

definition SetVisibleState :: "rep_env \<Rightarrow> u32 \<Rightarrow> rep_act" where
  "SetVisibleState env k =
     cond (\<lambda>rm. has_flag (fstate rm k) FORCED_OR_HIDDEN \<and> \<not> has_flag (fstate rm k) FACTION_FLAG_SPECIAL) skip
     (cond (\<lambda>rm. has_flag (fstate rm k) FACTION_FLAG_VISIBLE) skip
     (acts
       [modify_faction k (set_fs_flag FACTION_FLAG_VISIBLE True),
        upd (\<lambda>rm. rm\<lparr>rm_visible := rm_visible rm + 1\<rparr>),
        SendVisible env k]))"

definition SetAtWarState :: "u32 \<Rightarrow> bool \<Rightarrow> rep_act" where
  "SetAtWarState k atWar =
     cond (\<lambda>rm. atWar \<and> has_flag (fstate rm k) FACTION_FLAG_PEACE_FORCED) skip
     (cond (\<lambda>rm. has_flag (fstate rm k) FACTION_FLAG_AT_WAR = atWar) skip
     (modify_faction k (set_fs_flag FACTION_FLAG_AT_WAR atWar)))"

definition SetInactiveState :: "u32 \<Rightarrow> bool \<Rightarrow> rep_act" where
  "SetInactiveState k inactive =
     cond (\<lambda>rm. inactive \<and> (has_flag (fstate rm k) FORCED_OR_HIDDEN \<or>
                         \<not> has_flag (fstate rm k) FACTION_FLAG_VISIBLE)) skip
     (cond (\<lambda>rm. has_flag (fstate rm k) FACTION_FLAG_INACTIVE = inactive) skip
     (modify_faction k (set_fs_flag FACTION_FLAG_INACTIVE inactive)))"

definition SetVisibleEntry :: "rep_env \<Rightarrow> FactionEntry \<Rightarrow> rep_act" where
  "SetVisibleEntry env fe =
     (if fe_listID fe < 0 then skip
      else cond (\<lambda>rm. \<not> has_key (list_key fe) (rm_factions rm)) skip (SetVisibleState env (list_key fe)))"

definition SetVisibleTemplate :: "rep_env \<Rightarrow> u32 \<Rightarrow> rep_act" where
  "SetVisibleTemplate env faction =
     (if faction = 0 then skip
      else case re_faction env faction of
        None \<Rightarrow> skip
      | Some fe \<Rightarrow>
          if \<not> (fe_raceMask fe ! 1 AND re_raceMask env \<noteq> 0 \<and> fe_baseValue fe ! 1 = Reputation_Bottom)
          then SetVisibleEntry env fe else skip)"

definition SetAtWar :: "u32 \<Rightarrow> bool \<Rightarrow> rep_act" where
  "SetAtWar k on =
     cond (\<lambda>rm. \<not> has_key k (rm_factions rm)) skip
     (cond (\<lambda>rm. has_flag (fstate rm k) FORCED_OR_HIDDEN) skip
     (SetAtWarState k on))"

definition SetInactive :: "u32 \<Rightarrow> bool \<Rightarrow> rep_act" where
  "SetInactive k on = cond (\<lambda>rm. \<not> has_key k (rm_factions rm)) skip (SetInactiveState k on)"

definition count_if :: "bool \<Rightarrow> u8" where
  "count_if b = (if b then 1 else 0)"

definition UpdateRankCounters :: "ReputationRank \<Rightarrow> ReputationRank \<Rightarrow> rep_act" where
  "UpdateRankCounters old_rank new_rank = upd (\<lambda>rm. rm\<lparr>
     rm_exalted := rm_exalted rm - count_if (old_rank \<ge> REP_EXALTED) + count_if (new_rank \<ge> REP_EXALTED),
     rm_revered := rm_revered rm - count_if (old_rank \<ge> REP_REVERED) + count_if (new_rank \<ge> REP_REVERED),
     rm_honored := rm_honored rm - count_if (old_rank \<ge> REP_HONORED) + count_if (new_rank \<ge> REP_HONORED)\<rparr>)"

section \<open>Gaining reputation\<close>

text \<open>\<open>static_cast<int32>\<close> of a float outside the range is undefined in C++; the value is then
  whatever the implementation gives.\<close>

definition cast_int32 :: "rep_env \<Rightarrow> rat \<Rightarrow> int" where
  "cast_int32 env x = (if - (2 ^ 31) - 1 < x \<and> x < 2 ^ 31 then ftrunc x else int32 (re_badCast env x))"

definition rounded_standing :: "rep_env \<Rightarrow> rat \<Rightarrow> bool \<Rightarrow> int \<times> bool" where
  "rounded_standing env stand roundedUp =
     (if \<bar>stand - of_int (ftrunc stand)\<bar> < 1
      then (if roundedUp then cast_int32 env (of_int (ceiling stand)) else cast_int32 env stand, \<not> roundedUp)
      else (0, roundedUp))"

definition clamp_standing :: "int \<Rightarrow> int" where
  "clamp_standing s =
     (if s > Reputation_Cap then Reputation_Cap else if s < Reputation_Bottom then Reputation_Bottom else s)"

text \<open>What \<open>SetOneFactionReputation\<close> computes before the hook: the new standing, the old and
  the new rank, and the rounding bit.\<close>

definition one_faction_plan ::
  "rep_env \<Rightarrow> FactionEntry \<Rightarrow> rat \<Rightarrow> bool \<Rightarrow> ReputationRank option \<Rightarrow> FactionState \<Rightarrow>
   int \<times> ReputationRank \<times> ReputationRank \<times> bool" where
  "one_faction_plan env fe stand0 incremental repMaxCap st =
     (let BaseRep = GetBaseReputation env (Some fe);
          stand = (if incremental then fmul stand0 (re_gainRate env) else stand0);
          r = rounded_standing env stand (fs_roundedUp st);
          standing0 = (if incremental then int32 (fst r + (fs_Standing st + BaseRep)) else fst r);
          standing = clamp_standing standing0;
          old_rank = ReputationToRank (int32 (fs_Standing st + BaseRep));
          new_rank = ReputationToRank standing
      in case repMaxCap of
           Some cap \<Rightarrow> if new_rank > cap then (ReputationRankToStanding cap, old_rank, cap, snd r)
                        else (standing, old_rank, new_rank, snd r)
         | None \<Rightarrow> (standing, old_rank, new_rank, snd r))"

text \<open>What follows once the hook has agreed, with the standing it leaves.\<close>

definition commit_standing ::
  "rep_env \<Rightarrow> FactionEntry \<Rightarrow> int \<Rightarrow> ReputationRank \<Rightarrow> ReputationRank \<Rightarrow> rep_act" where
  "commit_standing env fe standing old_rank new_rank = acts
     [modify_faction (list_key fe) (\<lambda>f. f\<lparr>fs_Standing := int32 (standing - GetBaseReputation env (Some fe)),
        fs_needSend := True, fs_needSave := True\<rparr>),
      SetVisibleState env (list_key fe),
      if new_rank \<le> REP_HOSTILE then SetAtWarState (list_key fe) True else skip,
      if new_rank > old_rank then upd (\<lambda>rm. rm\<lparr>rm_sendIncreased := True\<rparr>) else skip,
      if new_rank \<noteq> old_rank
      then emit (\<lambda>rm. [RankChange (fe_ID fe) new_rank old_rank (rm_sendIncreased rm)]) else skip,
      UpdateRankCounters old_rank new_rank,
      emit (\<lambda>_. ReputationChanged (fe_ID fe) # map (\<lambda>c. CriteriaUpdate c (fe_ID fe))
        [KNOWN_FACTIONS, GAIN_REPUTATION, GAIN_EXALTED_REPUTATION, GAIN_REVERED_REPUTATION,
         GAIN_HONORED_REPUTATION])]"

definition SetOneFactionReputation ::
  "rep_env \<Rightarrow> FactionEntry \<Rightarrow> rat \<Rightarrow> bool \<Rightarrow> ReputationRank option \<Rightarrow> rep_act" where
  "SetOneFactionReputation env fe stand incremental repMaxCap =
     cond (\<lambda>rm. \<not> has_key (list_key fe) (rm_factions rm)) skip
     (load (\<lambda>rm. one_faction_plan env fe stand incremental repMaxCap (fstate rm (list_key fe)))
       (\<lambda>(standing, old_rank, new_rank, roundedUp). acts
         [modify_faction (list_key fe) (\<lambda>f. f\<lparr>fs_roundedUp := roundedUp\<rparr>),
          (case re_hook env (fe_ID fe) standing incremental of
             (False, _) \<Rightarrow> skip
           | (True, standing') \<Rightarrow> commit_standing env fe standing' old_rank new_rank)]))"

text \<open>Its result: whether the faction is known and the hook agreed.\<close>

definition one_faction_done ::
  "rep_env \<Rightarrow> FactionEntry \<Rightarrow> rat \<Rightarrow> bool \<Rightarrow> ReputationRank option \<Rightarrow> ReputationMgr \<Rightarrow> bool" where
  "one_faction_done env fe stand incremental repMaxCap rm \<longleftrightarrow>
     has_key (list_key fe) (rm_factions rm) \<and>
     fst (re_hook env (fe_ID fe)
       (fst (one_faction_plan env fe stand incremental repMaxCap (fstate rm (list_key fe)))) incremental)"

section \<open>Packets\<close>

text \<open>\<open>SendState\<close>: the faction itself, then every other faction with a pending update.\<close>

definition state_fields :: "FactionState \<Rightarrow> rep_field list" where
  "state_fields f = [R32 (fs_ListID f), R32 (word_of_int (fs_Standing f))]"

definition other_pending :: "FactionState \<Rightarrow> ReputationMgr \<Rightarrow> FactionState list" where
  "other_pending faction rm =
     filter (\<lambda>f. fs_needSend f \<and> fs_ListID f \<noteq> fs_ListID faction) (map snd (rm_factions rm))"

definition clear_pending :: "ReputationMgr \<Rightarrow> ReputationMgr" where
  "clear_pending rm = rm\<lparr>rm_factions := map (\<lambda>(k, f). (k, f\<lparr>fs_needSend := False\<rparr>)) (rm_factions rm)\<rparr>"

definition SendState :: "u32 \<Rightarrow> rep_act" where
  "SendState k = acts
     [emit (\<lambda>rm. let faction = fstate rm k; others = other_pending faction rm
        in [RepPacket SMSG_SET_FACTION_STANDING
              ([RFloat 0, R8 (count_if (rm_sendIncreased rm)), R32 (1 + of_nat (length others))] @
               state_fields faction @ concat (map state_fields others))]),
      upd (\<lambda>rm. (clear_pending rm)\<lparr>rm_sendIncreased := False\<rparr>)]"

definition SendStates :: rep_act where
  "SendStates = load (\<lambda>rm. keys (rm_factions rm)) (each SendState)"

definition SendForceReactions :: rep_act where
  "SendForceReactions = emit (\<lambda>rm. [RepPacket SMSG_SET_FORCED_REACTIONS
     (R32 (of_nat (length (rm_forced rm))) #
      concat (map (\<lambda>(f, r). [R32 f, R32 (of_nat r)]) (rm_forced rm)))])"

text \<open>The loops \<open>for (; a != b; a++)\<close> write one absent entry for each \<open>a\<close> from \<open>a\<close> up to \<open>b\<close>,
  counting modulo \<open>2 ^ 32\<close>.\<close>

definition absent_fields :: "u32 \<Rightarrow> u32 \<Rightarrow> rep_field list" where
  "absent_fields a b = concat (replicate (unat (b - a)) [R8 0, R32 0])"

fun initial_fields :: "u32 \<Rightarrow> (u32 \<times> FactionState) list \<Rightarrow> rep_field list" where
  "initial_fields a [] = absent_fields a 128"
| "initial_fields a ((k, f) # m) =
     absent_fields a k @ [R8 (fs_Flags f), R32 (word_of_int (fs_Standing f))] @ initial_fields (k + 1) m"

definition SendInitialReputations :: rep_act where
  "SendInitialReputations = acts
     [emit (\<lambda>rm. [RepPacket SMSG_INITIALIZE_FACTIONS (R32 0x80 # initial_fields 0 (rm_factions rm))]),
      upd clear_pending]"

section \<open>Spillover\<close>

text \<open>With a template: each of its factions whose rank is not above the template's limit.\<close>

definition spill_template :: "rep_env \<Rightarrow> rat \<Rightarrow> bool \<Rightarrow> RepSpill \<Rightarrow> rep_act" where
  "spill_template env standing incremental t =
     each (\<lambda>i. if sp_faction t ! i = 0 then skip
        else whenever (\<lambda>rm. GetRank env rm (re_faction env (sp_faction t ! i)) \<le> unat (sp_rank t ! i))
          (case re_faction env (sp_faction t ! i) of
             None \<Rightarrow> emit (\<lambda>_. [RepNullDeref])
           | Some fe \<Rightarrow> SetOneFactionReputation env fe (fmul standing (sp_rate t ! i)) incremental None))
       [0..<MAX_SPILLOVER_FACTIONS]"

text \<open>Without one: the list of sub-factions, or the parent faction if it has a standing of its
  own, or the sister factions. \<open>spill_target\<close> makes this choice.\<close>

datatype spill_choice = SpillParent FactionEntry rat | SpillList "u32 list" rat | SpillNone

definition spill_target :: "rep_env \<Rightarrow> FactionEntry \<Rightarrow> rat \<Rightarrow> ReputationMgr \<Rightarrow> spill_choice" where
  "spill_target env fe standing rm =
     (case re_teamList env (fe_ID fe) of
        Some l \<Rightarrow> SpillList l standing
      | None \<Rightarrow>
          if fe_team fe \<noteq> 0 \<and> fe_rateOut fe \<noteq> 0 then
            let out = fmul standing (fe_rateOut fe)
            in (case re_faction env (fe_team fe) of
                  None \<Rightarrow> SpillNone
                | Some parent \<Rightarrow>
                    (case map_of (rm_factions rm) (list_key parent) of
                       Some st \<Rightarrow>
                         if has_flag st FACTION_FLAG_SPECIAL then SpillParent parent out
                         else (case re_teamList env (fe_team fe) of
                                 Some l \<Rightarrow> SpillList l out | None \<Rightarrow> SpillNone)
                     | None \<Rightarrow> (case re_teamList env (fe_team fe) of
                                   Some l \<Rightarrow> SpillList l out | None \<Rightarrow> SpillNone)))
          else SpillNone)"

definition spill_one :: "rep_env \<Rightarrow> FactionEntry \<Rightarrow> rat \<Rightarrow> bool \<Rightarrow> u32 \<Rightarrow> rep_act" where
  "spill_one env fe out incremental id' =
     (case re_faction env id' of
        None \<Rightarrow> skip
      | Some calc \<Rightarrow>
          cond (\<lambda>rm. fe_ID calc = fe_ID fe \<or> GetRank env rm (Some calc) > unat (fe_maxRankIn calc)) skip
            (let spilloverRep = fmul out (fe_rateIn calc)
             in if spilloverRep \<noteq> 0 \<or> \<not> incremental
                then SetOneFactionReputation env calc spilloverRep incremental None else skip))"

definition Spillover :: "rep_env \<Rightarrow> FactionEntry \<Rightarrow> rat \<Rightarrow> bool \<Rightarrow> rep_act" where
  "Spillover env fe standing incremental =
     (case re_spill env (fe_ID fe) of
        Some t \<Rightarrow> spill_template env standing incremental t
      | None \<Rightarrow> load (spill_target env fe standing) (\<lambda>c. case c of
          SpillParent parent out \<Rightarrow> SetOneFactionReputation env parent out incremental None
        | SpillList l out \<Rightarrow> each (spill_one env fe out incremental) l
        | SpillNone \<Rightarrow> skip))"

definition SetReputation ::
  "rep_env \<Rightarrow> FactionEntry \<Rightarrow> rat \<Rightarrow> bool \<Rightarrow> bool \<Rightarrow> ReputationRank option \<Rightarrow> rep_act" where
  "SetReputation env fe standing incremental noSpillOver repMaxCap = acts
     [if noSpillOver then skip else Spillover env fe standing incremental,
      load (\<lambda>rm. case repMaxCap of Some cap \<Rightarrow> GetRank env rm (Some fe) > cap | None \<Rightarrow> False)
        (\<lambda>spillOverOnly. whenever (\<lambda>rm. has_key (list_key fe) (rm_factions rm)) (acts
           [if \<not> spillOverOnly then SetOneFactionReputation env fe standing incremental repMaxCap else skip,
            SendState (list_key fe)]))]"

definition ModifyReputation ::
  "rep_env \<Rightarrow> FactionEntry \<Rightarrow> rat \<Rightarrow> bool \<Rightarrow> ReputationRank option \<Rightarrow> rep_act" where
  "ModifyReputation env fe standing noSpillOver repMaxCap =
     SetReputation env fe standing True noSpillOver repMaxCap"

section \<open>Loading and saving\<close>

definition initial_state :: "rep_env \<Rightarrow> FactionEntry \<Rightarrow> FactionState" where
  "initial_state env fe = \<lparr>fs_ID = fe_ID fe, fs_ListID = list_key fe, fs_Standing = 0,
     fs_Flags = ucast (GetDefaultStateFlags env (Some fe)), fs_needSend = True, fs_needSave = True,
     fs_roundedUp = False\<rparr>"

definition init_faction :: "rep_env \<Rightarrow> u32 \<Rightarrow> rep_act" where
  "init_faction env i =
     (case re_faction env i of
        None \<Rightarrow> skip
      | Some fe \<Rightarrow>
          if fe_listID fe \<ge> 0 then acts
            [if has_flag (initial_state env fe) FACTION_FLAG_VISIBLE
             then upd (\<lambda>rm. rm\<lparr>rm_visible := rm_visible rm + 1\<rparr>) else skip,
             UpdateRankCounters REP_HOSTILE (GetBaseRank env (Some fe)),
             upd (\<lambda>rm. rm\<lparr>rm_factions := om_assign (list_key fe) (initial_state env fe) (rm_factions rm)\<rparr>)]
          else skip)"

definition Initialize :: "rep_env \<Rightarrow> rep_act" where
  "Initialize env = acts
     [upd (\<lambda>rm. rm\<lparr>rm_factions := [], rm_visible := 0, rm_honored := 0, rm_revered := 0, rm_exalted := 0,
                   rm_sendIncreased := False\<rparr>),
      each (init_faction env) (map of_nat [1..<re_numRows env])]"

text \<open>A row of \<open>character_reputation\<close>: faction, standing, flags. \<open>_factions[id]\<close> creates an entry
  where there is none.\<close>

definition fetch_faction :: "u32 \<Rightarrow> rep_act" where
  "fetch_faction k = whenever (\<lambda>rm. \<not> has_key k (rm_factions rm))
     (upd (\<lambda>rm. rm\<lparr>rm_factions := om_assign k fs_zero (rm_factions rm)\<rparr>))"

definition db_flag :: "u16 \<Rightarrow> u8 \<Rightarrow> bool" where
  "db_flag flags m \<longleftrightarrow> flags AND ucast m \<noteq> 0"

definition load_row :: "rep_env \<Rightarrow> u16 \<times> int \<times> u16 \<Rightarrow> rep_act" where
  "load_row env row =
     (case row of (id', standing, flags) \<Rightarrow>
        case re_faction env (ucast id') of
          None \<Rightarrow> skip
        | Some fe \<Rightarrow>
            if fe_listID fe < 0 then skip
            else let k = list_key fe; BaseRep = GetBaseReputation env (Some fe) in acts
              [fetch_faction k,
               modify_faction k (\<lambda>f. f\<lparr>fs_Standing := standing\<rparr>),
               UpdateRankCounters (ReputationToRank BaseRep) (ReputationToRank (int32 (BaseRep + standing))),
               if db_flag flags FACTION_FLAG_VISIBLE then SetVisibleState env k else skip,
               if db_flag flags FACTION_FLAG_INACTIVE then SetInactiveState k True else skip,
               if db_flag flags FACTION_FLAG_AT_WAR
               then load (\<lambda>rm. \<not> db_flag flags FACTION_FLAG_HIDDEN \<or> GetRank env rm (Some fe) < REP_NEUTRAL)
                      (SetAtWarState k)
               else whenever (\<lambda>rm. has_flag (fstate rm k) FACTION_FLAG_VISIBLE) (SetAtWarState k False),
               whenever (\<lambda>rm. GetRank env rm (Some fe) \<le> REP_HOSTILE) (SetAtWarState k True),
               whenever (\<lambda>rm. ucast (fs_Flags (fstate rm k)) = flags)
                 (modify_faction k (\<lambda>f. f\<lparr>fs_needSend := False, fs_needSave := False\<rparr>)),
               modify_faction k (\<lambda>f. f\<lparr>fs_roundedUp := False\<rparr>)])"

definition LoadFromDB :: "rep_env \<Rightarrow> (u16 \<times> int \<times> u16) list option \<Rightarrow> rep_act" where
  "LoadFromDB env result = acts
     [Initialize env, case result of None \<Rightarrow> skip | Some rows \<Rightarrow> each (load_row env) rows]"

definition save_effects :: "rep_env \<Rightarrow> FactionState \<Rightarrow> rep_effect list" where
  "save_effects env f =
     (if fs_needSave f
      then [DelReputation (re_guid env) (ucast (fs_ID f)),
            InsReputation (re_guid env) (ucast (fs_ID f)) (fs_Standing f) (ucast (fs_Flags f))]
      else [])"

definition SaveToDB :: "rep_env \<Rightarrow> rep_act" where
  "SaveToDB env = acts
     [emit (\<lambda>rm. concat (map (\<lambda>(k, f). save_effects env f) (rm_factions rm))),
      upd (\<lambda>rm. rm\<lparr>rm_factions := map (\<lambda>(k, f). (k, f\<lparr>fs_needSave := False\<rparr>)) (rm_factions rm)\<rparr>)]"

end
