(* ===== verification/RepInv.thy ===== *)
theory RepInv
  imports Reputation
begin

text \<open>
  The invariant of a player's reputation (theory \<open>Reputation\<close>): every entry of the table is a
  listed faction with a total on the scale, and the counters of visible, honored, revered and
  exalted factions count exactly those entries. \<open>rep_off\<close> is the invariant between the
  change of a standing and the update of the counters.
\<close>

section \<open>Ranks\<close>

lemma points_nth: "PointsInRank ! 0 = 36000" "PointsInRank ! Suc 0 = 3000" "PointsInRank ! 2 = 3000"
    "PointsInRank ! 3 = 3000" "PointsInRank ! 4 = 6000" "PointsInRank ! 5 = 12000"
    "PointsInRank ! 6 = 21000" "PointsInRank ! 7 = 1000"
  by (simp_all add: PointsInRank_def)

text \<open>The loop spelled out: the lower limits of the ranks.\<close>

lemma rank_eval:
  "ReputationToRank s =
     (if s \<ge> 42000 then 7 else if s \<ge> 21000 then 6 else if s \<ge> 9000 then 5 else if s \<ge> 3000 then 4
      else if s \<ge> 0 then 3 else if s \<ge> - 3000 then 2 else if s \<ge> - 6000 then 1 else 0)"
proof -
  have eight: "(8 :: nat) = Suc (Suc (Suc (Suc (Suc (Suc (Suc (Suc 0)))))))" by simp
  show ?thesis
    unfolding ReputationToRank_def Reputation_Cap_def eight rank_loop.simps Let_def PointsInRank_def
    by simp
qed

lemma standing_eval:
  "ReputationRankToStanding 0 = - 6001" "ReputationRankToStanding (Suc 0) = - 3001"
  "ReputationRankToStanding 2 = - 1" "ReputationRankToStanding 3 = 2999"
  "ReputationRankToStanding 4 = 8999" "ReputationRankToStanding 5 = 20999"
  "ReputationRankToStanding 6 = 41999" "ReputationRankToStanding 7 = 42999"
  by (simp_all add: ReputationRankToStanding_def Let_def upt_rec Reputation_Bottom_def PointsInRank_def)

lemma rank_le7: "ReputationToRank s \<le> 7"
  by (simp add: rank_eval)

lemma rank_mono: "s \<le> t \<Longrightarrow> ReputationToRank s \<le> ReputationToRank t"
  by (simp add: rank_eval)

lemma rank_cases7: "r \<le> 7 \<longleftrightarrow> r \<in> {0, Suc 0, 2, 3, 4, 5, 6, 7 :: nat}"
  by auto

lemma rank_of_standing: "r \<le> 7 \<Longrightarrow> ReputationToRank (ReputationRankToStanding r) = r"
  by (auto simp: rank_cases7 standing_eval rank_eval)

lemma standing_range: "r \<le> 7 \<Longrightarrow> Reputation_Bottom \<le> ReputationRankToStanding r \<and> ReputationRankToStanding r \<le> Reputation_Cap"
  by (auto simp: rank_cases7 standing_eval Reputation_Bottom_def Reputation_Cap_def)

lemma clamp_range: "Reputation_Bottom \<le> clamp_standing s \<and> clamp_standing s \<le> Reputation_Cap"
  by (simp add: clamp_standing_def Reputation_Bottom_def Reputation_Cap_def)

lemma int32_small: "- (2 ^ 31) \<le> x \<Longrightarrow> x < 2 ^ 31 \<Longrightarrow> int32 x = x"
  by (simp add: int32_def signed_take_bit_int_eq_self)

section \<open>Counting entries of the table\<close>

definition cnt :: "('v \<Rightarrow> bool) \<Rightarrow> ('k \<times> 'v) list \<Rightarrow> nat" where
  "cnt P m = length (filter (\<lambda>e. P (snd e)) m)"

lemma cnt_modify:
  assumes "distinct (keys m)" and "map_of m k = Some v"
  shows "cnt P (om_modify k f m) + (if P v then 1 else 0) = cnt P m + (if P (f v) then 1 else 0)"
  using assms
proof (induction m)
  case (Cons e m)
  obtain j w where e: "e = (j, w)" by (cases e)
  show ?case
  proof (cases "j = k")
    case True
    then have "k \<notin> set (keys m)" "v = w" using Cons.prems e by auto
    then show ?thesis using True e by (simp add: om_modify_Cons om_modify_absent cnt_def)
  next
    case False
    then show ?thesis using Cons e by (simp add: om_modify_Cons cnt_def)
  qed
qed simp

lemma cnt_assign_new: "k \<notin> set (keys m) \<Longrightarrow> cnt P (om_assign k v m) = cnt P m + (if P v then 1 else 0)"
  by (induction k v m rule: om_assign.induct) (auto simp: cnt_def)

lemma cnt_word:
  assumes "distinct (keys m)" and "map_of m k = Some v"
  shows "of_nat (cnt P (om_modify k f m)) = of_nat (cnt P m) - count_if (P v) + count_if (P (f v))"
proof -
  have "of_nat (cnt P (om_modify k f m)) + count_if (P v) = of_nat (cnt P m) + count_if (P (f v))"
    using arg_cong [OF cnt_modify [OF assms, of P f], of "of_nat :: nat \<Rightarrow> u8"]
    by (cases "P v"; cases "P (f v)") (simp_all add: count_if_def add.commute)
  then show ?thesis by (simp add: algebra_simps)
qed

section \<open>The invariant\<close>

text \<open>What is relied on of the client data: an entry is found under its own id, ids in range,
  two listed factions have different list ids, base standings within the scale. \<open>hook_ok\<close>: no
  script changes the amount.\<close>

definition listed :: "rep_env \<Rightarrow> u32 \<Rightarrow> FactionEntry \<Rightarrow> bool" where
  "listed env i fe \<longleftrightarrow> re_faction env i = Some fe \<and> fe_listID fe \<ge> 0"

definition dbc_ok :: "rep_env \<Rightarrow> bool" where
  "dbc_ok env \<longleftrightarrow>
     re_numRows env \<le> 2 ^ 32 \<and>
     (\<forall>i fe. re_faction env i = Some fe \<longrightarrow> - (2 ^ 31) \<le> fe_listID fe \<and> fe_listID fe < 2 ^ 31) \<and>
     (\<forall>i fe. re_faction env i = Some fe \<longrightarrow> fe_ID fe = i \<and> 1 \<le> unat i \<and> unat i < re_numRows env) \<and>
     (\<forall>i fe j fe'. listed env i fe \<longrightarrow> listed env j fe' \<longrightarrow> list_key fe = list_key fe' \<longrightarrow> i = j) \<and>
     (\<forall>i. Reputation_Bottom \<le> GetBaseReputation env (re_faction env i) \<and>
        GetBaseReputation env (re_faction env i) \<le> Reputation_Cap)"

definition hook_ok :: "rep_env \<Rightarrow> bool" where
  "hook_ok env \<longleftrightarrow> (\<forall>i s inc. snd (re_hook env i s inc) = s)"

text \<open>The total standing of an entry of the table, and its rank.\<close>

definition total :: "rep_env \<Rightarrow> FactionState \<Rightarrow> int" where
  "total env f = GetBaseReputation env (re_faction env (fs_ID f)) + fs_Standing f"

definition state_rank :: "rep_env \<Rightarrow> FactionState \<Rightarrow> ReputationRank" where
  "state_rank env f = ReputationToRank (total env f)"

definition entry_wf :: "rep_env \<Rightarrow> u32 \<Rightarrow> FactionState \<Rightarrow> bool" where
  "entry_wf env k f \<longleftrightarrow> (\<exists>fe. listed env (fs_ID f) fe \<and> list_key fe = k) \<and> fs_ListID f = k \<and>
     Reputation_Bottom \<le> total env f \<and> total env f \<le> Reputation_Cap"

text \<open>\<open>rep_off env o n\<close>: the table is well formed, the visible factions are counted, and the rank
  counters are what they will be right after \<open>UpdateRankCounters o n\<close>.\<close>

definition table_ok :: "rep_env \<Rightarrow> ReputationMgr \<Rightarrow> bool" where
  "table_ok env rm \<longleftrightarrow> om_valid (rm_factions rm) \<and>
     (\<forall>(k, f) \<in> set (rm_factions rm). entry_wf env k f) \<and>
     rm_visible rm = of_nat (cnt (\<lambda>f. has_flag f FACTION_FLAG_VISIBLE) (rm_factions rm))"

definition counts_off :: "rep_env \<Rightarrow> ReputationRank \<Rightarrow> ReputationRank \<Rightarrow> ReputationMgr \<Rightarrow> bool" where
  "counts_off env old new rm \<longleftrightarrow>
     rm_honored rm - count_if (old \<ge> REP_HONORED) + count_if (new \<ge> REP_HONORED) =
       of_nat (cnt (\<lambda>f. state_rank env f \<ge> REP_HONORED) (rm_factions rm)) \<and>
     rm_revered rm - count_if (old \<ge> REP_REVERED) + count_if (new \<ge> REP_REVERED) =
       of_nat (cnt (\<lambda>f. state_rank env f \<ge> REP_REVERED) (rm_factions rm)) \<and>
     rm_exalted rm - count_if (old \<ge> REP_EXALTED) + count_if (new \<ge> REP_EXALTED) =
       of_nat (cnt (\<lambda>f. state_rank env f \<ge> REP_EXALTED) (rm_factions rm))"

definition rep_off :: "rep_env \<Rightarrow> ReputationRank \<Rightarrow> ReputationRank \<Rightarrow> ReputationMgr \<Rightarrow> bool" where
  "rep_off env old new rm \<longleftrightarrow> table_ok env rm \<and> counts_off env old new rm"

definition rep_inv :: "rep_env \<Rightarrow> ReputationMgr \<Rightarrow> bool" where
  "rep_inv env rm \<longleftrightarrow> rep_off env 0 0 rm"

lemma table_distinct: "table_ok env rm \<Longrightarrow> distinct (keys (rm_factions rm))"
  by (simp add: table_ok_def om_valid_distinct)

lemma table_entry: "table_ok env rm \<Longrightarrow> map_of (rm_factions rm) k = Some f \<Longrightarrow> entry_wf env k f"
  by (force simp: table_ok_def dest: map_of_SomeD)

section \<open>Changing one entry\<close>

definition put_state :: "u32 \<Rightarrow> (FactionState \<Rightarrow> FactionState) \<Rightarrow> ReputationMgr \<Rightarrow> ReputationMgr" where
  "put_state k g rm = rm\<lparr>rm_factions := om_modify k g (rm_factions rm)\<rparr>"

lemma modify_eval: "modify_faction k g rm = (put_state k g rm, [])"
  by (simp add: modify_faction_def put_state_def act_eval)

lemma fstate_put: "fstate (put_state k g rm) j =
    (if j = k \<and> has_key k (rm_factions rm) then g (fstate rm j) else fstate rm j)"
  by (auto simp: fstate_def put_state_def map_of_om_modify has_key_def split: option.split)

lemma put_absent: "\<not> has_key k (rm_factions rm) \<Longrightarrow> put_state k g rm = rm"
  by (simp add: put_state_def om_modify_absent has_key_iff)

lemma put_has_key [simp]: "has_key j (rm_factions (put_state k g rm)) = has_key j (rm_factions rm)"
  by (simp add: put_state_def has_key_iff)

lemma put_table:
  assumes t: "table_ok env rm" and k: "has_key k (rm_factions rm)" and wf: "entry_wf env k (g (fstate rm k))"
  shows "table_ok env ((put_state k g rm)\<lparr>rm_visible := rm_visible rm
     - count_if (has_flag (fstate rm k) FACTION_FLAG_VISIBLE)
     + count_if (has_flag (g (fstate rm k)) FACTION_FLAG_VISIBLE)\<rparr>)"
proof -
  let ?m = "om_modify k g (rm_factions rm)"
  obtain f where f: "map_of (rm_factions rm) k = Some f" using k by (auto simp: has_key_def)
  then have fs: "fstate rm k = f" by (simp add: fstate_def)
  have v: "om_valid ?m" using t by (simp add: table_ok_def)
  have "entry_wf env j h" if "(j, h) \<in> set ?m" for j h
  proof -
    have "map_of ?m j = Some h"
      using in_set_iff_map_of [OF om_valid_distinct [OF v], of j h] that by blast
    then show ?thesis
      using table_entry [OF t, of j] wf f fs by (auto simp: map_of_om_modify split: if_splits)
  qed
  then show ?thesis
    using v t cnt_word [OF table_distinct [OF t] f, of "\<lambda>f. has_flag f FACTION_FLAG_VISIBLE" g]
    by (auto simp: table_ok_def put_state_def fs)
qed

lemma put_counts:
  assumes t: "table_ok env rm" and k: "has_key k (rm_factions rm)" and c: "counts_off env 0 0 rm"
  shows "counts_off env (state_rank env (fstate rm k)) (state_rank env (g (fstate rm k))) (put_state k g rm)"
proof -
  obtain f where f: "map_of (rm_factions rm) k = Some f" using k by (auto simp: has_key_def)
  then have fs: "fstate rm k = f" by (simp add: fstate_def)
  note w = cnt_word [OF table_distinct [OF t] f, where f = g]
  show ?thesis
    using c unfolding counts_off_def by (simp add: put_state_def w fs)
qed


text \<open>Every change that keeps identity, standing and visibility of the entry.\<close>

definition harmless :: "(FactionState \<Rightarrow> FactionState) \<Rightarrow> bool" where
  "harmless g \<longleftrightarrow> (\<forall>f. fs_ID (g f) = fs_ID f \<and> fs_ListID (g f) = fs_ListID f \<and>
     fs_Standing (g f) = fs_Standing f \<and> has_flag (g f) FACTION_FLAG_VISIBLE = has_flag f FACTION_FLAG_VISIBLE)"

lemma keeps_total:
  assumes "\<And>f. fs_ID (g f) = fs_ID f \<and> fs_ListID (g f) = fs_ListID f \<and> fs_Standing (g f) = fs_Standing f"
  shows "state_rank env (g f) = state_rank env f" "entry_wf env k (g f) = entry_wf env k f"
  using assms [of f] by (simp_all add: state_rank_def entry_wf_def total_def)

lemma counts_off_put:
  assumes t: "table_ok env rm" and c: "counts_off env o' n' rm"
    and same: "\<And>f. state_rank env (g f) = state_rank env f"
  shows "counts_off env o' n' (put_state k g rm)"
proof (cases "has_key k (rm_factions rm)")
  case True
  then obtain f where f: "map_of (rm_factions rm) k = Some f" by (auto simp: has_key_def)
  note w = cnt_word [OF table_distinct [OF t] f, where f = g]
  show ?thesis using c unfolding counts_off_def by (simp add: put_state_def w same)
qed (use c in \<open>simp add: put_absent\<close>)

lemma rep_off_harmless:
  assumes r: "rep_off env o' n' rm" and g: "harmless g"
  shows "rep_off env o' n' (put_state k g rm)"
proof (cases "has_key k (rm_factions rm)")
  case True
  then obtain f where f: "map_of (rm_factions rm) k = Some f" by (auto simp: has_key_def)
  have t: "table_ok env rm" and c: "counts_off env o' n' rm" using r by (simp_all add: rep_off_def)
  have g': "fs_ID (g h) = fs_ID h \<and> fs_ListID (g h) = fs_ListID h \<and> fs_Standing (g h) = fs_Standing h" for h
    using g by (simp add: harmless_def)
  have "entry_wf env k (g (fstate rm k))"
    using table_entry [OF t f] f by (simp add: keeps_total [OF g'] fstate_def)
  from put_table [where g = g, OF t True this] have "table_ok env (put_state k g rm)"
    using g by (simp add: harmless_def put_state_def)
  with counts_off_put [OF t c keeps_total(1) [OF g']] show ?thesis by (simp add: rep_off_def)
qed (use r in \<open>simp add: put_absent\<close>)

abbreviation keeps_off :: "rep_env \<Rightarrow> ReputationRank \<Rightarrow> ReputationRank \<Rightarrow> rep_act \<Rightarrow> bool" where
  "keeps_off env o' n' x \<equiv> triple (rep_off env o' n') x (rep_off env o' n') (\<lambda>_. True)"

lemma keeps_modify: "harmless g \<Longrightarrow> keeps_off env o' n' (modify_faction k g)"
  by (simp add: triple_def modify_eval rep_off_harmless)

lemma keeps_emit: "keeps_off env o' n' (emit f)"
  by (simp add: triple_def act_eval list_all_iff)

lemma keeps_cond: "keeps_off env o' n' x \<Longrightarrow> keeps_off env o' n' y \<Longrightarrow> keeps_off env o' n' (cond b x y)"
  by (simp add: triple_def act_eval)

lemma keeps_load: "(\<And>v. keeps_off env o' n' (k v)) \<Longrightarrow> keeps_off env o' n' (load r k)"
  by (simp add: triple_def act_eval)

lemma flag_bits:
  "FACTION_FLAG_AT_WAR AND FACTION_FLAG_VISIBLE = 0" "FACTION_FLAG_INACTIVE AND FACTION_FLAG_VISIBLE = 0"
  "FACTION_FLAG_VISIBLE AND FACTION_FLAG_AT_WAR = 0" "FACTION_FLAG_VISIBLE AND FACTION_FLAG_INACTIVE = 0"
  "FACTION_FLAG_VISIBLE \<noteq> 0" "FACTION_FLAG_AT_WAR \<noteq> 0" "FACTION_FLAG_INACTIVE \<noteq> 0"
  by (simp_all add: FACTION_FLAG_AT_WAR_def FACTION_FLAG_VISIBLE_def FACTION_FLAG_INACTIVE_def)

lemma has_set_flag [simp]: "m \<noteq> 0 \<Longrightarrow> has_flag (set_fs_flag m on f) m = on"
  by (simp add: has_flag_def set_fs_flag_def flag_simps)

lemma has_set_other: "m AND j = 0 \<Longrightarrow> has_flag (set_fs_flag m on f) j = has_flag f j"
  by (simp add: has_flag_def set_fs_flag_def flag_simps)

lemma harmless_flags: "harmless (set_fs_flag FACTION_FLAG_AT_WAR on)" "harmless (set_fs_flag FACTION_FLAG_INACTIVE on)"
  by (simp_all add: harmless_def has_set_other flag_bits) (simp_all add: set_fs_flag_def)

lemma keeps_SetAtWarState: "keeps_off env o' n' (SetAtWarState k b)"
  unfolding SetAtWarState_def by (intro keeps_cond keeps_modify harmless_flags triple_skip)

lemma keeps_SetInactiveState: "keeps_off env o' n' (SetInactiveState k b)"
  unfolding SetInactiveState_def by (intro keeps_cond keeps_modify harmless_flags triple_skip)

lemma keeps_sendIncreased: "keeps_off env o' n' (upd (\<lambda>rm. rm\<lparr>rm_sendIncreased := b\<rparr>))"
  by (rule tripleT) (simp add: act_eval rep_off_def table_ok_def counts_off_def)

text \<open>\<open>SetVisible\<close> counts the faction it makes visible.\<close>

lemma keeps_SetVisibleState: "triple (\<lambda>rm. rep_off env o' n' rm \<and> has_key k (rm_factions rm))
    (SetVisibleState env k) (rep_off env o' n') (\<lambda>_. True)"
proof (rule tripleT)
  fix rm assume a: "rep_off env o' n' rm \<and> has_key k (rm_factions rm)"
  let ?g = "set_fs_flag FACTION_FLAG_VISIBLE True"
  let ?rm = "(put_state k ?g rm)\<lparr>rm_visible := rm_visible rm + 1\<rparr>"
  obtain f where f: "map_of (rm_factions rm) k = Some f" using a by (auto simp: has_key_def)
  have t: "table_ok env rm" and c: "counts_off env o' n' rm" using a by (simp_all add: rep_off_def)
  have g: "fs_ID (?g h) = fs_ID h \<and> fs_ListID (?g h) = fs_ListID h \<and> fs_Standing (?g h) = fs_Standing h" for h
    by (simp add: set_fs_flag_def)
  have wf: "entry_wf env k (?g (fstate rm k))"
    using table_entry [OF t f] f by (simp add: keeps_total [OF g] fstate_def)
  have "table_ok env ?rm" if "\<not> has_flag (fstate rm k) FACTION_FLAG_VISIBLE"
    using put_table [where g = ?g, OF t _ wf] that a flag_bits by (simp add: count_if_def)
  moreover have "counts_off env o' n' ?rm"
    using counts_off_put [OF t c keeps_total(1) [OF g], of k] by (simp add: counts_off_def)
  ultimately show "rep_off env o' n' (fst (SetVisibleState env k rm))"
    using a by (simp add: SetVisibleState_def act_eval modify_eval SendVisible_def rep_off_def put_state_def)
qed

lemma UpdateRankCounters_off:
  "triple (rep_off env old new) (UpdateRankCounters old new) (rep_inv env) (\<lambda>_. True)"
  by (auto simp: triple_def UpdateRankCounters_def act_eval rep_inv_def rep_off_def table_ok_def counts_off_def
      rep_ranks count_if_def list_all_iff)

section \<open>Gaining reputation keeps the invariant\<close>

definition cap_ok :: "ReputationRank option \<Rightarrow> bool" where
  "cap_ok c \<longleftrightarrow> (case c of Some r \<Rightarrow> r \<le> 7 | None \<Rightarrow> True)"

lemma plan_sound:
  assumes "one_faction_plan env fe stand inc cap st = (standing, old_rank, new_rank, ru)" and "cap_ok cap"
  shows "Reputation_Bottom \<le> standing \<and> standing \<le> Reputation_Cap \<and> new_rank = ReputationToRank standing \<and>
     old_rank = ReputationToRank (int32 (fs_Standing st + GetBaseReputation env (Some fe)))"
  using assms clamp_range standing_range rank_of_standing
  by (auto simp: one_faction_plan_def Let_def cap_ok_def split: option.splits if_splits)


lemma list_key_inj:
  assumes "list_key fe = list_key fe'" and "- (2 ^ 31) \<le> fe_listID fe" "fe_listID fe < 2 ^ 31"
    and "0 \<le> fe_listID fe'" "fe_listID fe' < 2 ^ 31"
  shows "fe_listID fe = fe_listID fe'"
proof -
  have eq: "fe_listID fe mod 2 ^ 32 = fe_listID fe' mod 2 ^ 32"
    using assms(1) by (simp add: list_key_def word_of_int_eq_iff take_bit_eq_mod)
  have pos: "fe_listID fe' mod 2 ^ 32 = fe_listID fe'"
    using assms(4,5) by (intro mod_pos_pos_trivial) auto
  show ?thesis
  proof (cases "fe_listID fe < 0")
    case True
    have "fe_listID fe mod 2 ^ 32 = (fe_listID fe + 2 ^ 32) mod 2 ^ 32" by simp
    also have "\<dots> = fe_listID fe + 2 ^ 32" using assms(2) True by (intro mod_pos_pos_trivial) auto
    finally show ?thesis using eq pos assms(2,5) by simp
  next
    case False
    then have "fe_listID fe mod 2 ^ 32 = fe_listID fe" using assms(3) by (intro mod_pos_pos_trivial) auto
    then show ?thesis using eq pos by simp
  qed
qed

lemma entry_is:
  assumes d: "dbc_ok env" and t: "table_ok env rm" and i: "re_faction env i = Some fe"
    and f: "map_of (rm_factions rm) (list_key fe) = Some f"
  shows "fs_ID f = i \<and> fe_ID fe = i \<and> re_faction env (fs_ID f) = Some fe"
proof -
  obtain fe' where fe': "listed env (fs_ID f) fe'" "list_key fe' = list_key fe"
    using table_entry [OF t f] by (auto simp: entry_wf_def)
  have r: "- (2 ^ 31) \<le> fe_listID e \<and> fe_listID e < 2 ^ 31" if "re_faction env j = Some e" for j e
    using d that unfolding dbc_ok_def by blast
  have "fe_listID fe = fe_listID fe'"
    using list_key_inj [of fe fe'] fe' r [OF i] r [of "fs_ID f" fe'] by (simp add: listed_def)
  then have "listed env i fe" using fe' i by (simp add: listed_def)
  then have "i = fs_ID f" using d fe' unfolding dbc_ok_def by metis
  moreover have "fe_ID fe = i" using d i unfolding dbc_ok_def by blast
  ultimately show ?thesis using i by simp
qed

lemma base_range:
  assumes "dbc_ok env" and "re_faction env i = Some fe"
  shows "Reputation_Bottom \<le> GetBaseReputation env (Some fe) \<and> GetBaseReputation env (Some fe) \<le> Reputation_Cap"
  using assms unfolding dbc_ok_def by metis

lemma scale_int32: "Reputation_Bottom \<le> s \<Longrightarrow> s \<le> Reputation_Cap \<Longrightarrow> int32 s = s"
  by (rule int32_small) (simp_all add: Reputation_Bottom_def Reputation_Cap_def)

lemma set_standing_off:
  assumes inv: "rep_inv env rm" and k: "has_key k (rm_factions rm)"
    and g: "\<And>f. fs_ID (g f) = fs_ID f \<and> fs_ListID (g f) = fs_ListID f \<and> fs_Flags (g f) = fs_Flags f"
    and total: "Reputation_Bottom \<le> total env (g (fstate rm k))" "total env (g (fstate rm k)) \<le> Reputation_Cap"
  shows "rep_off env (state_rank env (fstate rm k)) (state_rank env (g (fstate rm k))) (put_state k g rm)"
proof -
  have t: "table_ok env rm" and c: "counts_off env 0 0 rm" using inv by (simp_all add: rep_inv_def rep_off_def)
  obtain f where f: "map_of (rm_factions rm) k = Some f" using k by (auto simp: has_key_def)
  have fs: "fstate rm k = f" using f by (simp add: fstate_def)
  have "entry_wf env k f" using t f by (rule table_entry)
  then have "entry_wf env k (g (fstate rm k))"
    using total g [of f] by (simp add: entry_wf_def fs)
  from put_table [where g = g, OF t k this] have "table_ok env (put_state k g rm)"
    using g by (simp add: has_flag_def put_state_def)
  with put_counts [OF t k c, of g] show ?thesis by (simp add: rep_off_def)
qed

text \<open>The state in which the new standing is written: the entry is there, with the standing the
  old rank was computed from.\<close>

definition at_standing :: "rep_env \<Rightarrow> u32 \<Rightarrow> int \<Rightarrow> ReputationMgr \<Rightarrow> bool" where
  "at_standing env k s rm \<longleftrightarrow> rep_inv env rm \<and> has_key k (rm_factions rm) \<and> fs_Standing (fstate rm k) = s"

lemma commit_standing_inv:
  assumes d: "dbc_ok env" and i: "re_faction env i = Some fe"
    and st: "Reputation_Bottom \<le> standing" "standing \<le> Reputation_Cap"
    and r: "new_rank = ReputationToRank standing"
      "old_rank = ReputationToRank (int32 (s + GetBaseReputation env (Some fe)))"
  shows "triple (at_standing env (list_key fe) s) (commit_standing env fe standing old_rank new_rank)
     (rep_inv env) (\<lambda>_. True)"
proof -
  let ?k = "list_key fe" and ?base = "GetBaseReputation env (Some fe)"
  let ?g = "\<lambda>f. f\<lparr>fs_Standing := int32 (standing - ?base), fs_needSend := True, fs_needSave := True\<rparr>"
  have set: "triple (at_standing env ?k s) (modify_faction ?k ?g)
     (\<lambda>rm. rep_off env old_rank new_rank rm \<and> has_key ?k (rm_factions rm)) (\<lambda>_. True)"
  proof (rule tripleT)
    fix rm assume p: "at_standing env ?k s rm"
    then obtain f where f: "map_of (rm_factions rm) ?k = Some f" by (auto simp: at_standing_def has_key_def)
    have t: "table_ok env rm" using p by (simp add: at_standing_def rep_inv_def rep_off_def)
    have e: "re_faction env (fs_ID f) = Some fe" using entry_is [OF d t i f] by blast
    have fs: "fstate rm ?k = f" "fs_Standing f = s" using f p by (simp_all add: fstate_def at_standing_def)
    have "int32 (standing - ?base) = standing - ?base"
      using st base_range [OF d i]
      by (intro int32_small) (simp_all add: Reputation_Bottom_def Reputation_Cap_def)
    then have tg: "total env (?g f) = standing" by (simp add: total_def e)
    have tf: "total env f = s + ?base" using fs by (simp add: total_def e)
    have "int32 (s + ?base) = s + ?base"
      using table_entry [OF t f] tf by (intro scale_int32) (auto simp: entry_wf_def)
    with p set_standing_off [of env rm ?k ?g] st tg tf
    show "rep_off env old_rank new_rank (fst (modify_faction ?k ?g rm)) \<and>
        has_key ?k (rm_factions (fst (modify_faction ?k ?g rm)))"
      by (simp add: at_standing_def modify_eval fs state_rank_def r)
  qed
  show ?thesis
    unfolding commit_standing_def
    apply (rule triple_acts_Cons [OF set])
    apply (rule triple_acts_Cons [OF keeps_SetVisibleState])
    apply (rule triple_acts_Cons [where Q = "rep_off env old_rank new_rank"])
     apply (simp add: keeps_SetAtWarState triple_skip)
    apply (rule triple_acts_Cons [where Q = "rep_off env old_rank new_rank"])
     apply (simp add: keeps_sendIncreased triple_skip)
    apply (rule triple_acts_Cons [where Q = "rep_off env old_rank new_rank"])
     apply (simp add: keeps_emit triple_skip)
    apply (rule triple_acts_Cons [OF UpdateRankCounters_off])
    apply (rule triple_acts_Cons [OF _ triple_acts_Nil], rule tripleT, simp add: act_eval)
    done
qed

lemma SetOne_inv:
  assumes d: "dbc_ok env" and h: "hook_ok env" and i: "re_faction env i = Some fe" and cap: "cap_ok cap"
  shows "triple (rep_inv env) (SetOneFactionReputation env fe stand inc cap) (rep_inv env) (\<lambda>_. True)"
proof (rule tripleT)
  fix rm assume inv: "rep_inv env rm"
  let ?k = "list_key fe" and ?st = "fstate rm (list_key fe)"
  obtain standing old_rank new_rank ru where
    p: "one_faction_plan env fe stand inc cap ?st = (standing, old_rank, new_rank, ru)"
    by (cases "one_faction_plan env fe stand inc cap ?st") auto
  note sound = plan_sound [OF p cap]
  let ?rm = "put_state ?k (\<lambda>f. f\<lparr>fs_roundedUp := ru\<rparr>) rm"
  have inv': "rep_inv env ?rm"
    using inv unfolding rep_inv_def by (rule rep_off_harmless) (simp add: harmless_def has_flag_def)
  show "rep_inv env (fst (SetOneFactionReputation env fe stand inc cap rm))"
  proof (cases "has_key ?k (rm_factions rm)")
    case True
    then have "at_standing env ?k (fs_Standing ?st) ?rm" using inv' by (simp add: at_standing_def fstate_put)
    then have "rep_inv env (fst (commit_standing env fe standing old_rank new_rank ?rm))"
      using triple_state [OF commit_standing_inv [OF d i]] sound by blast
    moreover have "snd (re_hook env (fe_ID fe) standing inc) = standing" using h by (simp add: hook_ok_def)
    ultimately show ?thesis
      using True inv' by (cases "re_hook env (fe_ID fe) standing inc")
        (auto simp: SetOneFactionReputation_def act_eval p modify_eval split: bool.split)
  qed (use inv in \<open>simp add: SetOneFactionReputation_def act_eval\<close>)
qed

end
