(* ===== verification/RepPreserve.thy ===== *)
theory RepPreserve
  imports RepInv
begin

text \<open>
  Every operation of \<open>src/src/server/game/Reputation/ReputationMgr.cpp\<close> keeps the invariant of
  theory \<open>RepInv\<close>: gains with their spillover, visibility and war flags, sending, saving,
  initialising and loading; the interpretation of \<open>component\<close> carries it to every reachable
  state.
\<close>

section \<open>Every operation keeps the invariant\<close>

abbreviation keeps_inv :: "rep_env \<Rightarrow> rep_act \<Rightarrow> bool" where
  "keeps_inv env x \<equiv> triple (rep_inv env) x (rep_inv env) (\<lambda>_. True)"

lemma keeps_inv_off: "keeps_off env 0 0 x \<Longrightarrow> keeps_inv env x"
  by (simp add: rep_inv_def [abs_def])

lemma keeps_inv_cond: "keeps_inv env x \<Longrightarrow> keeps_inv env y \<Longrightarrow> keeps_inv env (cond b x y)"
  by (simp add: triple_def act_eval)

lemma keeps_inv_load: "(\<And>v. keeps_inv env (k v)) \<Longrightarrow> keeps_inv env (load r k)"
  by (simp add: triple_def act_eval)

lemma keeps_inv_emit: "keeps_inv env (emit f)"
  by (simp add: triple_def act_eval list_all_iff)

lemma SetVisibleEntry_inv: "keeps_inv env (SetVisibleEntry env fe)"
  using keeps_SetVisibleState [of env 0 0 "list_key fe"]
  by (simp add: SetVisibleEntry_def triple_def act_eval rep_inv_def)

lemma SetVisibleTemplate_inv: "keeps_inv env (SetVisibleTemplate env faction)"
  by (auto simp: SetVisibleTemplate_def triple_skip SetVisibleEntry_inv split: option.split)

lemma SetAtWar_inv: "keeps_inv env (SetAtWar k on)"
  unfolding SetAtWar_def by (intro keeps_inv_cond keeps_inv_off keeps_SetAtWarState triple_skip)

lemma SetInactive_inv: "keeps_inv env (SetInactive k on)"
  unfolding SetInactive_def by (intro keeps_inv_cond keeps_inv_off keeps_SetInactiveState triple_skip)

text \<open>Changing the pending marks of all entries at once.\<close>

lemma cnt_map: "(\<And>f. P (g f) = P f) \<Longrightarrow> cnt P (map (\<lambda>(k, f). (k, g f)) m) = cnt P m"
proof (induction m)
  case (Cons e m)
  obtain k f where "e = (k, f)" by (cases e)
  then show ?case using Cons.IH [OF Cons.prems] Cons.prems [of f] by (simp add: cnt_def)
qed simp

lemma map_all_inv:
  assumes inv: "rep_inv env rm" and g: "harmless g"
  shows "rep_inv env (rm\<lparr>rm_factions := map (\<lambda>(k, f). (k, g f)) (rm_factions rm)\<rparr>)"
proof -
  have g': "fs_ID (g h) = fs_ID h \<and> fs_ListID (g h) = fs_ListID h \<and> fs_Standing (g h) = fs_Standing h" for h
    using g by (simp add: harmless_def)
  let ?m = "map (\<lambda>(k, f). (k, g f)) (rm_factions rm)"
  have k: "map (fst \<circ> (\<lambda>(k, f). (k, g f))) m = keys m" for m :: "(u32 \<times> FactionState) list"
    by (induction m) auto
  have v: "cnt (\<lambda>f. has_flag f FACTION_FLAG_VISIBLE) ?m =
      cnt (\<lambda>f. has_flag f FACTION_FLAG_VISIBLE) (rm_factions rm)"
    by (rule cnt_map) (use g in \<open>simp add: harmless_def\<close>)
  have r: "cnt (\<lambda>f. state_rank env f \<ge> r) ?m = cnt (\<lambda>f. state_rank env f \<ge> r) (rm_factions rm)" for r
    by (rule cnt_map) (simp add: keeps_total(1) [OF g'])
  have e: "(\<forall>(k, f) \<in> set ?m. entry_wf env k f) \<longleftrightarrow> (\<forall>(k, f) \<in> set (rm_factions rm). entry_wf env k f)"
    by (auto simp: keeps_total(2) [OF g'])
  show ?thesis
    using inv e by (simp add: rep_inv_def rep_off_def table_ok_def counts_off_def om_valid_def k v r)
qed

lemma SendState_inv: "keeps_inv env (SendState k)"
proof -
  have "rep_inv env (clear_pending rm)" if "rep_inv env rm" for rm
    using map_all_inv [OF that, of "\<lambda>f. f\<lparr>fs_needSend := False\<rparr>"]
    by (simp add: clear_pending_def harmless_def has_flag_def)
  then have "rep_inv env ((clear_pending rm)\<lparr>rm_sendIncreased := False\<rparr>)" if "rep_inv env rm" for rm
    using that by (simp add: rep_inv_def rep_off_def table_ok_def counts_off_def)
  then show ?thesis by (simp add: SendState_def triple_def act_eval list_all_iff)
qed

lemma SendStates_inv: "keeps_inv env SendStates"
  unfolding SendStates_def
  by (rule triple_load, rule triple_pre [OF triple_each [where P = "rep_inv env"]]) (auto intro: SendState_inv)

lemma SendInitial_inv: "keeps_inv env SendInitialReputations"
proof -
  have "rep_inv env (clear_pending rm)" if "rep_inv env rm" for rm
    using map_all_inv [OF that, of "\<lambda>f. f\<lparr>fs_needSend := False\<rparr>"]
    by (simp add: clear_pending_def harmless_def has_flag_def)
  then show ?thesis by (simp add: SendInitialReputations_def triple_def act_eval list_all_iff)
qed

lemma SaveToDB_inv: "keeps_inv env (SaveToDB env)"
  using map_all_inv [where g = "\<lambda>f. f\<lparr>fs_needSave := False\<rparr>"]
  by (simp add: SaveToDB_def triple_def act_eval list_all_iff harmless_def has_flag_def)

lemma ApplyForceReaction_inv: "keeps_inv env (ApplyForceReaction f r a)"
  by (simp add: ApplyForceReaction_def triple_def act_eval rep_inv_def rep_off_def table_ok_def counts_off_def)

subsection \<open>Gains with spillover\<close>

lemma spill_template_inv:
  assumes "dbc_ok env" and "hook_ok env"
  shows "keeps_inv env (spill_template env standing inc t)"
  unfolding spill_template_def
  by (rule triple_each)
    (auto intro!: keeps_inv_cond triple_skip keeps_inv_emit SetOne_inv [OF assms] simp: cap_ok_def
      split: option.split)

lemma spill_one_inv:
  assumes "dbc_ok env" and "hook_ok env"
  shows "keeps_inv env (spill_one env fe out inc i)"
  unfolding spill_one_def
  by (auto intro!: keeps_inv_cond triple_skip SetOne_inv [OF assms] simp: cap_ok_def Let_def split: option.split)

lemma spill_parent: "spill_target env fe s rm = SpillParent parent out \<Longrightarrow> re_faction env (fe_team fe) = Some parent"
  by (auto simp: spill_target_def Let_def split: option.splits if_splits)

lemma Spillover_inv:
  assumes "dbc_ok env" and "hook_ok env"
  shows "keeps_inv env (Spillover env fe standing inc)"
proof (cases "re_spill env (fe_ID fe)")
  case None
  have "triple (\<lambda>rm. rep_inv env rm \<and> spill_target env fe standing rm = c)
     (case c of SpillParent parent out \<Rightarrow> SetOneFactionReputation env parent out inc None
        | SpillList l out \<Rightarrow> each (spill_one env fe out inc) l
        | SpillNone \<Rightarrow> skip) (rep_inv env) (\<lambda>_. True)" for c
  proof (cases c)
    case (SpillParent parent out)
    show ?thesis
    proof (rule tripleT)
      fix rm assume a: "rep_inv env rm \<and> spill_target env fe standing rm = c"
      then have i: "re_faction env (fe_team fe) = Some parent"
        using SpillParent by (intro spill_parent [of env fe standing rm parent out]) simp
      have "cap_ok None" by (simp add: cap_ok_def)
      from triple_state [OF SetOne_inv [OF assms i this]] a
      show "rep_inv env (fst ((case c of SpillParent parent out \<Rightarrow> SetOneFactionReputation env parent out inc None
        | SpillList l out \<Rightarrow> each (spill_one env fe out inc) l | SpillNone \<Rightarrow> skip) rm))"
        by (simp add: SpillParent)
    qed
  next
    case (SpillList l out)
    have "keeps_inv env (each (spill_one env fe out inc) l)"
      by (rule triple_each) (rule spill_one_inv [OF assms])
    then show ?thesis using SpillList by (auto intro: triple_pre)
  next
    case SpillNone
    then show ?thesis by (auto intro: triple_pre [OF triple_skip])
  qed
  with None show ?thesis by (simp add: Spillover_def triple_load)
qed (simp add: Spillover_def spill_template_inv [OF assms])

lemma SetReputation_inv:
  assumes "dbc_ok env" and "hook_ok env" and "re_faction env i = Some fe" and "cap_ok cap"
  shows "keeps_inv env (SetReputation env fe standing inc noSpill cap)"
  unfolding SetReputation_def
  by (rule triple_acts_inv)
    (auto intro!: Spillover_inv triple_skip keeps_inv_load keeps_inv_cond triple_acts_inv
      SetOne_inv [OF assms] SendState_inv assms)


subsection \<open>Initialising and loading\<close>

text \<open>The faction list while \<open>Initialize\<close> has processed the rows below \<open>j\<close>: the invariant, every
  listed row below \<open>j\<close> present with standing 0, nothing else present.\<close>

definition filled :: "rep_env \<Rightarrow> nat \<Rightarrow> ReputationMgr \<Rightarrow> bool" where
  "filled env j rm \<longleftrightarrow> rep_inv env rm \<and>
     (\<forall>(k, f) \<in> set (rm_factions rm). unat (fs_ID f) < j \<and> fs_Standing f = 0) \<and>
     (\<forall>i fe. listed env i fe \<longrightarrow> unat i < j \<longrightarrow> has_key (list_key fe) (rm_factions rm))"

lemma set_om_assign_new: "k \<notin> set (keys m) \<Longrightarrow> set (om_assign k v m) = insert (k, v) (set m)"
  by (induction k v m rule: om_assign.induct) auto

lemma init_faction_filled:
  assumes d: "dbc_ok env" and j: "j < re_numRows env"
  shows "triple (filled env j) (init_faction env (of_nat j)) (filled env (Suc j)) (\<lambda>_. True)"
proof (rule tripleT)
  fix rm assume fl: "filled env j rm"
  have n: "unat (of_nat j :: u32) = j"
    using j d by (simp add: dbc_ok_def unsigned_of_nat take_bit_nat_eq_self)
  have at: "unat i < Suc j \<longleftrightarrow> unat i < j \<or> i = of_nat j" for i :: u32
    using n word_unat_eq_iff [of i "of_nat j"] by auto
  show "filled env (Suc j) (fst (init_faction env (of_nat j) rm))"
  proof (cases "\<exists>fe. listed env (of_nat j) fe")
    case False
    then have "fst (init_faction env (of_nat j) rm) = rm"
      by (auto simp: init_faction_def act_eval listed_def split: option.split)
    then show ?thesis using fl False by (auto simp: filled_def at)
  next
    case True
    then obtain fe where fe: "listed env (of_nat j) fe" by blast
    let ?f = "initial_state env fe" and ?k = "list_key fe"
    have e: "re_faction env (of_nat j) = Some fe" "fe_listID fe \<ge> 0" "fe_ID fe = of_nat j"
      using fe d by (auto simp: listed_def dbc_ok_def)
    have inv: "rep_inv env rm" using fl by (simp add: filled_def)
    have t: "table_ok env rm" using inv by (simp add: rep_inv_def rep_off_def)
    have new: "?k \<notin> set (keys (rm_factions rm))"
    proof
      assume "?k \<in> set (keys (rm_factions rm))"
      then obtain f where f: "map_of (rm_factions rm) ?k = Some f" by (metis has_key_def has_key_iff option.exhaust)
      then have "fs_ID f = of_nat j" using entry_is [OF d t e(1) f] by simp
      moreover have "(?k, f) \<in> set (rm_factions rm)" using f by (rule map_of_SomeD)
      ultimately show False using fl n by (auto simp: filled_def)
    qed
    have b: "Reputation_Bottom \<le> GetBaseReputation env (Some fe)" "GetBaseReputation env (Some fe) \<le> Reputation_Cap"
      using base_range [OF d e(1)] by simp_all
    have tot: "total env ?f = GetBaseReputation env (Some fe)" using e by (simp add: total_def initial_state_def)
    have wf: "entry_wf env ?k ?f" using fe b tot e by (auto simp: entry_wf_def initial_state_def)
    have rk: "state_rank env ?f = GetBaseRank env (Some fe)" by (simp add: state_rank_def tot GetBaseRank_def)
    let ?rm = "fst (init_faction env (of_nat j) rm)"
    have run: "rm_factions ?rm = om_assign ?k ?f (rm_factions rm)"
      "rm_visible ?rm = rm_visible rm + count_if (has_flag ?f FACTION_FLAG_VISIBLE)"
      "rm_honored ?rm = rm_honored rm + count_if (GetBaseRank env (Some fe) \<ge> REP_HONORED)"
      "rm_revered ?rm = rm_revered rm + count_if (GetBaseRank env (Some fe) \<ge> REP_REVERED)"
      "rm_exalted ?rm = rm_exalted rm + count_if (GetBaseRank env (Some fe) \<ge> REP_EXALTED)"
      using e by (simp_all add: init_faction_def act_eval UpdateRankCounters_def count_if_def rep_ranks)
    have c: "of_nat (cnt P (rm_factions ?rm)) = (of_nat (cnt P (rm_factions rm)) :: u8) + count_if (P ?f)" for P
      using cnt_assign_new [OF new] by (simp add: run(1) count_if_def)
    have "rep_inv env ?rm"
      using inv wf set_om_assign_new [OF new] om_valid_assign [of "rm_factions rm"]
      unfolding rep_inv_def rep_off_def table_ok_def counts_off_def c by (simp add: run rk)
    then show ?thesis
      using fl fe set_om_assign_new [OF new] e
      by (auto simp: filled_def at run has_key_def map_of_om_assign initial_state_def listed_def)
  qed
qed


lemma each_filled:
  assumes d: "dbc_ok env"
  shows "j \<le> n \<Longrightarrow> n \<le> re_numRows env \<Longrightarrow>
     triple (filled env j) (each (init_faction env) (map of_nat [j..<n])) (filled env n) (\<lambda>_. True)"
proof (induction "n - j" arbitrary: j)
  case 0
  then show ?case by (simp add: each.simps triple_skip)
next
  case (Suc m)
  then have "[j..<n] = j # [Suc j..<n]" by (simp add: upt_conv_Cons)
  moreover have "triple (filled env (Suc j)) (each (init_faction env) (map of_nat [Suc j..<n])) (filled env n) (\<lambda>_. True)"
    using Suc by simp
  moreover have "triple (filled env j) (init_faction env (of_nat j)) (filled env (Suc j)) (\<lambda>_. True)"
    using Suc d by (intro init_faction_filled) simp_all
  ultimately show ?case by (simp add: each.simps triple_andThen)
qed

text \<open>While the rows of the database are read: the factions not yet \<open>seen\<close> still have standing 0.\<close>

definition unseen_zero :: "rep_env \<Rightarrow> u32 set \<Rightarrow> ReputationMgr \<Rightarrow> bool" where
  "unseen_zero env seen rm \<longleftrightarrow>
     (\<forall>k f. map_of (rm_factions rm) k = Some f \<longrightarrow> fs_ID f \<notin> seen \<longrightarrow> fs_Standing f = 0) \<and>
     (\<forall>i fe. listed env i fe \<longrightarrow> has_key (list_key fe) (rm_factions rm))"

definition loading :: "rep_env \<Rightarrow> u32 set \<Rightarrow> ReputationMgr \<Rightarrow> bool" where
  "loading env seen rm \<longleftrightarrow> rep_inv env rm \<and> unseen_zero env seen rm"

lemma Initialize_loading:
  assumes d: "dbc_ok env"
  shows "triple (\<lambda>_. True) (Initialize env) (loading env {}) (\<lambda>_. True)"
proof -
  let ?rm0 = "\<lambda>rm. rm\<lparr>rm_factions := [], rm_visible := 0, rm_honored := 0, rm_revered := 0, rm_exalted := 0,
     rm_sendIncreased := False\<rparr>"
  have "1 \<le> unat i \<and> unat i < re_numRows env" if "listed env i fe" for i fe
    using d that unfolding dbc_ok_def listed_def by blast
  note rows = this
  have init: "filled env 1 (?rm0 rm)" for rm
  proof -
    show ?thesis
      by (auto simp: filled_def rep_inv_def rep_off_def table_ok_def om_valid_def counts_off_def cnt_def
          dest: rows)
  qed
  have fin: "loading env {} rm" if f: "filled env n rm" "re_numRows env \<le> n" for rm n
  proof -
    have "has_key (list_key fe) (rm_factions rm)" if "listed env i fe" for i fe
      using f that rows [OF that] by (simp add: filled_def)
    then show ?thesis using f by (auto simp: loading_def unseen_zero_def filled_def dest!: map_of_SomeD)
  qed
  show ?thesis
  proof (cases "1 \<le> re_numRows env")
    case True
    have "triple (filled env 1) (each (init_faction env) (map of_nat [1..<re_numRows env]))
        (filled env (re_numRows env)) (\<lambda>_. True)"
      using each_filled [OF d True] by simp
    then show ?thesis
      unfolding Initialize_def
      by (intro triple_acts_Cons [where Q = "filled env 1"] triple_acts_Cons [OF _ triple_acts_Nil] triple_upd init)
        (erule triple_conseq, auto intro: fin)
  next
    case False
    then show ?thesis using init fin [of 1] by (auto simp: Initialize_def act_eval triple_def)
  qed
qed

lemma unseen_put:
  assumes "unseen_zero env seen rm"
    and "\<And>f. fs_ID (g f) = fs_ID f \<and> fs_Standing (g f) = fs_Standing f"
  shows "unseen_zero env seen (put_state k g rm)"
  using assms by (auto simp: unseen_zero_def put_state_def map_of_om_modify has_key_def)

lemma unseen_cong: "rm_factions rm' = rm_factions rm \<Longrightarrow> unseen_zero env seen rm = unseen_zero env seen rm'"
  by (simp add: unseen_zero_def)

lemma unseen_flag: "unseen_zero env seen rm \<Longrightarrow> unseen_zero env seen (put_state k (set_fs_flag m b) rm)"
  by (rule unseen_put) (simp_all add: set_fs_flag_def)

lemma unseen_ops:
  assumes "unseen_zero env seen rm"
  shows "unseen_zero env seen (fst (SetVisibleState env k rm))" "unseen_zero env seen (fst (SetAtWarState k b rm))"
    "unseen_zero env seen (fst (SetInactiveState k b rm))"
proof -
  note u = unseen_flag [OF assms]
  have "unseen_zero env seen ((put_state k (set_fs_flag m b) rm)\<lparr>rm_visible := v\<rparr>)" for k m b v
    using u [of k m b] by (simp add: unseen_zero_def)
  then show "unseen_zero env seen (fst (SetVisibleState env k rm))"
    using assms by (simp add: SetVisibleState_def act_eval modify_eval SendVisible_def put_state_def)
  show "unseen_zero env seen (fst (SetAtWarState k b rm))" "unseen_zero env seen (fst (SetInactiveState k b rm))"
    using assms u by (simp_all add: SetAtWarState_def SetInactiveState_def act_eval modify_eval)
qed

definition row_ok :: "rep_env \<Rightarrow> u16 \<times> int \<times> u16 \<Rightarrow> bool" where
  "row_ok env row \<longleftrightarrow> (case row of (i, s, flags) \<Rightarrow>
     Reputation_Bottom \<le> GetBaseReputation env (re_faction env (ucast i)) + s \<and>
     GetBaseReputation env (re_faction env (ucast i)) + s \<le> Reputation_Cap)"

abbreviation keeps_loading :: "rep_env \<Rightarrow> u32 set \<Rightarrow> u32 \<Rightarrow> rep_act \<Rightarrow> bool" where
  "keeps_loading env seen k x \<equiv> triple (\<lambda>rm. loading env seen rm \<and> has_key k (rm_factions rm)) x
     (\<lambda>rm. loading env seen rm \<and> has_key k (rm_factions rm)) (\<lambda>_. True)"

lemma state_ops_keys:
  "has_key j (rm_factions (fst (SetVisibleState env k rm))) = has_key j (rm_factions rm)"
  "has_key j (rm_factions (fst (SetAtWarState k b rm))) = has_key j (rm_factions rm)"
  "has_key j (rm_factions (fst (SetInactiveState k b rm))) = has_key j (rm_factions rm)"
  using put_has_key [of j k _ rm]
  by (simp_all add: SetVisibleState_def SetAtWarState_def SetInactiveState_def act_eval modify_eval
      SendVisible_def put_state_def)

lemma keeps_loading_ops:
  "keeps_loading env seen k (SetVisibleState env k)" "keeps_loading env seen k (SetAtWarState k b)"
  "keeps_loading env seen k (SetInactiveState k b)"
proof -
  show "keeps_loading env seen k (SetVisibleState env k)"
    using triple_state [OF keeps_SetVisibleState [of env 0 0 k]]
    by (intro tripleT) (auto simp: loading_def rep_inv_def state_ops_keys unseen_ops)
  show "keeps_loading env seen k (SetAtWarState k b)"
    using triple_state [OF keeps_SetAtWarState [of env 0 0 k b]]
    by (intro tripleT) (auto simp: loading_def rep_inv_def state_ops_keys unseen_ops)
  show "keeps_loading env seen k (SetInactiveState k b)"
    using triple_state [OF keeps_SetInactiveState [of env 0 0 k b]]
    by (intro tripleT) (auto simp: loading_def rep_inv_def state_ops_keys unseen_ops)
qed

lemma keeps_loading_modify:
  assumes "harmless g"
  shows "keeps_loading env seen k (modify_faction j g)"
proof (rule tripleT)
  fix rm assume a: "loading env seen rm \<and> has_key k (rm_factions rm)"
  have "unseen_zero env seen (put_state j g rm)"
    using a assms by (intro unseen_put) (simp_all add: loading_def harmless_def)
  then show "loading env seen (fst (modify_faction j g rm)) \<and> has_key k (rm_factions (fst (modify_faction j g rm)))"
    using a rep_off_harmless [OF _ assms] by (simp add: modify_eval loading_def rep_inv_def)
qed

lemma keeps_loading_cond:
  "keeps_loading env seen k x \<Longrightarrow> keeps_loading env seen k y \<Longrightarrow> keeps_loading env seen k (cond b x y)"
  by (simp add: triple_def act_eval)

lemma keeps_loading_load: "(\<And>v. keeps_loading env seen k (h v)) \<Longrightarrow> keeps_loading env seen k (load r h)"
  by (simp add: triple_def act_eval)


text \<open>Writing the standing of a row and counting its rank.\<close>

lemma load_standing:
  assumes d: "dbc_ok env" and i: "re_faction env i = Some fe" and l: "fe_listID fe \<ge> 0" and new: "i \<notin> seen"
    and st: "Reputation_Bottom \<le> GetBaseReputation env (Some fe) + standing"
      "GetBaseReputation env (Some fe) + standing \<le> Reputation_Cap"
  shows "triple (loading env seen) (acts
     [fetch_faction (list_key fe),
      modify_faction (list_key fe) (\<lambda>f. f\<lparr>fs_Standing := standing\<rparr>),
      UpdateRankCounters (ReputationToRank (GetBaseReputation env (Some fe)))
        (ReputationToRank (int32 (GetBaseReputation env (Some fe) + standing)))])
     (\<lambda>rm. loading env (insert i seen) rm \<and> has_key (list_key fe) (rm_factions rm)) (\<lambda>_. True)"
proof (rule tripleT)
  fix rm assume a: "loading env seen rm"
  let ?k = "list_key fe" and ?base = "GetBaseReputation env (Some fe)" and ?g = "\<lambda>f. f\<lparr>fs_Standing := standing\<rparr>"
  have k: "has_key ?k (rm_factions rm)" using a i l by (auto simp: loading_def unseen_zero_def listed_def)
  then obtain f where f: "map_of (rm_factions rm) ?k = Some f" by (auto simp: has_key_def)
  have inv: "rep_inv env rm" and u: "unseen_zero env seen rm" using a by (simp_all add: loading_def)
  have t: "table_ok env rm" using inv by (simp add: rep_inv_def rep_off_def)
  have e: "fs_ID f = i" using entry_is [OF d t i f] by blast
  have fs: "fstate rm ?k = f" using f by (simp add: fstate_def)
  have z: "fs_Standing f = 0" using u f e new by (simp add: unseen_zero_def)
  have tot: "total env f = ?base" "total env (?g f) = ?base + standing" using e i z by (simp_all add: total_def)
  have off: "rep_off env (ReputationToRank ?base) (ReputationToRank (?base + standing)) (put_state ?k ?g rm)"
    using set_standing_off [OF inv k, of ?g] st by (simp add: fs state_rank_def tot)
  have i32: "int32 (?base + standing) = ?base + standing" using st by (rule scale_int32)
  let ?u = "fst (UpdateRankCounters (ReputationToRank ?base) (ReputationToRank (?base + standing)) (put_state ?k ?g rm))"
  have "rep_inv env ?u" using triple_state [OF UpdateRankCounters_off off] .
  moreover have "rm_factions ?u = rm_factions (put_state ?k ?g rm)"
    by (simp add: UpdateRankCounters_def act_eval)
  moreover have "unseen_zero env (insert i seen) (put_state ?k ?g rm)"
    using u f e by (auto simp: unseen_zero_def put_state_def map_of_om_modify has_key_def)
  ultimately have "loading env (insert i seen) ?u \<and> has_key ?k (rm_factions ?u)"
    using k unseen_cong [of ?u "put_state ?k ?g rm"] by (simp add: loading_def)
  then show "loading env (insert i seen) (fst (acts
     [fetch_faction ?k, modify_faction ?k ?g, UpdateRankCounters (ReputationToRank ?base)
        (ReputationToRank (int32 (?base + standing)))] rm)) \<and>
     has_key ?k (rm_factions (fst (acts
     [fetch_faction ?k, modify_faction ?k ?g, UpdateRankCounters (ReputationToRank ?base)
        (ReputationToRank (int32 (?base + standing)))] rm)))"
    using k by (simp add: fetch_faction_def act_eval modify_eval i32)
qed

lemma load_row_loading:
  assumes d: "dbc_ok env" and row: "row_ok env (i, standing, flags)" and new: "ucast i \<notin> seen"
  shows "triple (loading env seen) (load_row env (i, standing, flags)) (loading env (insert (ucast i) seen)) (\<lambda>_. True)"
proof -
  have more: "loading env (insert j seen) rm" if "loading env seen rm" for rm and j
    using that by (simp add: loading_def unseen_zero_def)
  have split3: "acts (a # b # c # x # xs) = andThen (acts [a, b, c]) (acts (x # xs))" for a b c x :: rep_act and xs
    by (simp add: fun_eq_iff act_eval)
  show ?thesis
  proof (cases "re_faction env (ucast i)")
    case None
    then show ?thesis by (auto simp: load_row_def triple_def act_eval more)
  next
    case (Some fe)
    let ?k = "list_key fe"
    let ?L = "\<lambda>rm. loading env (insert (ucast i) seen) rm \<and> has_key ?k (rm_factions rm)"
    have skip: "triple ?L skip ?L (\<lambda>_. True)" by (rule triple_skip)
    show ?thesis
    proof (cases "fe_listID fe < 0")
      case True
      then show ?thesis using Some by (auto simp: load_row_def triple_def act_eval more)
    next
      case False
      have st: "triple (loading env seen) (acts
         [fetch_faction ?k, modify_faction ?k (\<lambda>f. f\<lparr>fs_Standing := standing\<rparr>),
          UpdateRankCounters (ReputationToRank (GetBaseReputation env (Some fe)))
            (ReputationToRank (int32 (GetBaseReputation env (Some fe) + standing)))]) ?L (\<lambda>_. True)"
        using row False Some by (intro load_standing [OF d Some _ new]) (simp_all add: row_ok_def)
      have h: "harmless (\<lambda>f. f\<lparr>fs_needSend := False, fs_needSave := False\<rparr>)" "harmless (\<lambda>f. f\<lparr>fs_roundedUp := False\<rparr>)"
        by (simp_all add: harmless_def has_flag_def)
      have rest: "triple ?L (acts
              [if db_flag flags FACTION_FLAG_VISIBLE then SetVisibleState env ?k else skip,
               if db_flag flags FACTION_FLAG_INACTIVE then SetInactiveState ?k True else skip,
               if db_flag flags FACTION_FLAG_AT_WAR
               then load (\<lambda>rm. \<not> db_flag flags FACTION_FLAG_HIDDEN \<or> GetRank env rm (Some fe) < REP_NEUTRAL)
                      (SetAtWarState ?k)
               else whenever (\<lambda>rm. has_flag (fstate rm ?k) FACTION_FLAG_VISIBLE) (SetAtWarState ?k False),
               whenever (\<lambda>rm. GetRank env rm (Some fe) \<le> REP_HOSTILE) (SetAtWarState ?k True),
               whenever (\<lambda>rm. ucast (fs_Flags (fstate rm ?k)) = flags)
                 (modify_faction ?k (\<lambda>f. f\<lparr>fs_needSend := False, fs_needSave := False\<rparr>)),
               modify_faction ?k (\<lambda>f. f\<lparr>fs_roundedUp := False\<rparr>)]) ?L (\<lambda>_. True)"
        by (rule triple_acts_inv)
          (auto intro!: keeps_loading_ops keeps_loading_load keeps_loading_cond keeps_loading_modify h skip)
      have "triple (loading env seen) (load_row env (i, standing, flags)) ?L (\<lambda>_. True)"
        using False Some triple_andThen [OF st rest] by (simp add: load_row_def Let_def split3)
      then show ?thesis by (rule triple_conseq) auto
    qed
  qed
qed

lemma load_rows_loading:
  assumes d: "dbc_ok env"
  shows "distinct (map (\<lambda>r. ucast (fst r) :: u32) rows) \<Longrightarrow> \<forall>r \<in> set rows. row_ok env r \<and> ucast (fst r) \<notin> seen \<Longrightarrow>
     triple (loading env seen) (each (load_row env) rows) (rep_inv env) (\<lambda>_. True)"
proof (induction rows arbitrary: seen)
  case Nil
  then show ?case by (simp add: each.simps triple_def act_eval loading_def)
next
  case (Cons r rows)
  obtain i s fl where r: "r = (i, s, fl)" by (cases r)
  have "triple (loading env seen) (load_row env r) (loading env (insert (ucast i) seen)) (\<lambda>_. True)"
    using Cons.prems load_row_loading [OF d] by (simp add: r)
  moreover have "triple (loading env (insert (ucast i) seen)) (each (load_row env) rows) (rep_inv env) (\<lambda>_. True)"
    using Cons.prems by (intro Cons.IH) (force simp: r image_iff)+
  ultimately show ?case by (simp add: each.simps triple_andThen)
qed

definition rows_ok :: "rep_env \<Rightarrow> (u16 \<times> int \<times> u16) list option \<Rightarrow> bool" where
  "rows_ok env result \<longleftrightarrow> (case result of None \<Rightarrow> True
     | Some rows \<Rightarrow> distinct (map fst rows) \<and> list_all (row_ok env) rows)"

lemma ucast_inj16: "(ucast (a :: u16) :: u32) = ucast b \<longleftrightarrow> a = b"
  by (simp add: word_uint_eq_iff uint_up_ucast is_up)

lemma LoadFromDB_inv:
  assumes d: "dbc_ok env" and r: "rows_ok env result"
  shows "triple (\<lambda>_. True) (LoadFromDB env result) (rep_inv env) (\<lambda>_. True)"
proof -
  have "triple (loading env {}) (case result of None \<Rightarrow> skip | Some rows \<Rightarrow> each (load_row env) rows)
     (rep_inv env) (\<lambda>_. True)"
  proof (cases result)
    case None
    then show ?thesis by (auto simp: triple_def act_eval loading_def)
  next
    case (Some rows)
    then have "distinct (map (\<lambda>r. ucast (fst r) :: u32) rows)"
      using r by (auto simp: rows_ok_def distinct_map inj_on_def ucast_inj16)
    with Some r show ?thesis
      by (auto simp: rows_ok_def list_all_iff intro: load_rows_loading [OF d])
  qed
  then show ?thesis
    unfolding LoadFromDB_def
    by (rule triple_acts_Cons [OF Initialize_loading [OF d] triple_acts_Cons [OF _ triple_acts_Nil]])
qed


section \<open>The reputation of a player as a component\<close>

datatype rep_op =
    RepGain u32 rat bool bool "ReputationRank option" | RepSetVisible u32 | RepSetAtWar u32 bool
  | RepSetInactive u32 bool | RepForce u32 ReputationRank bool | RepSendInitial | RepSendForce
  | RepSendStates | RepSave

fun run_rep :: "rep_env \<Rightarrow> rep_op \<Rightarrow> rep_act" where
  "run_rep env (RepGain i amount inc noSpill cap) =
     (case re_faction env i of None \<Rightarrow> skip | Some fe \<Rightarrow> SetReputation env fe amount inc noSpill cap)"
| "run_rep env (RepSetVisible faction) = SetVisibleTemplate env faction"
| "run_rep env (RepSetAtWar k on) = SetAtWar k on"
| "run_rep env (RepSetInactive k on) = SetInactive k on"
| "run_rep env (RepForce faction rank on) = ApplyForceReaction faction rank on"
| "run_rep env RepSendInitial = SendInitialReputations"
| "run_rep env RepSendForce = SendForceReactions"
| "run_rep env RepSendStates = SendStates"
| "run_rep env RepSave = SaveToDB env"

fun rep_op_ok :: "rep_op \<Rightarrow> bool" where
  "rep_op_ok (RepGain i amount inc noSpill cap) = cap_ok cap"
| "rep_op_ok _ = True"

definition rep_init :: "rep_env \<Rightarrow> ReputationMgr \<Rightarrow> bool" where
  "rep_init env rm \<longleftrightarrow> dbc_ok env \<and> (\<exists>rm0 result. rows_ok env result \<and> rm = fst (LoadFromDB env result rm0))"

inductive rep_step :: "rep_env \<Rightarrow> ReputationMgr \<Rightarrow> ReputationMgr \<Rightarrow> bool" for env where
  rep_step_op: "dbc_ok env \<Longrightarrow> hook_ok env \<Longrightarrow> rep_op_ok op \<Longrightarrow> rep_step env rm (fst (run_rep env op rm))"
| rep_step_load: "dbc_ok env \<Longrightarrow> rows_ok env result \<Longrightarrow> rep_step env rm (fst (LoadFromDB env result rm))"

inductive_cases rep_stepE: "rep_step env rm rm'"

lemma run_rep_inv:
  assumes "dbc_ok env" and "hook_ok env" and "rep_op_ok op"
  shows "keeps_inv env (run_rep env op)"
  using assms
  by (cases op) (auto intro!: SetReputation_inv SetVisibleTemplate_inv SetAtWar_inv SetInactive_inv
      ApplyForceReaction_inv SendInitial_inv keeps_inv_emit SendStates_inv SaveToDB_inv triple_skip
      simp: SendForceReactions_def split: option.split)

lemma rep_step_inv: "rep_inv env rm \<Longrightarrow> rep_step env rm rm' \<Longrightarrow> rep_inv env rm'"
  by (erule rep_stepE) (auto intro: triple_state [OF run_rep_inv] triple_state [OF LoadFromDB_inv])

lemma rep_init_inv: "rep_init env rm \<Longrightarrow> rep_inv env rm"
  by (auto simp: rep_init_def intro: triple_state [OF LoadFromDB_inv])

interpretation rep: component "rep_init env" "rep_step env" "rep_inv env" for env :: rep_env
  by (unfold_locales; blast intro: rep_init_inv rep_step_inv)

end
