(* ===== verification/RepProps.thy ===== *)
theory RepProps
  imports RepPreserve
begin

text \<open>What a player sees of the reputation: the ranks, the counters of a table that loading,
  gains and saving have produced, the effect of a gain on the standings, the packets and the rows of
  \<open>character_reputation\<close>.\<close>

section \<open>A concrete player\<close>

definition demo_faction :: FactionEntry where
  "demo_faction = \<lparr>fe_ID = 1, fe_listID = 0, fe_raceMask = [1, 0, 0, 0], fe_classMask = [0, 0, 0, 0],
     fe_baseValue = [3100, 0, 0, 0], fe_repFlags = [1, 0, 0, 0], fe_team = 0, fe_rateIn = 0, fe_rateOut = 0,
     fe_maxRankIn = 7\<rparr>"

definition demo_rep_env :: rep_env where
  "demo_rep_env = \<lparr>re_faction = (\<lambda>i. if i = 1 then Some demo_faction else None), re_numRows = 2, re_raceMask = 1,
     re_classMask = 1, re_spill = (\<lambda>_. None), re_teamList = (\<lambda>_. None), re_gainRate = 1,
     re_hook = (\<lambda>i s inc. (True, s)), re_badCast = (\<lambda>_. - (2 ^ 31)), re_loading = False, re_guid = 42\<rparr>"

definition rm_empty :: ReputationMgr where
  "rm_empty = \<lparr>rm_factions = [], rm_forced = [], rm_visible = 0, rm_honored = 0, rm_revered = 0, rm_exalted = 0,
     rm_sendIncreased = False\<rparr>"

definition demo_rep :: ReputationMgr where
  "demo_rep = fst (LoadFromDB demo_rep_env (Some [(1, 20000, 1)]) rm_empty)"



section \<open>Ranks\<close>

text \<open>C11: ranks and standings fit together: the standing of a rank has that rank, and it is the
  greatest one on the scale that has: a standing has at most rank \<open>r\<close> exactly if it does not
  exceed the standing of \<open>r\<close>.\<close>

theorem rank_standing_galois:
  assumes "r \<le> 7" and "s \<le> Reputation_Cap"
  shows "ReputationToRank (ReputationRankToStanding r) = r \<and>
     (ReputationToRank s \<le> r \<longleftrightarrow> s \<le> ReputationRankToStanding r)"
proof -
  have "ReputationToRank s \<le> r \<longleftrightarrow> s \<le> ReputationRankToStanding r"
    using assms by (auto simp: rank_cases7 standing_eval rank_eval Reputation_Cap_def)
  with rank_of_standing [OF assms(1)] show ?thesis by blast
qed

theorem rank_standing_galois_witness: "ReputationToRank 20999 \<le> 5 \<longleftrightarrow> 20999 \<le> ReputationRankToStanding 5"
  using rank_standing_galois [of 5 20999] by (simp add: Reputation_Cap_def)

section \<open>The table and its counters\<close>




section \<open>The effect of a gain\<close>

text \<open>What the state functions do to a standing elsewhere in the table: nothing.\<close>

lemma standing_frame [simp]:
  "fs_Standing (fstate (fst (SetVisibleState env k rm)) j) = fs_Standing (fstate rm j)"
  "fs_Standing (fstate (fst (SetAtWarState k b rm)) j) = fs_Standing (fstate rm j)"
  "fs_Standing (fstate (fst (SetInactiveState k b rm)) j) = fs_Standing (fstate rm j)"
  "fstate (fst (UpdateRankCounters o' n' rm)) j = fstate rm j"
proof -
  have f: "fs_Standing (fstate (put_state k (set_fs_flag m b) rm) j) = fs_Standing (fstate rm j)" for m b
    by (simp add: fstate_put set_fs_flag_def)
  have v: "fstate (rm'\<lparr>rm_visible := v\<rparr>) j = fstate rm' j" for rm' v by (simp add: fstate_def)
  show "fs_Standing (fstate (fst (SetVisibleState env k rm)) j) = fs_Standing (fstate rm j)"
    using f v by (simp add: SetVisibleState_def act_eval modify_eval SendVisible_def)
  show "fs_Standing (fstate (fst (SetAtWarState k b rm)) j) = fs_Standing (fstate rm j)"
    "fs_Standing (fstate (fst (SetInactiveState k b rm)) j) = fs_Standing (fstate rm j)"
    using f by (simp_all add: SetAtWarState_def SetInactiveState_def act_eval modify_eval)
  show "fstate (fst (UpdateRankCounters o' n' rm)) j = fstate rm j"
    by (simp add: UpdateRankCounters_def act_eval fstate_def)
qed



lemma SendState_standing [simp]: "fs_Standing (fstate (fst (SendState k rm)) j) = fs_Standing (fstate rm j)"
proof -
  have "map_of (map (\<lambda>(k, f). (k, f\<lparr>fs_needSend := False\<rparr>)) m) j = map_option (\<lambda>f. f\<lparr>fs_needSend := False\<rparr>) (map_of m j)"
    for m :: "(u32 \<times> FactionState) list" by (induction m) auto
  then show ?thesis
    by (simp add: SendState_def act_eval clear_pending_def fstate_def split: option.split)
qed

lemma has_key_frame [simp]:
  "has_key j (rm_factions (fst (SendState k rm))) = has_key j (rm_factions rm)"
  "has_key j (rm_factions (fst (UpdateRankCounters a b rm))) = has_key j (rm_factions rm)"
  "has_key j (rm_factions (fst (SetOneFactionReputation env fe st inc cap rm))) = has_key j (rm_factions rm)"
proof -
  have "map fst (map (\<lambda>(k, f). (k, g f)) m) = map fst m" for g :: "FactionState \<Rightarrow> FactionState" and m :: "(u32 \<times> FactionState) list"
    by (induction m) auto
  from this [of "\<lambda>f. f\<lparr>fs_needSend := False\<rparr>" "rm_factions rm"]
  show "has_key j (rm_factions (fst (SendState k rm))) = has_key j (rm_factions rm)"
    by (simp add: SendState_def act_eval clear_pending_def has_key_iff)
  have u: "has_key j (rm_factions (fst (UpdateRankCounters x y r))) = has_key j (rm_factions r)" for x y r
    by (simp add: UpdateRankCounters_def act_eval)
  show "has_key j (rm_factions (fst (UpdateRankCounters a b rm))) = has_key j (rm_factions rm)" by (rule u)
  show "has_key j (rm_factions (fst (SetOneFactionReputation env fe st inc cap rm))) = has_key j (rm_factions rm)"
    by (simp add: SetOneFactionReputation_def commit_standing_def act_eval modify_eval state_ops_keys u put_has_key
        split: prod.split bool.split)
qed





text \<open>C18: the test meant to find amounts with a fraction, \<open>fabs(modff(stand, &stand2)) < 1\<close>, is always
  true: the rounding bit flips at every gain, whole amounts included, so the alternation that
  should make two halves a whole loses points: gains of 0.5, 1 and 0.5 add 1.\<close>

theorem rounding_always_flips:
  "snd (rounded_standing env x b) = (\<not> b) \<and>
   (let (a1, b1) = rounded_standing demo_rep_env (1 / 2) False;
        (a2, b2) = rounded_standing demo_rep_env 1 b1;
        (a3, b3) = rounded_standing demo_rep_env (1 / 2) b2
    in a1 + a2 + a3 = 1)"
proof -
  have "\<bar>x - of_int (ftrunc x)\<bar> < 1" using ceiling_or_trunc(1) [of x] by (simp add: abs_minus_commute)
  moreover have "(let (a1, b1) = rounded_standing demo_rep_env (1 / 2) False;
        (a2, b2) = rounded_standing demo_rep_env 1 b1;
        (a3, b3) = rounded_standing demo_rep_env (1 / 2) b2
    in a1 + a2 + a3 = 1)" by code_simp
  ultimately show ?thesis by (simp add: rounded_standing_def)
qed

section \<open>Packets\<close>

text \<open>After \<open>SendState\<close> nothing is pending, and the packet announces as many factions as it
  lists: the faction itself and each other faction that was pending.\<close>

theorem send_state_complete:
  "(\<forall>f \<in> snd ` set (rm_factions (fst (SendState k rm))). \<not> fs_needSend f) \<and>
   (\<exists>fs. snd (SendState k rm) = [RepPacket SMSG_SET_FACTION_STANDING
       ([RFloat 0, R8 (count_if (rm_sendIncreased rm)), R32 (of_nat (length fs))] @ concat (map state_fields fs))] \<and>
     set fs = insert (fstate rm k)
       {f \<in> snd ` set (rm_factions rm). fs_needSend f \<and> fs_ListID f \<noteq> fs_ListID (fstate rm k)})"
proof -
  let ?fs = "fstate rm k # other_pending (fstate rm k) rm"
  have "set ?fs = insert (fstate rm k)
      {f \<in> snd ` set (rm_factions rm). fs_needSend f \<and> fs_ListID f \<noteq> fs_ListID (fstate rm k)}"
    by (auto simp: other_pending_def)
  then show ?thesis
    by (intro conjI exI [where x = ?fs]) (auto simp: SendState_def act_eval clear_pending_def Let_def)
qed

theorem send_state_complete_witness:
  "\<not> fs_needSend (snd (hd (rm_factions (fst (SendState 0 demo_rep)))))"
proof -
  have "rm_factions (fst (SendState 0 demo_rep)) \<noteq> []" by code_simp
  then have "snd (hd (rm_factions (fst (SendState 0 demo_rep)))) \<in>
      snd ` set (rm_factions (fst (SendState 0 demo_rep)))" by simp
  with send_state_complete [of 0 demo_rep] show ?thesis by blast
qed

lemma absent_length: "length (absent_fields a b) = 2 * unat (b - a)"
  by (simp add: absent_fields_def length_concat sum_list_replicate)

lemma initial_length:
  "om_valid m \<Longrightarrow> \<forall>k \<in> set (keys m). a \<le> k \<and> k < 128 \<Longrightarrow> a \<le> 128 \<Longrightarrow>
     length (initial_fields a m) = 2 * unat (128 - a)"
proof (induction a m rule: initial_fields.induct)
  case (1 a)
  then show ?case by (simp add: absent_length)
next
  case (2 a k f m)
  have k: "a \<le> k" "k < 128" using "2.prems" by simp_all
  have kk: "unat k < 128" using k(2) by (simp add: word_less_nat_alt)
  then have k1: "unat (k + 1) = unat k + 1" by (simp add: unat_word_ariths)
  have above: "\<forall>j \<in> set (keys m). k + 1 \<le> j \<and> j < 128"
    using "2.prems" k1 by (auto simp: om_valid_Cons word_le_nat_alt word_less_nat_alt)
  have "k + 1 \<le> 128" using kk k1 by (simp add: word_le_nat_alt)
  then have "length (initial_fields (k + 1) m) = 2 * unat (128 - (k + 1))"
    using "2.prems" above by (intro "2.IH") (simp_all add: om_valid_Cons)
  moreover have "unat (128 - (k + 1)) = 127 - unat k"
    using unat_sub [OF \<open>k + 1 \<le> 128\<close>] k1 by (simp del: diff_add_eq_diff_diff_swap)
  moreover have "unat (k - a) = unat k - unat a" "unat (128 - a) = 128 - unat a"
    using k(1) "2.prems"(3) by (simp_all add: unat_sub)
  moreover have "unat a \<le> unat k" using k(1) by (simp add: word_le_nat_alt)
  ultimately show ?case using kk by (simp add: absent_length)
qed

text \<open>The initial packet holds exactly the 128 entries the client expects, as long as all list
  ids are below 128.\<close>

theorem initial_packet_128:
  assumes "om_valid (rm_factions rm)" and "\<forall>k \<in> set (keys (rm_factions rm)). k < 128"
  shows "\<exists>fields. snd (SendInitialReputations rm) = [RepPacket SMSG_INITIALIZE_FACTIONS (R32 128 # fields)] \<and>
     length fields = 2 * 128"
  using initial_length [OF assms(1), of 0] assms(2)
  by (simp add: SendInitialReputations_def act_eval)

theorem initial_packet_128_witness:
  "\<exists>fields. snd (SendInitialReputations demo_rep) = [RepPacket SMSG_INITIALIZE_FACTIONS (R32 128 # fields)] \<and>
     length fields = 2 * 128"
proof (rule initial_packet_128)
  show "om_valid (rm_factions demo_rep)" by code_simp
  show "\<forall>k \<in> set (keys (rm_factions demo_rep)). k < 128" by code_simp
qed

text \<open>Nothing guards the loop against a list id past the last one: with a faction filed under 128
  the index of the loop passes 128 and runs through all 32-bit values before it stops, so that the
  packet holds more than four billion entries.\<close>

theorem initial_packet_runaway: "length (initial_fields 0 [(128, f)]) = 2 * (2 ^ 32 + 128)"
proof -
  have "unat (- 1 :: u32) = 2 ^ 32 - 1" by (simp add: unsigned_minus_1_eq_mask mask_eq_exp_minus_1)
  then show ?thesis by (simp add: absent_length)
qed

section \<open>Saving\<close>










end
