(* ===== verification/EventMap.thy ===== *)
theory EventMap
  imports Containers
begin

text \<open>
  The event map of creature scripts (\<open>src/src/common/Utilities/EventMap.cpp\<close> and \<open>EventMap.h\<close>):
  a timer, a set of phases and a multimap from due times to event data \<open>0xPPGGEEEE\<close> (phase bits,
  group bits, event id). Times are 32 bits wide and wrap. A time given as \<open>Milliseconds\<close> is a
  64-bit count, cut to 32 bits where the code passes it on. The value drawn by \<open>urand\<close> is an
  argument of the operations that draw one.
\<close>

section \<open>State\<close>

record EventMap =
  em_time :: u32
  em_phase :: u32
  em_last :: u32
  em_map :: "(u32 \<times> u32) list"

definition em_init :: EventMap where
  "em_init = \<lparr>em_time = 0, em_phase = 0, em_last = 0, em_map = []\<rparr>"

definition Reset :: "EventMap \<Rightarrow> EventMap" where
  "Reset em = em\<lparr>em_map := [], em_time := 0, em_phase := 0\<rparr>"

definition Update :: "u32 \<Rightarrow> EventMap \<Rightarrow> EventMap" where
  "Update time em = em\<lparr>em_time := em_time em + time\<rparr>"

definition UpdateMs :: "int \<Rightarrow> EventMap \<Rightarrow> EventMap" where
  "UpdateMs time em = em\<lparr>em_time := em_time em + word_of_int time\<rparr>"

definition GetTimer :: "EventMap \<Rightarrow> u32" where
  "GetTimer em = em_time em"

definition SetTimer :: "u32 \<Rightarrow> EventMap \<Rightarrow> EventMap" where
  "SetTimer time em = em\<lparr>em_time := time\<rparr>"

definition GetPhaseMask :: "EventMap \<Rightarrow> u8" where
  "GetPhaseMask em = ucast (em_phase em)"

definition em_Empty :: "EventMap \<Rightarrow> bool" where
  "em_Empty em \<longleftrightarrow> em_map em = []"

section \<open>Phases\<close>

definition SetPhase :: "u8 \<Rightarrow> EventMap \<Rightarrow> EventMap" where
  "SetPhase phase em =
     (if phase = 0 then em\<lparr>em_phase := 0\<rparr>
      else if phase \<le> 8 then em\<lparr>em_phase := push_bit (unat (phase - 1)) 1\<rparr>
      else em)"

definition AddPhase :: "u8 \<Rightarrow> EventMap \<Rightarrow> EventMap" where
  "AddPhase phase em =
     (if phase \<noteq> 0 \<and> phase \<le> 8
      then em\<lparr>em_phase := em_phase em OR push_bit (unat (phase - 1)) 1\<rparr> else em)"

definition RemovePhase :: "u8 \<Rightarrow> EventMap \<Rightarrow> EventMap" where
  "RemovePhase phase em =
     (if phase \<noteq> 0 \<and> phase \<le> 8
      then em\<lparr>em_phase := em_phase em AND NOT (push_bit (unat (phase - 1)) 1)\<rparr> else em)"

definition IsInPhase :: "u8 \<Rightarrow> EventMap \<Rightarrow> bool" where
  "IsInPhase phase em \<longleftrightarrow>
     phase \<le> 8 \<and> (phase = 0 \<or> em_phase em AND push_bit (unat (phase - 1)) 1 \<noteq> 0)"

section \<open>Scheduling\<close>

definition event_data :: "u32 \<Rightarrow> u32 \<Rightarrow> u32 \<Rightarrow> u32" where
  "event_data eventId grp phase =
     (let e1 = (if grp \<noteq> 0 \<and> grp \<le> 8 then eventId OR push_bit (unat (grp + 15)) 1 else eventId)
      in if phase \<noteq> 0 \<and> phase \<le> 8 then e1 OR push_bit (unat (phase + 23)) 1 else e1)"

definition ScheduleEvent :: "u32 \<Rightarrow> u32 \<Rightarrow> u32 \<Rightarrow> u32 \<Rightarrow> EventMap \<Rightarrow> EventMap" where
  "ScheduleEvent eventId time grp phase em =
     em\<lparr>em_map := mm_insert (em_time em + time) (event_data eventId grp phase) (em_map em)\<rparr>"

definition ScheduleEventMs :: "u32 \<Rightarrow> int \<Rightarrow> u32 \<Rightarrow> u8 \<Rightarrow> EventMap \<Rightarrow> EventMap" where
  "ScheduleEventMs eventId time grp phase =
     ScheduleEvent eventId (word_of_int time) grp (ucast phase)"

definition randtime :: "int \<Rightarrow> u32 \<Rightarrow> int" where
  "randtime min_time drawn = min_time + uint drawn"

definition ScheduleEventRand :: "u32 \<Rightarrow> int \<Rightarrow> u32 \<Rightarrow> u32 \<Rightarrow> u32 \<Rightarrow> EventMap \<Rightarrow> EventMap" where
  "ScheduleEventRand eventId minTime drawn grp phase =
     ScheduleEvent eventId (word_of_int (randtime minTime drawn)) grp phase"

definition event_id :: "u32 \<Rightarrow> u32" where
  "event_id e = e AND 0x0000FFFF"

definition CancelEvent :: "u32 \<Rightarrow> EventMap \<Rightarrow> EventMap" where
  "CancelEvent eventId em =
     (if em_Empty em then em
      else em\<lparr>em_map := filter (\<lambda>(k, e). \<not> (eventId = event_id e)) (em_map em)\<rparr>)"

definition RescheduleEvent :: "u32 \<Rightarrow> u32 \<Rightarrow> u32 \<Rightarrow> u32 \<Rightarrow> EventMap \<Rightarrow> EventMap" where
  "RescheduleEvent eventId time grp phase em =
     ScheduleEvent eventId time grp phase (CancelEvent eventId em)"

definition RescheduleEventMs :: "u32 \<Rightarrow> int \<Rightarrow> u32 \<Rightarrow> u8 \<Rightarrow> EventMap \<Rightarrow> EventMap" where
  "RescheduleEventMs eventId time grp phase em =
     ScheduleEvent eventId (word_of_int time) grp (ucast phase) (CancelEvent eventId em)"

definition RescheduleEventRand :: "u32 \<Rightarrow> int \<Rightarrow> u32 \<Rightarrow> u32 \<Rightarrow> u32 \<Rightarrow> EventMap \<Rightarrow> EventMap" where
  "RescheduleEventRand eventId minTime drawn grp phase em =
     ScheduleEvent eventId (word_of_int (randtime minTime drawn)) grp phase (CancelEvent eventId em)"

definition RepeatEvent :: "u32 \<Rightarrow> EventMap \<Rightarrow> EventMap" where
  "RepeatEvent time em = em\<lparr>em_map := mm_insert (em_time em + time) (em_last em) (em_map em)\<rparr>"

definition RepeatMs :: "int \<Rightarrow> EventMap \<Rightarrow> EventMap" where
  "RepeatMs time = RepeatEvent (word_of_int time)"

definition RepeatRand :: "int \<Rightarrow> u32 \<Rightarrow> EventMap \<Rightarrow> EventMap" where
  "RepeatRand minTime drawn = RepeatEvent (word_of_int (randtime minTime drawn))"

section \<open>Executing\<close>

text \<open>An event bound to phases is dropped when its time comes in none of them.\<close>

definition out_of_phase :: "u32 \<Rightarrow> u32 \<Rightarrow> bool" where
  "out_of_phase phase e \<longleftrightarrow>
     phase \<noteq> 0 \<and> e AND 0xFF000000 \<noteq> 0 \<and> drop_bit 24 e AND phase = 0"

fun execute_loop :: "u32 \<Rightarrow> u32 \<Rightarrow> (u32 \<times> u32) list \<Rightarrow> u32 option \<times> (u32 \<times> u32) list" where
  "execute_loop time phase [] = (None, [])"
| "execute_loop time phase ((k, e) # m) =
     (if k > time then (None, (k, e) # m)
      else if out_of_phase phase e then execute_loop time phase m
      else (Some e, m))"

definition ExecuteEvent :: "EventMap \<Rightarrow> u32 \<times> EventMap" where
  "ExecuteEvent em =
     (case execute_loop (em_time em) (em_phase em) (em_map em) of
        (None, m) \<Rightarrow> (0, em\<lparr>em_map := m\<rparr>)
      | (Some e, m) \<Rightarrow> (event_id e, em\<lparr>em_last := e, em_map := m\<rparr>))"

section \<open>Delaying\<close>

definition DelayEvents :: "u32 \<Rightarrow> EventMap \<Rightarrow> EventMap" where
  "DelayEvents delay em = em\<lparr>em_time := (if delay < em_time em then em_time em - delay else 0)\<rparr>"

definition DelayEventsMs :: "int \<Rightarrow> EventMap \<Rightarrow> EventMap" where
  "DelayEventsMs delay = DelayEvents (word_of_int delay)"

definition in_group :: "u32 \<Rightarrow> u32 \<Rightarrow> bool" where
  "in_group grp e \<longleftrightarrow> grp = 0 \<or> e AND push_bit (unat (grp + 15)) 1 \<noteq> 0"

definition insert_all :: "(u32 \<times> u32) list \<Rightarrow> (u32 \<times> u32) list \<Rightarrow> (u32 \<times> u32) list" where
  "insert_all es m = fold (\<lambda>(k, e). mm_insert k e) es m"

definition DelayEventsGroup :: "u32 \<Rightarrow> u32 \<Rightarrow> EventMap \<Rightarrow> EventMap" where
  "DelayEventsGroup delay grp em =
     (if grp > 8 \<or> em_Empty em then em
      else let delayed = insert_all (map (\<lambda>(k, e). (k + delay, e))
                                       (filter (\<lambda>(k, e). in_group grp e) (em_map em))) []
           in em\<lparr>em_map := insert_all delayed (filter (\<lambda>(k, e). \<not> in_group grp e) (em_map em))\<rparr>)"

text \<open>The loop of \<open>DelayEventsToMax\<close>: the first event that is due too early is entered again at
  \<open>_time + delay\<close> and removed, and the loop starts over. There is no guard on the group: with a
  group above 16 the shift is undefined, and \<open>ub\<close> is the mask the machine makes of it.\<close>

definition max_mask :: "(u32 \<Rightarrow> u32) \<Rightarrow> u32 \<Rightarrow> u32" where
  "max_mask ub grp = (if grp \<le> 16 then push_bit (unat (grp + 15)) 1 else ub grp)"

definition too_early :: "(u32 \<Rightarrow> u32) \<Rightarrow> u32 \<Rightarrow> u32 \<Rightarrow> u32 \<times> u32 \<Rightarrow> bool" where
  "too_early ub target grp x \<longleftrightarrow>
     fst x < target \<and> (grp = 0 \<or> max_mask ub grp AND snd x \<noteq> 0)"

function to_max_loop :: "(u32 \<Rightarrow> u32) \<Rightarrow> u32 \<Rightarrow> u32 \<Rightarrow> (u32 \<times> u32) list \<Rightarrow> (u32 \<times> u32) list" where
  "to_max_loop ub target grp m =
     (case List.extract (too_early ub target grp) m of
        None \<Rightarrow> m
      | Some (before, (k, e), after) \<Rightarrow>
          to_max_loop ub target grp (mm_insert target e (before @ after)))"
  by auto

definition DelayEventsToMax :: "(u32 \<Rightarrow> u32) \<Rightarrow> u32 \<Rightarrow> u32 \<Rightarrow> EventMap \<Rightarrow> EventMap" where
  "DelayEventsToMax ub delay grp em =
     em\<lparr>em_map := to_max_loop ub (em_time em + delay) grp (em_map em)\<rparr>"

section \<open>Cancelling a group and reading\<close>

text \<open>The loop of \<open>CancelEventGroup\<close> starts over after each removal.\<close>

function cancel_group_loop :: "u32 \<Rightarrow> (u32 \<times> u32) list \<Rightarrow> (u32 \<times> u32) list" where
  "cancel_group_loop groupMask m =
     (case List.extract (\<lambda>(k, e). e AND groupMask \<noteq> 0) m of
        None \<Rightarrow> m
      | Some (before, _, after) \<Rightarrow> cancel_group_loop groupMask (before @ after))"
  by auto

termination
  by (relation "measure (\<lambda>(_, m). length m)") (auto simp: extract_Some_iff)

definition CancelEventGroup :: "u32 \<Rightarrow> EventMap \<Rightarrow> EventMap" where
  "CancelEventGroup grp em =
     (if grp = 0 \<or> grp > 8 \<or> em_Empty em then em
      else em\<lparr>em_map := cancel_group_loop (push_bit (unat (grp + 15)) 1) (em_map em)\<rparr>)"

definition GetNextEventTimeOf :: "u32 \<Rightarrow> EventMap \<Rightarrow> u32" where
  "GetNextEventTimeOf eventId em =
     (if em_Empty em then 0
      else case List.find (\<lambda>(k, e). eventId = event_id e) (em_map em) of
             Some (k, e) \<Rightarrow> k | None \<Rightarrow> 0)"

definition GetNextEventTime :: "EventMap \<Rightarrow> u32" where
  "GetNextEventTime em = (if em_Empty em then 0 else fst (hd (em_map em)))"

definition Milliseconds_max :: int where
  "Milliseconds_max = 2 ^ 63 - 1"

definition GetTimeUntilEvent :: "u32 \<Rightarrow> EventMap \<Rightarrow> int" where
  "GetTimeUntilEvent eventId em =
     (case List.find (\<lambda>(k, e). eventId = event_id e) (em_map em) of
        Some (k, e) \<Rightarrow> uint k - uint (em_time em) | None \<Rightarrow> Milliseconds_max)"

section \<open>Termination of the restarting loop\<close>

text \<open>Each round moves one event to the target time, where it is no longer too early.\<close>

abbreviation count_early :: "(u32 \<Rightarrow> u32) \<Rightarrow> u32 \<Rightarrow> u32 \<Rightarrow> (u32 \<times> u32) list \<Rightarrow> nat" where
  "count_early ub target grp m \<equiv> size (filter_mset (too_early ub target grp) (mset m))"

lemma to_max_round:
  assumes "List.extract (too_early ub target grp) m = Some (before, (k, e), after)"
  shows "count_early ub target grp (mm_insert target e (before @ after)) < count_early ub target grp m"
  using assms by (auto simp: extract_Some_iff mset_mm_insert too_early_def)

termination to_max_loop
  by (relation "measure (\<lambda>(ub, target, grp, m). count_early ub target grp m)") (auto dest: to_max_round)

declare to_max_loop.simps [simp del] cancel_group_loop.simps [simp del]

end
