(* ===== verification/EventMapProps.thy ===== *)
theory EventMapProps
  imports EventMap
begin

text \<open>What scripts rely on in the event map: the restarting loops come to a plain filter and a stable
  sort, every reachable map is in order of time, execution takes out exactly what is due, and the
  packed event data, the delays and the timer's wrap-around behave as stated.\<close>

section \<open>The restarting loops\<close>

lemma cancel_group_filter: "cancel_group_loop msk m = filter (\<lambda>(k, e). e AND msk = 0) m"
proof (induction msk m rule: cancel_group_loop.induct)
  case (1 msk m)
  show ?case
  proof (cases "List.extract (\<lambda>(k, e). e AND msk \<noteq> 0) m")
    case None
    then have "filter (\<lambda>(k, e). e AND msk = 0) m = m" by (auto simp: extract_None_iff intro: filter_True)
    with None show ?thesis by (subst cancel_group_loop.simps) simp
  next
    case (Some r)
    obtain before x after where r: "r = (before, x, after)" by (cases r)
    have m: "m = before @ x # after" "snd x AND msk \<noteq> 0" using Some by (auto simp: r extract_Some_iff)
    have "cancel_group_loop msk (before @ after) = filter (\<lambda>(k, e). e AND msk = 0) (before @ after)"
      using "1.IH" [OF Some] r by blast
    then show ?thesis using m Some by (subst cancel_group_loop.simps) (auto simp: r split: prod.split)
  qed
qed

lemma to_max_sort:
  assumes "mm_valid m"
  shows "to_max_loop ub target grp m =
     sort_key fst (filter (\<lambda>x. \<not> too_early ub target grp x) m @
       map (\<lambda>x. (target, snd x)) (filter (too_early ub target grp) m))"
  using assms
proof (induction ub target grp m rule: to_max_loop.induct)
  case (1 ub target grp m)
  let ?P = "too_early ub target grp"
  show ?case
  proof (cases "List.extract ?P m")
    case None
    then have "filter (\<lambda>x. \<not> ?P x) m = m" "filter ?P m = []"
      by (auto simp: extract_None_iff filter_empty_conv intro: filter_True)
    then show ?thesis using None "1.prems"
      by (subst to_max_loop.simps) (simp add: sort_key_id_if_sorted mm_valid_def)
  next
    case (Some r)
    obtain before k e after where r: "r = (before, (k, e), after)" by (cases r) auto
    have m: "m = before @ (k, e) # after" "?P (k, e)" "\<forall>x \<in> set before. \<not> ?P x"
      using Some by (auto simp: r extract_Some_iff)
    have v: "mm_valid (before @ after)" using "1.prems" by (simp add: m mm_valid_def sorted_append)
    have late: "\<not> ?P (target, e)" by (simp add: too_early_def)
    have nb: "filter ?P before = []" "filter (\<lambda>x. \<not> ?P x) before = before"
      using m(3) by (auto simp: filter_empty_conv)
    let ?m = "mm_insert target e (before @ after)"
    have e1: "filter (\<lambda>x. \<not> ?P x) ?m =
        sort_key fst (before @ filter (\<lambda>x. \<not> ?P x) after @ [(target, e)])"
      using late nb by (simp add: mm_insert_sort [OF v] filter_sort)
    have e2: "filter ?P ?m = filter ?P after"
    proof -
      have "sorted (map fst (filter ?P after))" using v by (auto simp: mm_valid_def sorted_append intro: sorted_filter)
      then show ?thesis using late nb by (simp add: mm_insert_sort [OF v] filter_sort sort_key_id_if_sorted)
    qed
    have "to_max_loop ub target grp m = to_max_loop ub target grp ?m"
      using Some by (subst to_max_loop.simps) (simp add: r)
    also have "\<dots> = sort_key fst (filter (\<lambda>x. \<not> ?P x) ?m @ map (\<lambda>x. (target, snd x)) (filter ?P ?m))"
      using "1.IH" [OF Some] r mm_valid_insert [OF v] by blast
    also have "\<dots> = sort_key fst (filter (\<lambda>x. \<not> ?P x) m @ map (\<lambda>x. (target, snd x)) (filter ?P m))"
      using m nb by (simp add: e1 e2 sort_key_append)
    finally show ?thesis .
  qed
qed

section \<open>Reachable event maps\<close>

definition em_inv :: "EventMap \<Rightarrow> bool" where
  "em_inv em \<longleftrightarrow> mm_valid (em_map em)"

datatype em_op =
    EmReset | EmUpdate u32 | EmUpdateMs int | EmSetTimer u32 | EmSetPhase u8 | EmAddPhase u8 | EmRemovePhase u8
  | EmSchedule u32 u32 u32 u32 | EmReschedule u32 u32 u32 u32 | EmRepeat u32 | EmExecute
  | EmDelay u32 | EmDelayGroup u32 u32 | EmDelayToMax u32 u32 | EmCancel u32 | EmCancelGroup u32

fun run_em :: "(u32 \<Rightarrow> u32) \<Rightarrow> em_op \<Rightarrow> EventMap \<Rightarrow> EventMap" where
  "run_em ub EmReset = Reset"
| "run_em ub (EmUpdate t) = Update t"
| "run_em ub (EmUpdateMs t) = UpdateMs t"
| "run_em ub (EmSetTimer t) = SetTimer t"
| "run_em ub (EmSetPhase p) = SetPhase p"
| "run_em ub (EmAddPhase p) = AddPhase p"
| "run_em ub (EmRemovePhase p) = RemovePhase p"
| "run_em ub (EmSchedule i t g p) = ScheduleEvent i t g p"
| "run_em ub (EmReschedule i t g p) = RescheduleEvent i t g p"
| "run_em ub (EmRepeat t) = RepeatEvent t"
| "run_em ub EmExecute = (\<lambda>em. snd (ExecuteEvent em))"
| "run_em ub (EmDelay d) = DelayEvents d"
| "run_em ub (EmDelayGroup d g) = DelayEventsGroup d g"
| "run_em ub (EmDelayToMax d g) = DelayEventsToMax ub d g"
| "run_em ub (EmCancel i) = CancelEvent i"
| "run_em ub (EmCancelGroup g) = CancelEventGroup g"

inductive em_step :: "EventMap \<Rightarrow> EventMap \<Rightarrow> bool" where
  "em_step em (run_em ub op em)"

lemma insert_all_valid: "mm_valid m \<Longrightarrow> mm_valid (insert_all es m)"
  unfolding insert_all_def using mmq.ins_many by blast

lemma execute_suffix: "\<exists>xs. m = xs @ snd (execute_loop t ph m)"
proof (induction t ph m rule: execute_loop.induct)
  case (2 t ph k e m)
  have "\<exists>xs. m = xs @ snd (execute_loop t ph m) \<Longrightarrow> \<exists>xs. (k, e) # m = xs @ snd (execute_loop t ph m)"
    by (metis append_Cons)
  with 2 show ?case by auto
qed simp

lemma execute_valid: "mm_valid m \<Longrightarrow> mm_valid (snd (execute_loop t ph m))"
  using execute_suffix [of m t ph] by (metis map_append mm_valid_def sorted_append)

lemma to_max_valid: "mm_valid m \<Longrightarrow> mm_valid (to_max_loop ub target grp m)"
  by (simp add: to_max_sort mm_valid_def)

lemma run_em_inv: "em_inv em \<Longrightarrow> em_inv (run_em ub op em)"
  by (cases op) (auto simp: em_inv_def Reset_def Update_def UpdateMs_def SetTimer_def SetPhase_def AddPhase_def
      RemovePhase_def ScheduleEvent_def RescheduleEvent_def CancelEvent_def RepeatEvent_def ExecuteEvent_def
      DelayEvents_def DelayEventsGroup_def DelayEventsToMax_def CancelEventGroup_def cancel_group_filter
      mmq.ins_valid mm_valid_filter insert_all_valid to_max_valid Let_def mm_valid_def [of "[]"]
      dest: execute_valid [of _ "em_time em" "em_phase em"] split: prod.split option.split)

interpretation em: component "\<lambda>em. em = em_init" em_step em_inv
proof
  show "em = em_init \<Longrightarrow> em_inv em" for em by (simp add: em_inv_def em_init_def mm_valid_def)
  show "em_inv s \<Longrightarrow> em_step s t \<Longrightarrow> em_inv t" for s t by (auto elim: em_step.cases intro: run_em_inv)
qed

section \<open>Execution\<close>

text \<open>The loop of \<open>ExecuteEvent\<close> skips the due events that are out of phase.\<close>

lemma execute_loop_eq:
  "execute_loop t ph m =
     (let due = takeWhile (\<lambda>x. fst x \<le> t) m; later = dropWhile (\<lambda>x. fst x \<le> t) m
      in case dropWhile (\<lambda>x. out_of_phase ph (snd x)) due of
           [] \<Rightarrow> (None, later) | x # rest \<Rightarrow> (Some (snd x), rest @ later))"
  by (induction t ph m rule: execute_loop.induct) (auto simp: Let_def split: list.split)

lemma ExecuteEvent_due:
  assumes "mm_valid (em_map em)"
  shows "ExecuteEvent em =
     (case dropWhile (\<lambda>x. out_of_phase (em_phase em) (snd x)) (filter (\<lambda>x. fst x \<le> em_time em) (em_map em)) of
        [] \<Rightarrow> (0, em\<lparr>em_map := filter (\<lambda>x. \<not> fst x \<le> em_time em) (em_map em)\<rparr>)
      | x # rest \<Rightarrow> (event_id (snd x),
          em\<lparr>em_last := snd x, em_map := rest @ filter (\<lambda>x. \<not> fst x \<le> em_time em) (em_map em)\<rparr>))"
proof -
  note due = mmq.due_first [OF assms, of "em_time em"]
  have "(case (case d of [] \<Rightarrow> (None, l) | x # r \<Rightarrow> (Some (snd x), r @ l)) of
      (None, m) \<Rightarrow> (0, em\<lparr>em_map := m\<rparr>) | (Some e, m) \<Rightarrow> (event_id e, em\<lparr>em_last := e, em_map := m\<rparr>)) =
    (case d of [] \<Rightarrow> (0, em\<lparr>em_map := l\<rparr>) | x # r \<Rightarrow> (event_id (snd x), em\<lparr>em_last := snd x, em_map := r @ l\<rparr>))"
    for d :: "(u32 \<times> u32) list" and l by (cases d) simp_all
  then show ?thesis by (simp only: ExecuteEvent_def execute_loop_eq Let_def due)
qed

text \<open>In every reachable event map \<open>ExecuteEvent\<close> executes the earliest due event that is not out
  of phase, drops the due ones before it, and leaves all that is not due; if there is none, it
  returns 0.\<close>

theorem execute_earliest:
  assumes "em_step\<^sup>*\<^sup>* em_init em"
  shows "ExecuteEvent em =
     (let due = filter (\<lambda>x. fst x \<le> em_time em) (em_map em);
          later = filter (\<lambda>x. \<not> fst x \<le> em_time em) (em_map em)
      in case dropWhile (\<lambda>x. out_of_phase (em_phase em) (snd x)) due of
           [] \<Rightarrow> (0, em\<lparr>em_map := later\<rparr>)
         | x # rest \<Rightarrow> (event_id (snd x), em\<lparr>em_last := snd x, em_map := rest @ later\<rparr>))"
  using ExecuteEvent_due em.reachable_inv [OF refl assms] unfolding em_inv_def Let_def by blast

theorem execute_earliest_witness:
  "fst (ExecuteEvent (Update 7 (ScheduleEvent 2 5 0 0 (ScheduleEvent 1 9 0 0 em_init)))) = 2"
proof -
  let ?em = "run_em id (EmUpdate 7) (run_em id (EmSchedule 2 5 0 0) (run_em id (EmSchedule 1 9 0 0) em_init))"
  have "em_step\<^sup>*\<^sup>* em_init ?em" by (meson em_step.intros r_into_rtranclp rtranclp_trans)
  from execute_earliest [OF this] show ?thesis by simp code_simp
qed

text \<open>What a script does at each update: execute until 0 comes back.\<close>

fun drain :: "nat \<Rightarrow> EventMap \<Rightarrow> u32 list \<times> EventMap" where
  "drain 0 em = ([], em)"
| "drain (Suc n) em =
     (case ExecuteEvent em of (i, em') \<Rightarrow>
        if i = 0 then ([], em') else (case drain n em' of (is, em'') \<Rightarrow> (i # is, em'')))"

lemma drain_due:
  assumes "mm_valid (em_map em)" and "length (em_map em) < n"
    and "\<forall>x \<in> set (em_map em). fst x \<le> em_time em \<longrightarrow> event_id (snd x) \<noteq> 0"
  shows "fst (drain n em) = map (\<lambda>x. event_id (snd x))
       (filter (\<lambda>x. fst x \<le> em_time em \<and> \<not> out_of_phase (em_phase em) (snd x)) (em_map em)) \<and>
     em_map (snd (drain n em)) = filter (\<lambda>x. \<not> fst x \<le> em_time em) (em_map em)"
  using assms
proof (induction n arbitrary: em)
  case (Suc n)
  let ?ph = "\<lambda>x. out_of_phase (em_phase em) (snd x)" and ?later = "filter (\<lambda>x. \<not> fst x \<le> em_time em) (em_map em)"
  let ?due = "filter (\<lambda>x. fst x \<le> em_time em) (em_map em)"
  have split: "filter (\<lambda>x. fst x \<le> em_time em \<and> \<not> ?ph x) (em_map em) = filter (\<lambda>x. \<not> ?ph x) ?due"
    by (simp add: conj_commute)
  note ex = ExecuteEvent_due [OF Suc.prems(1)]
  show ?case
  proof (cases "dropWhile ?ph ?due")
    case Nil
    then have "filter (\<lambda>x. \<not> ?ph x) ?due = []" by (auto simp: dropWhile_eq_Nil_conv filter_empty_conv)
    moreover have "ExecuteEvent em = (0, em\<lparr>em_map := ?later\<rparr>)" unfolding ex Nil by simp
    ultimately show ?thesis unfolding split by simp
  next
    case (Cons x rest)
    define em' where "em' = em\<lparr>em_last := snd x, em_map := rest @ ?later\<rparr>"
    obtain pre where pre: "?due = pre @ x # rest" "\<forall>y \<in> set pre. ?ph y"
      using takeWhile_dropWhile_id [of ?ph ?due] Cons by (metis set_takeWhileD)
    have x: "\<not> ?ph x" using hd_dropWhile [of ?ph ?due] Cons by simp
    have in_due: "set (x # rest) \<subseteq> {y \<in> set (em_map em). fst y \<le> em_time em}"
    proof -
      have "set (x # rest) \<subseteq> set ?due" unfolding pre(1) by auto
      then show ?thesis by auto
    qed
    have i: "event_id (snd x) \<noteq> 0" using in_due Suc.prems(3) by auto
    have valid: "mm_valid (rest @ ?later)"
      using execute_valid [OF Suc.prems(1), of "em_time em" "em_phase em"] Cons
      by (simp add: execute_loop_eq Let_def mmq.due_first [OF Suc.prems(1)])
    have parts: "filter (\<lambda>x. fst x \<le> em_time em) (rest @ ?later) = rest"
      "filter (\<lambda>x. \<not> fst x \<le> em_time em) (rest @ ?later) = ?later"
      using in_due by (auto simp: filter_empty_conv intro: filter_True)
    have len: "length (rest @ ?later) < n"
    proof -
      have "length (em_map em) = length ?due + length ?later" by (simp add: sum_length_filter_compl)
      then show ?thesis using pre(1) Suc.prems(2) by simp
    qed
    have "fst (drain n em') = map (\<lambda>x. event_id (snd x)) (filter (\<lambda>x. \<not> ?ph x) rest) \<and>
        em_map (snd (drain n em')) = ?later"
    proof -
      have "filter (\<lambda>x. fst x \<le> em_time em \<and> \<not> ?ph x) (rest @ ?later) = filter (\<lambda>x. \<not> ?ph x) rest"
        using parts(1) by (metis (no_types, lifting) filter_filter conj_commute filter_cong)
      then show ?thesis using Suc.IH [of em'] valid len Suc.prems(3) in_due parts(2)
        by (auto simp: em'_def)
    qed
    then show ?thesis unfolding split using Cons i pre x
      by (cases "drain n em'") (simp add: ex em'_def [symmetric] del: filter_filter)
  qed
qed simp

text \<open>C19: executing until 0 comes back takes place in order of time and takes out everything that is
  due: the events not out of phase are returned, each once, earlier ones first and those of one
  time in the order they were scheduled, and what is not due stays.\<close>

theorem due_all_executed:
  assumes "em_step\<^sup>*\<^sup>* em_init em" and "length (em_map em) < n"
    and "\<forall>x \<in> set (em_map em). fst x \<le> em_time em \<longrightarrow> event_id (snd x) \<noteq> 0"
  shows "fst (drain n em) = map (\<lambda>x. event_id (snd x))
       (filter (\<lambda>x. fst x \<le> em_time em \<and> \<not> out_of_phase (em_phase em) (snd x)) (em_map em)) \<and>
     em_map (snd (drain n em)) = filter (\<lambda>x. \<not> fst x \<le> em_time em) (em_map em) \<and>
     sorted (map fst (em_map em))"
  using drain_due em.reachable_inv [OF refl assms(1)] assms(2,3) unfolding em_inv_def mm_valid_def by blast

theorem due_all_executed_witness:
  "fst (drain 9 (Update 7 (ScheduleEvent 2 5 0 0 (ScheduleEvent 1 9 0 0 (ScheduleEvent 3 5 0 0 em_init))))) = [3, 2]"
proof -
  let ?em = "run_em id (EmUpdate 7) (run_em id (EmSchedule 2 5 0 0) (run_em id (EmSchedule 1 9 0 0)
    (run_em id (EmSchedule 3 5 0 0) em_init)))"
  have "em_step\<^sup>*\<^sup>* em_init ?em" by (meson em_step.intros r_into_rtranclp rtranclp_trans)
  moreover have "length (em_map ?em) < 9" by code_simp
  moreover have "\<forall>x \<in> set (em_map ?em). fst x \<le> em_time ?em \<longrightarrow> event_id (snd x) \<noteq> 0" by code_simp
  ultimately have "fst (drain 9 ?em) = map (\<lambda>x. event_id (snd x))
       (filter (\<lambda>x. fst x \<le> em_time ?em \<and> \<not> out_of_phase (em_phase ?em) (snd x)) (em_map ?em))"
    using due_all_executed by blast
  also have "\<dots> = [3, 2]" by code_simp
  finally show ?thesis by simp
qed

section \<open>Event data\<close>

lemma id_bits: "event_id i = i \<Longrightarrow> bit i n \<Longrightarrow> n < 16"
proof -
  assume "event_id i = i" "bit i n"
  then have "bit (i AND mask 16) n" by (simp add: event_id_def mask_eq_exp_minus_1)
  then show "n < 16" by (simp add: bit_simps)
qed

lemma event_data_bit:
  assumes "event_id i = i" and "g \<le> 8" and "p \<le> 8" and "n < 32"
  shows "bit (event_data i g p) n \<longleftrightarrow> bit i n \<or> g \<noteq> 0 \<and> n = unat g + 15 \<or> p \<noteq> 0 \<and> n = unat p + 23"
proof -
  have "unat (g + 15) = unat g + 15" "unat (p + 23) = unat p + 23"
    using assms(2,3) by (simp_all add: word_le_nat_alt unat_word_ariths)
  then show ?thesis using assms(2-4)
    by (auto simp: event_data_def Let_def bit_or_iff push_bit_of_1 bit_exp_iff)
qed

lemma small_unat: "(p :: u32) \<le> 8 \<Longrightarrow> p \<noteq> 0 \<Longrightarrow> 1 \<le> unat p \<and> unat p \<le> 8"
  using unat_eq_zero [of p] by (simp add: word_le_nat_alt)

lemma phase_bits:
  assumes "event_id i = i" and "g \<le> 8" and "p \<le> 8"
  shows "drop_bit 24 (event_data i g p) = (if p = 0 then 0 else 2 ^ (unat p - 1))"
proof (rule bit_word_eqI)
  fix n :: nat assume "n < LENGTH(32)"
  show "bit (drop_bit 24 (event_data i g p)) n \<longleftrightarrow> bit (if p = 0 then 0 else 2 ^ (unat p - 1) :: u32) n"
  proof (cases "24 + n < 32")
    case True
    have "\<not> bit i (24 + n)" using id_bits [OF assms(1), of "24 + n"] by auto
    moreover have "unat g \<le> 8" using assms(2) by (simp add: word_le_nat_alt)
    ultimately show ?thesis using event_data_bit [OF assms True] small_unat [OF assms(3)] True
      by (auto simp: bit_drop_bit_eq bit_exp_iff)
  next
    case False
    then show ?thesis using bit_imp_le_length [of "event_data i g p" "24 + n"] small_unat [OF assms(3)]
      by (auto simp: bit_drop_bit_eq bit_exp_iff)
  qed
qed

lemma high_part: "(e :: u32) AND 0xFF000000 = push_bit 24 (drop_bit 24 e)"
proof -
  have n: "(0xFF000000 :: u32) = NOT (mask 24)" by (simp add: mask_eq_exp_minus_1)
  show ?thesis unfolding n by (intro bit_word_eqI) (auto simp: bit_simps)
qed

text \<open>Event id, group and phase do not disturb each other: what \<open>ScheduleEvent\<close> packs into 32 bits
  is read back, an event belongs to the group it was scheduled with and to no other, and outside
  of phase 0 it is dropped exactly if it has a phase of its own that is not set.\<close>

theorem event_data_fields:
  assumes "event_id i = i" and "g \<le> 8" and "p \<le> 8" and "1 \<le> h" and "h \<le> 8"
  shows "event_id (event_data i g p) = i \<and> (in_group h (event_data i g p) \<longleftrightarrow> h = g) \<and>
     (out_of_phase (em_phase em) (event_data i g p) \<longleftrightarrow>
        em_phase em \<noteq> 0 \<and> \<not> IsInPhase (ucast p) em)"
proof (intro conjI)
  note b = event_data_bit [OF assms(1-3)]
  have g8: "unat g \<le> 8" using assms(2) by (simp add: word_le_nat_alt)
  have "event_id e = e AND mask 16" for e by (simp add: event_id_def mask_eq_exp_minus_1)
  then show "event_id (event_data i g p) = i"
    using id_bits [OF assms(1)] small_unat [OF assms(2)] small_unat [OF assms(3)]
    by (intro bit_word_eqI) (auto simp: bit_simps b)
  have h0: "h \<noteq> 0" using assms(4) by auto
  have h: "unat (h + 15) = unat h + 15" using assms(5) by (simp add: word_le_nat_alt unat_word_ariths)
  have "in_group h (event_data i g p) \<longleftrightarrow> bit (event_data i g p) (unat h + 15)"
    using h0 by (simp add: in_group_def h push_bit_of_1 and_exp_eq_0_iff_not_bit)
  also have "\<dots> \<longleftrightarrow> h = g"
    using b [of "unat h + 15"] id_bits [OF assms(1), of "unat h + 15"] small_unat [OF assms(5) h0]
      small_unat [OF assms(3)] h0 by (auto simp: word_unat_eq_iff)
  finally show "in_group h (event_data i g p) \<longleftrightarrow> h = g" .
  have own: "event_data i g p AND 0xFF000000 = 0 \<longleftrightarrow> p = 0"
  proof (cases "p = 0")
    case True
    then show ?thesis using phase_bits [OF assms(1-3)] by (simp add: high_part)
  next
    case False
    then have "bit (push_bit 24 (2 ^ (unat p - 1) :: u32)) (unat p + 23)"
      using small_unat [OF assms(3)] by (auto simp: bit_simps)
    then show ?thesis using False by (auto simp: high_part phase_bits [OF assms(1-3)])
  qed
  have u: "unat (ucast p :: u8) = unat p" "p \<noteq> 0 \<Longrightarrow> unat (ucast p - 1 :: u8) = unat p - 1"
  proof -
    show u: "unat (ucast p :: u8) = unat p" using assms(3) by (simp add: word_le_nat_alt unsigned_ucast_eq unsigned_take_bit_eq take_bit_eq_mod)
    then have "p \<noteq> 0 \<Longrightarrow> (ucast p :: u8) \<noteq> 0" using small_unat [OF assms(3)] by (metis unat_0 not_one_le_zero)
    with u show "p \<noteq> 0 \<Longrightarrow> unat (ucast p - 1 :: u8) = unat p - 1" by (simp add: unat_minus_one)
  qed
  have in_phase: "IsInPhase (ucast p) em \<longleftrightarrow> p = 0 \<or> bit (em_phase em) (unat p - 1)"
  proof -
    have "(ucast p :: u8) \<le> 8" "(ucast p :: u8) = 0 \<longleftrightarrow> p = 0"
      using assms(3) u(1) by (simp_all add: word_le_nat_alt) (metis unat_eq_zero)
    then show ?thesis using u(2) by (auto simp: IsInPhase_def push_bit_of_1 and_exp_eq_0_iff_not_bit)
  qed
  show "out_of_phase (em_phase em) (event_data i g p) \<longleftrightarrow> em_phase em \<noteq> 0 \<and> \<not> IsInPhase (ucast p) em"
    unfolding out_of_phase_def own in_phase
    by (auto simp: phase_bits [OF assms(1-3)] and.commute [of "2 ^ _"] and_exp_eq_0_iff_not_bit)
qed

theorem event_data_fields_witness:
  "event_id (event_data 7 2 3) = 7 \<and> in_group 2 (event_data 7 2 3) \<and>
     out_of_phase (em_phase (SetPhase 2 em_init)) (event_data 7 2 3)"
proof -
  have "event_id 7 = 7" "em_phase (SetPhase 2 em_init) \<noteq> 0" "\<not> IsInPhase (ucast (3 :: u32)) (SetPhase 2 em_init)"
    by code_simp+
  then show ?thesis using event_data_fields [of 7 2 3 2 "SetPhase 2 em_init"] by simp
qed

section \<open>Delays\<close>

lemma max_mask_group: "g \<le> 16 \<Longrightarrow> too_early ub t g x \<longleftrightarrow> fst x < t \<and> in_group g (snd x)"
  by (auto simp: too_early_def max_mask_def in_group_def and.commute)

text \<open>C20: \<open>DelayEventsToMax\<close> always ends, for all its restarts, and comes to this: the events of the group
  that are due earlier than \<open>delay\<close> from now move to that time, behind what was there already and
  in the order they had; everything else stays. Likewise \<open>DelayEvents\<close> with a group moves
  the events of the group, each by the delay.\<close>

theorem delays_resort:
  assumes "em_step\<^sup>*\<^sup>* em_init em" and "g \<le> 8" and t: "t = em_time em + delay"
  shows "DelayEventsToMax ub delay g em = em\<lparr>em_map := sort_key fst
       (filter (\<lambda>x. \<not> (fst x < t \<and> in_group g (snd x))) (em_map em) @
        map (\<lambda>x. (t, snd x)) (filter (\<lambda>x. fst x < t \<and> in_group g (snd x)) (em_map em)))\<rparr> \<and>
     DelayEventsGroup delay g em = em\<lparr>em_map := sort_key fst
       (filter (\<lambda>x. \<not> in_group g (snd x)) (em_map em) @
        map (\<lambda>x. (fst x + delay, snd x)) (filter (\<lambda>x. in_group g (snd x)) (em_map em)))\<rparr>"
proof (intro conjI)
  have m: "mm_valid (em_map em)" using em.reachable_inv [OF refl assms(1)] by (simp add: em_inv_def)
  have "g \<le> 16" using assms(2) by (simp add: word_le_nat_alt)
  then have e: "too_early ub t g = (\<lambda>x. fst x < t \<and> in_group g (snd x))" by (simp add: max_mask_group fun_eq_iff)
  show "DelayEventsToMax ub delay g em = em\<lparr>em_map := sort_key fst
       (filter (\<lambda>x. \<not> (fst x < t \<and> in_group g (snd x))) (em_map em) @
        map (\<lambda>x. (t, snd x)) (filter (\<lambda>x. fst x < t \<and> in_group g (snd x)) (em_map em)))\<rparr>"
    unfolding DelayEventsToMax_def t [symmetric] to_max_sort [OF m] e ..
  have all: "mm_valid q \<Longrightarrow> insert_all es q = sort_key fst (q @ es)" for es q
    unfolding insert_all_def using mmq.ins_many by blast
  have z: "insert_all es [] = sort_key fst es" for es using all [of "[]" es] by (simp add: mm_valid_def)
  have "mm_valid (filter (\<lambda>x. \<not> in_group g (snd x)) (em_map em))"
    using m by (rule mm_valid_filter)
  moreover have "\<not> 8 < g" using assms(2) by simp
  ultimately show "DelayEventsGroup delay g em = em\<lparr>em_map := sort_key fst
       (filter (\<lambda>x. \<not> in_group g (snd x)) (em_map em) @
        map (\<lambda>x. (fst x + delay, snd x)) (filter (\<lambda>x. in_group g (snd x)) (em_map em)))\<rparr>"
    by (simp add: DelayEventsGroup_def em_Empty_def z all sort_key_append case_prod_unfold Let_def)
qed

theorem delays_resort_witness:
  "em_map (DelayEventsToMax id 8 0 (ScheduleEvent 2 5 0 0 (ScheduleEvent 1 9 0 0 em_init))) = [(8, 2), (9, 1)]"
proof -
  let ?em = "run_em id (EmSchedule 2 5 0 0) (run_em id (EmSchedule 1 9 0 0) em_init)"
  have "em_step\<^sup>*\<^sup>* em_init ?em" by (meson em_step.intros r_into_rtranclp rtranclp_trans)
  then have "em_map (DelayEventsToMax id 8 0 ?em) = sort_key fst
       (filter (\<lambda>x. \<not> (fst x < 8 \<and> in_group 0 (snd x))) (em_map ?em) @
        map (\<lambda>x. (8, snd x)) (filter (\<lambda>x. fst x < 8 \<and> in_group 0 (snd x)) (em_map ?em)))"
    using delays_resort [of ?em 0 8 8 id] by (simp add: em_init_def ScheduleEvent_def)
  also have "\<dots> = [(8, 2), (9, 1)]" by code_simp
  finally show ?thesis by simp
qed

text \<open>\<open>DelayEvents\<close> without a group turns the timer back, never below 0: every event is delayed by the
  given time or by the timer's value, whichever is less. (The comment in the header says that a delay not
  below the timer counts as 0.)\<close>

theorem delay_is_cut:
  assumes "\<exists>x \<in> set (em_map em). event_id (snd x) = i"
  shows "GetTimeUntilEvent i (DelayEvents delay em) =
     GetTimeUntilEvent i em + min (uint delay) (uint (em_time em))"
proof -
  have "List.find (\<lambda>(k, e). i = event_id e) (em_map em) \<noteq> None"
    using assms by (auto simp: find_None_iff) blast
  then obtain k e where f: "List.find (\<lambda>(k, e). i = event_id e) (em_map em) = Some (k, e)" by auto
  have "uint (if delay < em_time em then em_time em - delay else 0) =
      uint (em_time em) - min (uint delay) (uint (em_time em))"
    by (auto simp: word_less_def uint_sub_if' min_def)
  then show ?thesis by (simp add: GetTimeUntilEvent_def DelayEvents_def f)
qed

theorem delay_is_cut_witness:
  "GetTimeUntilEvent 2 (DelayEvents 100 (Update 3 (ScheduleEvent 2 5 0 0 em_init))) = 5"
proof -
  let ?em = "Update 3 (ScheduleEvent 2 5 0 0 em_init)"
  have "\<exists>x \<in> set (em_map ?em). event_id (snd x) = 2" "GetTimeUntilEvent 2 ?em = 2" "uint (em_time ?em) = 3"
    by code_simp+
  then show ?thesis using delay_is_cut [of ?em 2 100] by simp
qed

text \<open>An event scheduled \<open>d\<close> from now is executed once \<open>d\<close> has passed and not before, unless
  the 32 bits of the timer do not hold its time: then it is executed at once.\<close>

theorem schedule_due:
  assumes "event_id i = i" and "unat (em_time em) + unat x < 2 ^ 32"
  shows "fst (ExecuteEvent (Update x (ScheduleEvent i d 0 0 (em\<lparr>em_map := []\<rparr>)))) =
     (if d \<le> x \<or> 2 ^ 32 \<le> unat (em_time em) + unat d then i else 0)"
proof -
  have "drop_bit 24 (event_data i 0 0) = 0" using phase_bits [OF assms(1), of 0 0] by simp
  then have "\<not> out_of_phase ph i" for ph by (simp add: out_of_phase_def event_data_def high_part)
  moreover have "em_time em + d \<le> em_time em + x \<longleftrightarrow> d \<le> x \<or> 2 ^ 32 \<le> unat (em_time em) + unat d"
  proof (cases "unat (em_time em) + unat d < 2 ^ 32")
    case True
    then show ?thesis using assms(2) by (simp add: word_le_nat_alt unat_word_ariths)
  next
    case False
    have lt: "unat w < 2 ^ 32" for w :: u32 using unsigned_less [of w, where ?'a = nat] by simp
    have "unat (em_time em + d) = unat (em_time em) + unat d - 2 ^ 32"
      using False lt [of "em_time em"] lt [of d]
      by (simp add: unat_word_ariths mod_if [of "_ - _"] le_mod_geq)
    then show ?thesis using False assms(2) lt [of d]
      by (simp add: word_le_nat_alt [of "em_time em + d"] unat_word_ariths(1) [of "em_time em" x])
  qed
  ultimately show ?thesis
    using assms(1) by (auto simp: ExecuteEvent_def Update_def ScheduleEvent_def event_data_def)
qed

theorem schedule_due_witness:
  "fst (ExecuteEvent (Update 4 (ScheduleEvent 2 5 0 0 em_init))) = 0"
  using schedule_due [of 2 em_init 4 5] by (simp add: event_id_def em_init_def)

end
