(* ===== verification/BaseEncoding.thy ===== *)
theory BaseEncoding
  imports Prelude
begin

text \<open>
  Base32 and Base64 (\<open>src/src/common/Encoding/BaseEncoding.h\<close>, \<open>Base32.cpp\<close>, \<open>Base64.cpp\<close>): the
  generic encoder and decoder, a template over the character code, take the code as an argument.
  \<open>None\<close> of an encoder is a failed \<open>ASSERT\<close>; \<open>bitsLeft\<close> is at most 8 throughout and a natural
  number here. With 0 bits per character the template has no instance (\<open>PAD_TO\<close> would be 0).
  The locale \<open>char_code\<close> is what the generic code needs of a character code.
\<close>

section \<open>The character codes\<close>

record base_code =
  bits_per_char :: nat
  enc_char :: "u8 \<Rightarrow> char option"
  dec_char :: "u8 \<Rightarrow> u8"

definition DECODE_ERROR :: u8 where "DECODE_ERROR = 0xff"
definition PADDING :: char where "PADDING = CHR ''=''"

definition chr_add :: "char \<Rightarrow> u8 \<Rightarrow> char" where
  "chr_add c v = char_of (of_char c + unat v)"

definition ord8 :: "char \<Rightarrow> u8" where
  "ord8 c = of_nat (of_char c)"

definition B32_Encode :: "u8 \<Rightarrow> char option" where
  "B32_Encode v =
     (if v < 0x20 then Some (if v < 26 then chr_add CHR ''A'' v else chr_add CHR ''2'' (v - 26)) else None)"

definition B32_Decode :: "u8 \<Rightarrow> u8" where
  "B32_Decode v0 =
     (let v = (if v0 = ord8 CHR ''0'' then ord8 CHR ''O'' else if v0 = ord8 CHR ''1'' then ord8 CHR ''l''
               else if v0 = ord8 CHR ''8'' then ord8 CHR ''B'' else v0)
      in if ord8 CHR ''A'' \<le> v \<and> v \<le> ord8 CHR ''Z'' then v - ord8 CHR ''A''
         else if ord8 CHR ''a'' \<le> v \<and> v \<le> ord8 CHR ''z'' then v - ord8 CHR ''a''
         else if ord8 CHR ''2'' \<le> v \<and> v \<le> ord8 CHR ''7'' then (v - ord8 CHR ''2'') + 26
         else DECODE_ERROR)"

definition B64_Encode :: "u8 \<Rightarrow> char option" where
  "B64_Encode v =
     (if v < 0x40
      then Some (if v < 26 then chr_add CHR ''A'' v
                 else if v < 52 then chr_add CHR ''a'' (v - 26)
                 else if v < 62 then chr_add CHR ''0'' (v - 52)
                 else if v = 62 then CHR ''+'' else CHR ''/'')
      else None)"

definition B64_Decode :: "u8 \<Rightarrow> u8" where
  "B64_Decode v =
     (if ord8 CHR ''A'' \<le> v \<and> v \<le> ord8 CHR ''Z'' then v - ord8 CHR ''A''
      else if ord8 CHR ''a'' \<le> v \<and> v \<le> ord8 CHR ''z'' then (v - ord8 CHR ''a'') + 26
      else if ord8 CHR ''0'' \<le> v \<and> v \<le> ord8 CHR ''9'' then (v - ord8 CHR ''0'') + 52
      else if v = ord8 CHR ''+'' then 62
      else if v = ord8 CHR ''/'' then 63
      else DECODE_ERROR)"

definition Base32 :: base_code where
  "Base32 = \<lparr>bits_per_char = 5, enc_char = B32_Encode, dec_char = B32_Decode\<rparr>"

definition Base64 :: base_code where
  "Base64 = \<lparr>bits_per_char = 6, enc_char = B64_Encode, dec_char = B64_Decode\<rparr>"

section \<open>Encoding\<close>

definition PAD_TO :: "base_code \<Rightarrow> nat" where
  "PAD_TO E = lcm 8 (bits_per_char E)"

definition EncodedSize :: "base_code \<Rightarrow> nat \<Rightarrow> nat" where
  "EncodedSize E size0 =
     (let s = size0 * 8; s' = (if s mod PAD_TO E \<noteq> 0 then s + (PAD_TO E - s mod PAD_TO E) else s)
      in s' div bits_per_char E)"

definition DecodedSize :: "base_code \<Rightarrow> nat \<Rightarrow> nat" where
  "DecodedSize E size0 =
     (let s = size0 * bits_per_char E; s' = (if s mod PAD_TO E \<noteq> 0 then s + (PAD_TO E - s mod PAD_TO E) else s)
      in s' div 8)"

function encode_loop :: "base_code \<Rightarrow> nat \<Rightarrow> u8 list \<Rightarrow> (string \<times> nat) option" where
  "encode_loop E bitsLeft [] = Some ([], bitsLeft)"
| "encode_loop E bitsLeft (b # bs) =
     (let n = bits_per_char E in
      if n = 0 then None
      else if bitsLeft \<ge> n then
        (let left = bitsLeft - n; thisC = drop_bit left b AND mask n
         in case enc_char E thisC of
              None \<Rightarrow> None
            | Some c \<Rightarrow> map_option (apfst ((#) c))
                (if left = 0 then encode_loop E 8 bs else encode_loop E left (b # bs)))
      else
        (let left = bitsLeft + (8 - n);
             high = push_bit (n - bitsLeft) (b AND mask bitsLeft);
             thisC = (case bs of [] \<Rightarrow> high | b' # _ \<Rightarrow> high OR drop_bit left b')
         in case enc_char E thisC of
              None \<Rightarrow> None
            | Some c \<Rightarrow> map_option (apfst ((#) c)) (encode_loop E left bs)))"
  by pat_completeness auto

termination
  by (relation "measures [\<lambda>(E, l, bs). length bs, \<lambda>(E, l, bs). l]") auto

partial_function (option) pad_loop :: "base_code \<Rightarrow> nat \<Rightarrow> string option" where
  "pad_loop E bitsLeft =
     (if bitsLeft = 8 then Some []
      else Option.bind (pad_loop E (if bitsLeft > bits_per_char E then bitsLeft - bits_per_char E
                                    else bitsLeft + (8 - bits_per_char E)))
             (\<lambda>s. Some (PADDING # s)))"

definition Encode :: "base_code \<Rightarrow> u8 list \<Rightarrow> string option" where
  "Encode E data =
     (if data = [] then Some []
      else case encode_loop E 8 data of
             None \<Rightarrow> None
           | Some (s, bitsLeft) \<Rightarrow> map_option (\<lambda>p. s @ p) (pad_loop E bitsLeft))"

section \<open>Decoding\<close>

fun decode_loop :: "base_code \<Rightarrow> string \<Rightarrow> u8 list \<Rightarrow> u8 \<Rightarrow> nat \<Rightarrow> (u8 list \<times> u8 \<times> nat \<times> string) option" where
  "decode_loop E [] v currentByte bitsLeft = Some (v, currentByte, bitsLeft, [])"
| "decode_loop E (c # cs) v currentByte bitsLeft =
     (if c = PADDING then Some (v, currentByte, bitsLeft, c # cs)
      else let cur = dec_char E (ord8 c); n = bits_per_char E in
        if cur = DECODE_ERROR then None
        else if bitsLeft > n
        then decode_loop E cs v (currentByte OR push_bit (bitsLeft - n) cur) (bitsLeft - n)
        else (let over = n - bitsLeft
              in decode_loop E cs (v @ [currentByte OR drop_bit over cur])
                   (push_bit (8 - over) (cur AND mask over)) (8 - over)))"

fun skip_padding :: "base_code \<Rightarrow> string \<Rightarrow> nat \<Rightarrow> string" where
  "skip_padding E [] bitsLeft = []"
| "skip_padding E (c # cs) bitsLeft =
     (if c = PADDING \<and> bitsLeft \<noteq> 8
      then skip_padding E cs (if bitsLeft > bits_per_char E then bitsLeft - bits_per_char E
                              else bitsLeft + (8 - bits_per_char E))
      else c # cs)"

definition Decode :: "base_code \<Rightarrow> string \<Rightarrow> u8 list option" where
  "Decode E data =
     (if data = [] then Some []
      else case decode_loop E data [] 0 8 of
             None \<Rightarrow> None
           | Some (v, currentByte, bitsLeft, rest) \<Rightarrow>
               if currentByte \<noteq> 0 then None
               else if skip_padding E rest bitsLeft = [] then Some v else None)"

section \<open>Decoding what was encoded\<close>

text \<open>What the generic code needs of a character code: its characters carry between 1 and 7 bits, every
  value of that many bits has a character, which is not the padding and is decoded to the value.\<close>

definition pad_left :: "nat \<Rightarrow> nat \<Rightarrow> bool" where
  "pad_left n l \<longleftrightarrow> (\<exists>k j. l + 8 * j = k * n + 8)"

lemma pad_left_8 [simp]: "pad_left n 8"
  unfolding pad_left_def by (intro exI [of _ 0]) simp

locale char_code =
  fixes E :: base_code
  assumes bits: "1 \<le> bits_per_char E" "bits_per_char E < 8"
    and char_back: "c AND mask (bits_per_char E) = c \<Longrightarrow>
      \<exists>ch. enc_char E c = Some ch \<and> ch \<noteq> PADDING \<and> dec_char E (ord8 ch) = c"
begin

lemma no_error: "c AND mask (bits_per_char E) = c \<Longrightarrow> c \<noteq> DECODE_ERROR"
proof
  assume c: "c AND mask (bits_per_char E) = c" "c = DECODE_ERROR"
  then have "bit (DECODE_ERROR AND mask (bits_per_char E)) 7" by (simp add: DECODE_ERROR_def)
  then show False using bits(2) by (simp add: bit_simps)
qed

lemma char_of_value:
  assumes "c AND mask (bits_per_char E) = c"
  obtains ch where "enc_char E c = Some ch" "ch \<noteq> PADDING" "dec_char E (ord8 ch) = c" "c \<noteq> DECODE_ERROR"
  using char_back [OF assms] no_error [OF assms] by blast

lemma pad_left_step:
  "pad_left (bits_per_char E) l \<Longrightarrow> bits_per_char E \<le> l \<Longrightarrow> pad_left (bits_per_char E) (l - bits_per_char E)"
  "pad_left (bits_per_char E) l \<Longrightarrow> pad_left (bits_per_char E) (l + (8 - bits_per_char E))"
proof -
  let ?n = "bits_per_char E"
  assume "pad_left ?n l"
  then obtain k j where k: "l + 8 * j = k * ?n + 8" by (auto simp: pad_left_def)
  have "(l - ?n) + 8 * (j + ?n) = (k + 7) * ?n + 8" if "?n \<le> l"
    using k that by (simp add: add_mult_distrib)
  then show "?n \<le> l \<Longrightarrow> pad_left ?n (l - ?n)" unfolding pad_left_def by blast
  have "l + (8 - ?n) + 8 * (j + ?n - 1) = (k + 7) * ?n + 8"
    using k bits by (simp add: add_mult_distrib)
  then show "pad_left ?n (l + (8 - ?n))" unfolding pad_left_def by blast
qed

text \<open>The padding loop ends, and the decoder skips what it has written.\<close>

lemma pad_done:
  assumes "l + 8 * j = k * bits_per_char E + 8" and "1 \<le> l" and "l \<le> 8"
  shows "\<exists>p. pad_loop E l = Some p \<and> set p \<subseteq> {PADDING} \<and> skip_padding E p l = []"
  using assms
proof (induction k arbitrary: l j)
  case 0
  then have "l = 8" by presburger
  then show ?case by (simp add: pad_loop.simps)
next
  case (Suc k)
  let ?n = "bits_per_char E" and ?l = "if l > bits_per_char E then l - bits_per_char E else l + (8 - bits_per_char E)"
  show ?case
  proof (cases "l = 8")
    case False
    have "?l + 8 * (if l > ?n then j else j - 1) = k * ?n + 8" using Suc.prems bits by auto
    moreover have "1 \<le> ?l" "?l \<le> 8" using bits Suc.prems by auto
    ultimately obtain p where p: "pad_loop E ?l = Some p" "set p \<subseteq> {PADDING}" "skip_padding E p ?l = []"
      using Suc.IH by blast
    then show ?thesis using False by (intro exI [of _ "PADDING # p"]) (simp add: pad_loop.simps [of E l])
  qed (simp add: pad_loop.simps)
qed

lemma decode_stop: "tail = [] \<or> hd tail = PADDING \<Longrightarrow> decode_loop E tail v x l = Some (v, x, l, tail)"
  by (cases tail) auto

text \<open>The decoder follows the encoder: it holds the bits of the current byte that the encoder has
  written, and as many bits are left in it.\<close>

lemma follow:
  assumes "1 \<le> l" and "l \<le> 8" and "pad_left (bits_per_char E) l"
  shows "\<exists>s l'. encode_loop E l (b # bs) = Some (s, l') \<and> 1 \<le> l' \<and> l' \<le> 8 \<and>
     pad_left (bits_per_char E) l' \<and> PADDING \<notin> set s \<and>
     (\<forall>v tail. (tail = [] \<or> hd tail = PADDING) \<longrightarrow>
        decode_loop E (s @ tail) v (b AND NOT (mask l)) l = Some (v @ b # bs, 0, l', tail))"
  using assms
proof (induction "length bs * 9 + l" arbitrary: l b bs rule: less_induct)
  case less
  let ?n = "bits_per_char E"
  note n = bits
  consider (more) "l > ?n" | (all) "l = ?n" | (less) "l < ?n" by linarith
  then show ?case
  proof cases
    case more
    let ?c = "drop_bit (l - ?n) b AND mask ?n"
    have c: "?c AND mask ?n = ?c" by (simp add: and.assoc)
    obtain ch where ch: "enc_char E ?c = Some ch" "ch \<noteq> PADDING" "dec_char E (ord8 ch) = ?c" "?c \<noteq> DECODE_ERROR"
      using char_of_value [OF c] by blast
    have byte: "(b AND NOT (mask l)) OR push_bit (l - ?n) ?c = b AND NOT (mask (l - ?n))"
      using more less.prems n by (intro bit_word_eqI) (auto simp: bit_simps)
    obtain s l' where ih: "encode_loop E (l - ?n) (b # bs) = Some (s, l')" "1 \<le> l'" "l' \<le> 8" "pad_left ?n l'" "PADDING \<notin> set s"
      "\<And>v tail. tail = [] \<or> hd tail = PADDING \<Longrightarrow>
         decode_loop E (s @ tail) v (b AND NOT (mask (l - ?n))) (l - ?n) = Some (v @ b # bs, 0, l', tail)"
      using less.hyps [of bs "l - ?n" b] more less.prems n pad_left_step(1) [of l] by fastforce
    show ?thesis
      using more n ch ih byte by (intro exI [of _ "ch # s"] exI [of _ l']) (simp add: Let_def)
  next
    case all
    let ?c = "drop_bit 0 b AND mask ?n"
    have c: "?c AND mask ?n = ?c" by (simp add: and.assoc)
    obtain ch where ch: "enc_char E ?c = Some ch" "ch \<noteq> PADDING" "dec_char E (ord8 ch) = ?c" "?c \<noteq> DECODE_ERROR"
      using char_of_value [OF c] by blast
    have byte: "(b AND NOT (mask ?n)) OR ?c = b"
      by (intro bit_word_eqI) (auto simp: bit_simps)
    have out: "push_bit 8 (x :: u8) = 0" for x by (intro bit_word_eqI) (auto simp: bit_simps)
    show ?thesis
    proof (cases bs)
      case Nil
      then show ?thesis using all n ch byte out
        by (intro exI [of _ "[ch]"] exI [of _ 8]) (simp add: Let_def decode_stop)
    next
      case (Cons b' bs')
      have top: "b' AND NOT (mask 8) = 0" by (intro bit_word_eqI) (auto simp: bit_simps)
      obtain s l' where ih: "encode_loop E 8 (b' # bs') = Some (s, l')" "1 \<le> l'" "l' \<le> 8" "pad_left ?n l'" "PADDING \<notin> set s"
        "\<And>v tail. tail = [] \<or> hd tail = PADDING \<Longrightarrow>
           decode_loop E (s @ tail) v 0 8 = Some (v @ b' # bs', 0, l', tail)"
        using less.hyps [of bs' 8 b'] all n Cons top by fastforce
      show ?thesis using all n ch ih byte out Cons
        by (intro exI [of _ "ch # s"] exI [of _ l']) (simp add: Let_def del: encode_loop.simps, simp add: Let_def)
    qed
  next
    case less
    let ?r = "?n - l" and ?left = "l + (8 - ?n)"
    let ?high = "push_bit ?r (b AND mask l)"
    have r: "8 - ?r = ?left" "?r < 8" "1 \<le> ?left" "?left \<le> 8" using less less.prems n by linarith+
    have high: "?high AND mask ?n = ?high"
      using less less.prems n by (intro bit_word_eqI) (auto simp: bit_simps)
    show ?thesis
    proof (cases bs)
      case Nil
      obtain ch where ch: "enc_char E ?high = Some ch" "ch \<noteq> PADDING" "dec_char E (ord8 ch) = ?high" "?high \<noteq> DECODE_ERROR"
        using char_of_value [OF high] by blast
      have byte: "(b AND NOT (mask l)) OR drop_bit ?r ?high = b" "push_bit ?left (?high AND mask ?r) = 0"
        using less less.prems n by (auto intro!: bit_word_eqI simp: bit_simps)
      show ?thesis using less n ch byte r Nil pad_left_step(2) [OF less.prems(3)]
        by (intro exI [of _ "[ch]"] exI [of _ ?left]) (simp add: Let_def decode_stop)
    next
      case (Cons b' bs')
      let ?c = "?high OR drop_bit ?left b'"
      have c: "?c AND mask ?n = ?c"
        using less less.prems n by (intro bit_word_eqI) (auto simp: bit_simps dest: bit_imp_le_length)
      obtain ch where ch: "enc_char E ?c = Some ch" "ch \<noteq> PADDING" "dec_char E (ord8 ch) = ?c" "?c \<noteq> DECODE_ERROR"
        using char_of_value [OF c] by blast
      have byte: "(b AND NOT (mask l)) OR drop_bit ?r ?c = b"
        "push_bit ?left (?c AND mask ?r) = b' AND NOT (mask ?left)"
        using less less.prems n by (auto intro!: bit_word_eqI simp: bit_simps dest: bit_imp_le_length)
      obtain s l' where ih: "encode_loop E ?left (b' # bs') = Some (s, l')" "1 \<le> l'" "l' \<le> 8" "pad_left ?n l'" "PADDING \<notin> set s"
        "\<And>v tail. tail = [] \<or> hd tail = PADDING \<Longrightarrow>
           decode_loop E (s @ tail) v (b' AND NOT (mask ?left)) ?left = Some (v @ b' # bs', 0, l', tail)"
        using less.hyps [of bs' ?left b'] Cons r less.prems pad_left_step(2) [OF less.prems(3)] by fastforce
      show ?thesis using less n ch ih byte r Cons
        by (intro exI [of _ "ch # s"] exI [of _ l']) (simp add: Let_def del: encode_loop.simps, simp add: Let_def)
    qed
  qed
qed

lemma round_trip:
  "\<exists>t p. Encode E data = Some (t @ p) \<and> PADDING \<notin> set t \<and> set p \<subseteq> {PADDING} \<and>
     Decode E (t @ p) = Some data \<and> Decode E t = Some data"
proof (cases data)
  case (Cons b bs)
  have top: "b AND NOT (mask 8) = 0" by (intro bit_word_eqI) (auto simp: bit_simps)
  obtain t l where t: "encode_loop E 8 (b # bs) = Some (t, l)" "1 \<le> l" "l \<le> 8" "pad_left (bits_per_char E) l"
    "PADDING \<notin> set t"
    "\<And>tail. tail = [] \<or> hd tail = PADDING \<Longrightarrow> decode_loop E (t @ tail) [] 0 8 = Some (b # bs, 0, l, tail)"
    using follow [of 8 b bs] top by fastforce
  obtain p where p: "pad_loop E l = Some p" "set p \<subseteq> {PADDING}" "skip_padding E p l = []"
    using pad_done t(2-4) unfolding pad_left_def by blast
  have "p = [] \<or> hd p = PADDING" using p(2) by (cases p) auto
  then have "decode_loop E (t @ p) [] 0 8 = Some (data, 0, l, p)" "decode_loop E t [] 0 8 = Some (data, 0, l, [])"
    using t(6) [of p] t(6) [of "[]"] Cons by simp_all
  moreover have "t \<noteq> []" using t(6) [of "[]"] by auto
  ultimately show ?thesis using t p Cons
    by (intro exI [of _ t] exI [of _ p]) (simp add: Encode_def Decode_def)
qed (simp add: Encode_def Decode_def)

end

lemma small_value:
  assumes "(c :: u8) AND mask n = c"
  shows "\<exists>k < 2 ^ n. c = of_nat k"
proof -
  have "unat c = take_bit n (unat c)"
    using assms by (metis take_bit_eq_mask unsigned_take_bit_eq)
  then have "unat c < 2 ^ n" by (metis take_bit_nat_less_exp)
  then show ?thesis by (intro exI [of _ "unat c"]) simp
qed

definition char_back_at :: "base_code \<Rightarrow> nat \<Rightarrow> bool" where
  "char_back_at E k = (case enc_char E (of_nat k) of None \<Rightarrow> False
     | Some ch \<Rightarrow> ch \<noteq> PADDING \<and> dec_char E (ord8 ch) = of_nat k)"

lemma char_backI:
  assumes "list_all (char_back_at E) [0..<2 ^ bits_per_char E]" and "c AND mask (bits_per_char E) = c"
  shows "\<exists>ch. enc_char E c = Some ch \<and> ch \<noteq> PADDING \<and> dec_char E (ord8 ch) = c"
proof -
  obtain k where k: "k < 2 ^ bits_per_char E" "c = of_nat k" using small_value [OF assms(2)] by blast
  then have "char_back_at E k" using assms(1) by (simp add: list_all_iff)
  then show ?thesis using k by (auto simp: char_back_at_def split: option.splits)
qed

interpretation b32: char_code Base32
proof
  have "list_all (char_back_at Base32) [0..<2 ^ bits_per_char Base32]" by code_simp
  then show "c AND mask (bits_per_char Base32) = c \<Longrightarrow> \<exists>ch. enc_char Base32 c = Some ch \<and> ch \<noteq> PADDING \<and>
      dec_char Base32 (ord8 ch) = c" for c by (rule char_backI)
qed (simp_all add: Base32_def)

interpretation b64: char_code Base64
proof
  have "list_all (char_back_at Base64) [0..<2 ^ bits_per_char Base64]" by code_simp
  then show "c AND mask (bits_per_char Base64) = c \<Longrightarrow> \<exists>ch. enc_char Base64 c = Some ch \<and> ch \<noteq> PADDING \<and>
      dec_char Base64 (ord8 ch) = c" for c by (rule char_backI)
qed (simp_all add: Base64_def)

section \<open>Properties\<close>

text \<open>C21: encoding always succeeds: no value is out of range for \<open>Encoding::Encode\<close>, whose \<open>ASSERT\<close> never
  fails, and the padding loop ends. Decoding the text gives the data back, for both codes.\<close>

theorem base_codes_roundtrip:
  "(\<exists>s. Encode Base64 data = Some s \<and> Decode Base64 s = Some data) \<and>
   (\<exists>s. Encode Base32 data = Some s \<and> Decode Base32 s = Some data)"
  using b64.round_trip [of data] b32.round_trip [of data] by blast

text \<open>The padding is not checked for being there: a text stripped of all its padding is decoded to the
  same data.\<close>

theorem padding_optional:
  "\<exists>s. Encode Base64 data = Some s \<and> Decode Base64 (filter (\<lambda>c. c \<noteq> PADDING) s) = Some data"
proof -
  obtain t p where tp: "Encode Base64 data = Some (t @ p)" "PADDING \<notin> set t" "set p \<subseteq> {PADDING}" "Decode Base64 t = Some data"
    using b64.round_trip [of data] by blast
  then have "filter (\<lambda>c. c \<noteq> PADDING) t = t" "filter (\<lambda>c. c \<noteq> PADDING) p = []"
    by (auto simp: filter_empty_conv filter_id_conv)
  with tp show ?thesis by (metis append_Nil2 filter_append)
qed

lemma decode_loop_bad:
  "dec_char E (ord8 c) = DECODE_ERROR \<Longrightarrow> c \<noteq> PADDING \<Longrightarrow> PADDING \<notin> set s \<Longrightarrow> decode_loop E (s @ c # r) v x l = None"
  by (induction s arbitrary: v x l) (auto simp: Let_def)

lemma skip_padding_bad: "c \<noteq> PADDING \<Longrightarrow> c \<in> set s \<Longrightarrow> skip_padding E s l \<noteq> []"
  by (induction s arbitrary: l) auto

lemma decode_loop_rest:
  "PADDING \<notin> set s \<Longrightarrow> decode_loop E (s @ PADDING # r) v x l = Some (v', x', l', r') \<Longrightarrow> r' = PADDING # r"
  by (induction s arbitrary: v x l) (auto simp: Let_def split: if_splits)

text \<open>A text with a character outside the alphabet before any padding is refused, and so is one with
  anything but padding behind the first padding character.\<close>

theorem decode_refuses:
  assumes "PADDING \<notin> set s" and "c \<noteq> PADDING"
  shows "(dec_char E (ord8 c) = DECODE_ERROR \<longrightarrow> Decode E (s @ c # r) = None) \<and>
     Decode E (s @ PADDING # q @ c # r) = None"
proof (intro conjI impI)
  show "dec_char E (ord8 c) = DECODE_ERROR \<Longrightarrow> Decode E (s @ c # r) = None"
    using decode_loop_bad [OF _ assms(2,1)] by (simp add: Decode_def)
  have "skip_padding E (PADDING # q @ c # r) l \<noteq> []" for l
    using skip_padding_bad [OF assms(2), of "PADDING # q @ c # r"] by simp
  then show "Decode E (s @ PADDING # q @ c # r) = None"
    by (auto simp: Decode_def split: option.split dest!: decode_loop_rest [OF assms(1)])
qed

theorem decode_refuses_witness: "Decode Base64 ''TWF-'' = None \<and> Decode Base32 ''ME=A'' = None"
proof -
  have "dec_char Base64 (ord8 CHR ''-'') = DECODE_ERROR" by code_simp
  then show ?thesis
    using decode_refuses [of "''TWF''" "CHR ''-''" Base64 "[]" "[]"] decode_refuses [of "''ME''" "CHR ''A''" Base32 "[]" "[]"]
    by (simp add: PADDING_def)
qed

end
