(* ===== verification/LootRoll.thy ===== *)
theory LootRoll
  imports Containers ObjectGuid
begin

text \<open>
  The rolls of a group for the items of its loot (\<open>class Roll\<close> and the loot part of
  \<open>src/src/server/game/Groups/Group.cpp\<close>, with what it uses of
  \<open>src/src/server/game/Loot/LootMgr.h\<close>). A group keeps its open rolls in \<open>RollId\<close>; a
  roll refers to the loot it is for through a validator reference, which the loot cuts when
  it is cleared: \<open>r_loot\<close> is \<open>None\<close> from then on. The answers of code that is not modelled
  (is the player online, the random number, the player's bags, the item templates) are
  fields of \<open>rollenv\<close>. An access outside a vector and a null template, undefined in C++,
  are the effect \<open>Undefined\<close>.
\<close>

section \<open>Data\<close>

datatype RollVote = VOTE_PASS | VOTE_NEED | VOTE_GREED | VOTE_DISENCHANT | NOT_EMITED_YET | NOT_VALID

fun vote_code :: "RollVote \<Rightarrow> u8" where
  "vote_code VOTE_PASS = 0"
| "vote_code VOTE_NEED = 1"
| "vote_code VOTE_GREED = 2"
| "vote_code VOTE_DISENCHANT = 3"
| "vote_code NOT_EMITED_YET = 4"
| "vote_code NOT_VALID = 5"

definition ROLL_PASS :: u8 where "ROLL_PASS = 0"
definition ROLL_NEED :: u8 where "ROLL_NEED = 1"
definition ROLL_GREED :: u8 where "ROLL_GREED = 2"
definition ROLL_DISENCHANT :: u8 where "ROLL_DISENCHANT = 3"
definition MAX_ROLL_TYPE :: u8 where "MAX_ROLL_TYPE = 4"

definition ROLL_FLAG_TYPE_NEED :: u8 where "ROLL_FLAG_TYPE_NEED = 0x02"
definition ROLL_FLAG_TYPE_DISENCHANT :: u8 where "ROLL_FLAG_TYPE_DISENCHANT = 0x08"
definition ROLL_ALL_TYPE_NO_DISENCHANT :: u8 where "ROLL_ALL_TYPE_NO_DISENCHANT = 0x07"

lemmas roll_consts = ROLL_PASS_def ROLL_NEED_def ROLL_GREED_def ROLL_DISENCHANT_def MAX_ROLL_TYPE_def

record ItemTemplate =
  Quality :: u32
  DisenchantID :: u32
  RequiredDisenchantSkill :: u32
  Flags2 :: u32

record LootItem =
  li_itemid :: u32
  li_randomSuffix :: u32
  li_randomPropertyId :: u32
  allowedGUIDs :: "guid list"
  rollWinnerGUID :: guid
  li_count :: u8
  is_looted :: bool
  is_blocked :: bool
  freeforall :: bool
  is_underthreshold :: bool
  follow_loot_rules :: bool

text \<open>\<open>source_chest\<close>: the game object the loot comes from, if any, and whether its template
  exists and is a chest.\<close>

record Loot =
  items :: "LootItem list"
  quest_items :: "LootItem list"
  gold :: u32
  unlootedCount :: u8
  PlayersLooting :: "guid list"
  source_chest :: "bool option"

record Roll =
  itemGUID :: guid
  itemid :: u32
  itemRandomPropId :: u32
  itemRandomSuffix :: u32
  itemCount :: u8
  playerVote :: "(guid \<times> RollVote) list"
  totalPlayersRolling :: u8
  totalNeed :: u8
  totalGreed :: u8
  totalPass :: u8
  itemSlot :: u8
  rollVoteMask :: u8
  r_loot :: "nat option"

definition new_roll :: "guid \<Rightarrow> LootItem \<Rightarrow> Roll" where
  "new_roll g li = \<lparr>itemGUID = g, itemid = li_itemid li, itemRandomPropId = li_randomPropertyId li,
     itemRandomSuffix = li_randomSuffix li, itemCount = li_count li, playerVote = [],
     totalPlayersRolling = 0, totalNeed = 0, totalGreed = 0, totalPass = 0, itemSlot = 0,
     rollVoteMask = ROLL_ALL_TYPE_NO_DISENCHANT, r_loot = None\<rparr>"

definition isValid :: "Roll \<Rightarrow> bool" where
  "isValid r \<longleftrightarrow> r_loot r \<noteq> None"

text \<open>What the rolls of one group work on: the open rolls, the loots by address and the
  generator of item identifiers.\<close>

record lootsys =
  RollId :: "Roll list"
  Loots :: "nat \<Rightarrow> Loot"
  item_counter :: u32

section \<open>Packets and effects\<close>

datatype rpacket =
    SMSG_LOOT_START_ROLL guid u32 u32 u32 u32 u32 u32 u32 u8
  | SMSG_LOOT_ROLL guid u32 guid u32 u32 u32 u8 u8 u8
  | SMSG_LOOT_ROLL_WON guid u32 u32 u32 u32 guid u8 u8
  | SMSG_LOOT_ALL_PASSED guid u32 u32 u32 u32
  | SMSG_LOOT_MASTER_LIST u8 "guid list"

datatype reff =
    RollPacket guid rpacket
  | LootItemRemoved guid u8
  | NeedCriteria guid u32 u8
  | GreedCriteria guid u32 u8
  | CastSpellCriteria guid u32
  | StoreNewItem guid u32 u8 u32 "guid list"
  | RollRewardItem guid u32 u8
  | LootAchievements guid u32
  | EquipError guid u8 u32
  | AutoStoreDisenchant guid u32
  | ItemRetrievalMail guid u32 u8
  | GroupLootTimer u32
  | ChestDeactivated
  | StopServer
  | Undefined

record rollenv =
  connected :: "guid \<Rightarrow> bool"
  in_map :: "guid \<Rightarrow> nat option"
  dice :: "guid \<Rightarrow> guid \<Rightarrow> u8"
  can_store :: "guid \<Rightarrow> guid \<Rightarrow> u8"
  item_made :: "guid \<Rightarrow> guid \<Rightarrow> bool"
  item_template :: "u32 \<Rightarrow> ItemTemplate option"
  disenchant_loot :: "u32 \<Rightarrow> guid \<Rightarrow> (u32 \<times> u8) list"

definition FindPlayer :: "rollenv \<Rightarrow> guid \<Rightarrow> bool" where
  "FindPlayer env p \<longleftrightarrow> in_map env p \<noteq> None"

definition to_voters :: "rollenv \<Rightarrow> Roll \<Rightarrow> (RollVote \<Rightarrow> bool) \<Rightarrow> rpacket \<Rightarrow> reff list" where
  "to_voters env r sel pkt =
     [RollPacket p pkt. (p, v) \<leftarrow> playerVote r, connected env p \<and> sel v]"

definition SendLootStartRoll :: "rollenv \<Rightarrow> u32 \<Rightarrow> u32 \<Rightarrow> Roll \<Rightarrow> reff list" where
  "SendLootStartRoll env countDown mapid r = to_voters env r (\<lambda>v. v = NOT_EMITED_YET)
     (SMSG_LOOT_START_ROLL (itemGUID r) mapid (ucast (itemSlot r)) (itemid r) (itemRandomSuffix r)
        (itemRandomPropId r) (ucast (itemCount r)) countDown (rollVoteMask r))"

definition SendLootStartRollToPlayer :: "u32 \<Rightarrow> u32 \<Rightarrow> guid \<Rightarrow> bool \<Rightarrow> Roll \<Rightarrow> reff list" where
  "SendLootStartRollToPlayer countDown mapid p canNeed r =
     [RollPacket p (SMSG_LOOT_START_ROLL (itemGUID r) mapid (ucast (itemSlot r)) (itemid r)
        (itemRandomSuffix r) (itemRandomPropId r) (ucast (itemCount r)) countDown
        (if canNeed then rollVoteMask r else rollVoteMask r AND NOT ROLL_FLAG_TYPE_NEED))]"

definition SendLootRoll :: "rollenv \<Rightarrow> guid \<Rightarrow> guid \<Rightarrow> u8 \<Rightarrow> u8 \<Rightarrow> Roll \<Rightarrow> reff list" where
  "SendLootRoll env source target rollNumber rollType r = to_voters env r (\<lambda>v. v \<noteq> NOT_VALID)
     (SMSG_LOOT_ROLL source (ucast (itemSlot r)) target (itemid r) (itemRandomSuffix r)
        (itemRandomPropId r) rollNumber rollType 0)"

definition SendLootRollWon :: "rollenv \<Rightarrow> guid \<Rightarrow> guid \<Rightarrow> u8 \<Rightarrow> u8 \<Rightarrow> Roll \<Rightarrow> reff list" where
  "SendLootRollWon env source target rollNumber rollType r = to_voters env r (\<lambda>v. v \<noteq> NOT_VALID)
     (SMSG_LOOT_ROLL_WON source (ucast (itemSlot r)) (itemid r) (itemRandomSuffix r)
        (itemRandomPropId r) target rollNumber rollType)"

definition SendLootAllPassed :: "rollenv \<Rightarrow> Roll \<Rightarrow> reff list" where
  "SendLootAllPassed env r = to_voters env r (\<lambda>v. v \<noteq> NOT_VALID)
     (SMSG_LOOT_ALL_PASSED (itemGUID r) (ucast (itemSlot r)) (itemid r) (itemRandomPropId r)
        (itemRandomSuffix r))"

section \<open>The loot\<close>

definition isLooted :: "Loot \<Rightarrow> bool" where
  "isLooted l \<longleftrightarrow> gold l = 0 \<and> unlootedCount l = 0"

definition hasOverThresholdItem :: "Loot \<Rightarrow> bool" where
  "hasOverThresholdItem l =
     list_ex (\<lambda>i. \<not> is_looted i \<and> \<not> is_underthreshold i \<and> \<not> freeforall i) (items l)"

definition NotifyItemRemoved :: "rollenv \<Rightarrow> u8 \<Rightarrow> (Loot, reff) act" where
  "NotifyItemRemoved env slot l =
     (l\<lparr>PlayersLooting := filter (FindPlayer env) (PlayersLooting l)\<rparr>,
      [LootItemRemoved p slot. p \<leftarrow> filter (FindPlayer env) (PlayersLooting l)])"

definition rolled_item :: "u8 \<Rightarrow> Loot \<Rightarrow> LootItem option" where
  "rolled_item slot l =
     (if unat slot \<ge> length (items l)
      then (if unat slot - length (items l) < length (quest_items l)
            then Some (quest_items l ! (unat slot - length (items l))) else None)
      else Some (items l ! unat slot))"

definition change_item :: "u8 \<Rightarrow> (LootItem \<Rightarrow> LootItem) \<Rightarrow> Loot \<Rightarrow> Loot" where
  "change_item slot f l =
     (let n = unat slot; k = length (items l) in
      if n \<ge> k then l\<lparr>quest_items := (quest_items l)[n - k := f (quest_items l ! (n - k))]\<rparr>
      else l\<lparr>items := (items l)[n := f (items l ! n)]\<rparr>)"

text \<open>Clearing a loot empties it and cuts the references of the rolls for it.\<close>

definition clear_loot :: "nat \<Rightarrow> lootsys \<Rightarrow> lootsys" where
  "clear_loot k s = s\<lparr>
     Loots := (Loots s)(k := (Loots s k)\<lparr>items := [], quest_items := [], gold := 0, unlootedCount := 0,
                PlayersLooting := []\<rparr>),
     RollId := map (\<lambda>r. if r_loot r = Some k then r\<lparr>r_loot := None\<rparr> else r) (RollId s)\<rparr>"

section \<open>The end of a roll\<close>

text \<open>The players of one kind of vote roll the dice, in the order of their identifiers; those
  who are gone, or not on the map the loot is on, are taken off the total.\<close>

definition may_roll :: "rollenv \<Rightarrow> nat option \<Rightarrow> guid \<Rightarrow> bool" where
  "may_roll env allowedMap p =
     (case in_map env p of None \<Rightarrow> False
      | Some m \<Rightarrow> (case allowedMap of None \<Rightarrow> True | Some m' \<Rightarrow> m = m'))"

fun dice_loop :: "rollenv \<Rightarrow> nat option \<Rightarrow> Roll \<Rightarrow> (RollVote \<Rightarrow> bool) \<Rightarrow> (guid \<times> RollVote) list \<Rightarrow>
    u8 \<Rightarrow> guid \<times> u8 \<times> RollVote \<Rightarrow> u8 \<times> (guid \<times> u8 \<times> RollVote) \<times> reff list" where
  "dice_loop env am r sel [] tot best = (tot, best, [])"
| "dice_loop env am r sel ((p, v) # vs) tot best =
     (if \<not> sel v then dice_loop env am r sel vs tot best
      else if \<not> may_roll env am p then dice_loop env am r sel vs (tot - 1) best
      else let n = dice env (itemGUID r) p;
               rest = dice_loop env am r sel vs tot
                        (if fst (snd best) < n then (p, n, v) else best)
           in (fst rest, fst (snd rest),
               SendLootRoll env 0 p n (vote_code v) r @ snd (snd rest)))"

definition need_dice :: "rollenv \<Rightarrow> nat option \<Rightarrow> Roll \<Rightarrow> u8 \<times> (guid \<times> u8 \<times> RollVote) \<times> reff list" where
  "need_dice env am r =
     dice_loop env am r (\<lambda>v. v = VOTE_NEED) (playerVote r) (totalNeed r) (0, 0, NOT_VALID)"

definition greed_dice :: "rollenv \<Rightarrow> nat option \<Rightarrow> Roll \<Rightarrow> u8 \<times> (guid \<times> u8 \<times> RollVote) \<times> reff list" where
  "greed_dice env am r =
     dice_loop env am r (\<lambda>v. v = VOTE_GREED \<or> v = VOTE_DISENCHANT) (playerVote r) (totalGreed r)
       (0, 0, NOT_VALID)"

definition take_item :: "rollenv \<Rightarrow> Roll \<Rightarrow> (Loot, reff) act" where
  "take_item env r = acts [
     upd (change_item (itemSlot r) (\<lambda>i. i\<lparr>is_looted := True\<rparr>)),
     NotifyItemRemoved env (itemSlot r),
     upd (\<lambda>l. l\<lparr>unlootedCount := unlootedCount l - 1\<rparr>)]"

definition give_item :: "rollenv \<Rightarrow> Roll \<Rightarrow> guid \<Rightarrow> RollVote \<Rightarrow> (Loot, reff) act" where
  "give_item env r p vote = load (rolled_item (itemSlot r)) (\<lambda>i. case i of
     None \<Rightarrow> emit (\<lambda>_. [Undefined])
   | Some it \<Rightarrow>
      (let msg = can_store env (itemGUID r) p in
       if msg = 0 then acts [
         take_item env r,
         emit (\<lambda>_. [StoreNewItem p (itemid r) (li_count it) (li_randomPropertyId it) (allowedGUIDs it)]),
         emit (\<lambda>_. if item_made env (itemGUID r) p then [RollRewardItem p (itemid r) (vote_code vote)] else []),
         emit (\<lambda>_. [LootAchievements p (li_itemid it)])]
       else acts [
         upd (change_item (itemSlot r) (\<lambda>i. i\<lparr>is_blocked := False, rollWinnerGUID := p\<rparr>)),
         emit (\<lambda>_. [EquipError p msg (itemid r)])]))"

definition disenchant_item :: "rollenv \<Rightarrow> Roll \<Rightarrow> guid \<Rightarrow> (Loot, reff) act" where
  "disenchant_item env r p = load (rolled_item (itemSlot r)) (\<lambda>i.
     case (i, item_template env (itemid r)) of
       (Some it, Some tp) \<Rightarrow> acts [
         take_item env r,
         emit (\<lambda>_. [CastSpellCriteria p 13262]),
         emit (\<lambda>_. let msg = can_store env (itemGUID r) p in
           if msg = 0 then [AutoStoreDisenchant p (DisenchantID tp)]
           else concat (map (\<lambda>(id, n). [EquipError p msg id, ItemRetrievalMail p id n])
                  (disenchant_loot env (DisenchantID tp) p)))]
     | _ \<Rightarrow> emit (\<lambda>_. [Undefined]))"

definition on_roll :: "(Roll \<Rightarrow> Roll) \<Rightarrow> (Roll \<times> Loot, reff) act" where
  "on_roll f = upd (\<lambda>(r, l). (f r, l))"

definition on_loot :: "(Roll \<Rightarrow> (Loot, reff) act) \<Rightarrow> (Roll \<times> Loot, reff) act" where
  "on_loot a = (\<lambda>(r, l). ((r, fst (a r l)), snd (a r l)))"

definition need_stage :: "rollenv \<Rightarrow> nat option \<Rightarrow> (Roll \<times> Loot, reff) act" where
  "need_stage env am = whenever (\<lambda>(r, l). totalNeed r > 0 \<and> playerVote r \<noteq> [])
     (load (\<lambda>(r, l). need_dice env am r) (\<lambda>(tot, (maxguid, maxresul, vote), sent). acts [
        on_roll (\<lambda>r. r\<lparr>totalNeed := tot\<rparr>), emit (\<lambda>_. sent),
        cond (\<lambda>_. maxguid \<noteq> 0)
          (acts [
             emit (\<lambda>(r, l). SendLootRollWon env 0 maxguid maxresul ROLL_NEED r),
             whenever (\<lambda>_. FindPlayer env maxguid) (acts [
               emit (\<lambda>(r, l). [NeedCriteria maxguid (itemid r) maxresul]),
               on_loot (\<lambda>r. give_item env r maxguid VOTE_NEED)])])
          (on_roll (\<lambda>r. r\<lparr>totalNeed := 0\<rparr>))]))"

definition greed_stage :: "rollenv \<Rightarrow> nat option \<Rightarrow> (Roll \<times> Loot, reff) act" where
  "greed_stage env am = whenever (\<lambda>(r, l). totalNeed r = 0 \<and> totalGreed r > 0 \<and> playerVote r \<noteq> [])
     (load (\<lambda>(r, l). greed_dice env am r) (\<lambda>(tot, (maxguid, maxresul, vote), sent). acts [
        on_roll (\<lambda>r. r\<lparr>totalGreed := tot\<rparr>), emit (\<lambda>_. sent),
        cond (\<lambda>_. maxguid \<noteq> 0)
          (acts [
             emit (\<lambda>(r, l). SendLootRollWon env 0 maxguid maxresul (vote_code vote) r),
             whenever (\<lambda>_. FindPlayer env maxguid) (acts [
               emit (\<lambda>(r, l). [GreedCriteria maxguid (itemid r) maxresul]),
               if vote = VOTE_GREED then on_loot (\<lambda>r. give_item env r maxguid VOTE_GREED)
               else if vote = VOTE_DISENCHANT then on_loot (\<lambda>r. disenchant_item env r maxguid)
               else skip])])
          (on_roll (\<lambda>r. r\<lparr>totalGreed := 0\<rparr>))]))"

definition pass_stage :: "rollenv \<Rightarrow> (Roll \<times> Loot, reff) act" where
  "pass_stage env = whenever (\<lambda>(r, l). totalNeed r = 0 \<and> totalGreed r = 0) (acts [
     emit (\<lambda>(r, l). SendLootAllPassed env r),
     cond (\<lambda>(r, l). rolled_item (itemSlot r) l = None)
       (emit (\<lambda>_. [Undefined]))
       (upd (\<lambda>(r, l). (r, change_item (itemSlot r) (\<lambda>i. i\<lparr>is_blocked := False\<rparr>) l)))])"

definition chest_stage :: "(Roll \<times> Loot, reff) act" where
  "chest_stage = whenever (\<lambda>(r, l). isLooted l \<and> source_chest l = Some True)
     (emit (\<lambda>_. [ChestDeactivated]))"

definition roll_out :: "rollenv \<Rightarrow> nat option \<Rightarrow> (Roll \<times> Loot, reff) act" where
  "roll_out env am = acts [need_stage env am, greed_stage env am, pass_stage env, chest_stage]"

definition erase_roll :: "nat \<Rightarrow> lootsys \<Rightarrow> lootsys" where
  "erase_roll i s = s\<lparr>RollId := take i (RollId s) @ drop (Suc i) (RollId s)\<rparr>"

definition CountTheRoll :: "rollenv \<Rightarrow> nat \<Rightarrow> nat option \<Rightarrow> (lootsys, reff) act" where
  "CountTheRoll env i am = load (\<lambda>s. RollId s ! i) (\<lambda>r.
     case r_loot r of
       None \<Rightarrow> upd (erase_roll i)
     | Some l \<Rightarrow> load (\<lambda>s. roll_out env am (r, Loots s l)) (\<lambda>((r', l'), es). acts [
         upd (\<lambda>s. s\<lparr>Loots := (Loots s)(l := l')\<rparr>), emit (\<lambda>_. es), upd (erase_roll i)]))"

section \<open>Votes\<close>

text \<open>The index of the first element with a property, for the searches that return an iterator.\<close>

fun first_index :: "('a \<Rightarrow> bool) \<Rightarrow> 'a list \<Rightarrow> nat option" where
  "first_index f [] = None"
| "first_index f (x # xs) = (if f x then Some 0 else map_option Suc (first_index f xs))"

definition GetRoll :: "guid \<Rightarrow> lootsys \<Rightarrow> nat option" where
  "GetRoll g s = first_index (\<lambda>r. itemGUID r = g \<and> isValid r) (RollId s)"

definition set_vote :: "guid \<Rightarrow> RollVote \<Rightarrow> Roll \<Rightarrow> Roll" where
  "set_vote p v r = r\<lparr>playerVote := om_modify p (\<lambda>_. v) (playerVote r)\<rparr>"

definition cast_vote :: "rollenv \<Rightarrow> guid \<Rightarrow> u8 \<Rightarrow> (Roll, reff) act" where
  "cast_vote env p choice =
     (if choice = ROLL_PASS then acts [
        emit (SendLootRoll env 0 p 128 ROLL_PASS),
        upd (\<lambda>r. r\<lparr>totalPass := totalPass r + 1\<rparr>), upd (set_vote p VOTE_PASS)]
      else if choice = ROLL_NEED then acts [
        emit (SendLootRoll env 0 p 0 0),
        upd (\<lambda>r. r\<lparr>totalNeed := totalNeed r + 1\<rparr>), upd (set_vote p VOTE_NEED)]
      else if choice = ROLL_GREED then acts [
        emit (SendLootRoll env 0 p 128 ROLL_GREED),
        upd (\<lambda>r. r\<lparr>totalGreed := totalGreed r + 1\<rparr>), upd (set_vote p VOTE_GREED)]
      else if choice = ROLL_DISENCHANT then acts [
        emit (SendLootRoll env 0 p 128 ROLL_DISENCHANT),
        upd (\<lambda>r. r\<lparr>totalGreed := totalGreed r + 1\<rparr>), upd (set_vote p VOTE_DISENCHANT)]
      else skip)"

text \<open>The sum of the totals is an \<open>int\<close>: it does not wrap.\<close>

definition votes_cast :: "Roll \<Rightarrow> nat" where
  "votes_cast r = unat (totalPass r) + unat (totalNeed r) + unat (totalGreed r)"

definition all_voted :: "Roll \<Rightarrow> bool" where
  "all_voted r \<longleftrightarrow> votes_cast r \<ge> unat (totalPlayersRolling r)"

definition CountRollVote :: "rollenv \<Rightarrow> guid \<Rightarrow> guid \<Rightarrow> u8 \<Rightarrow> lootsys \<Rightarrow> bool \<times> lootsys \<times> reff list" where
  "CountRollVote env p g choice s = (case GetRoll g s of
     None \<Rightarrow> (False, s, [])
   | Some i \<Rightarrow>
      (let r = RollId s ! i in
       if choice < MAX_ROLL_TYPE \<and> \<not> has_key p (playerVote r) then (False, s, [])
       else if (case r_loot r of None \<Rightarrow> False | Some l \<Rightarrow> items (Loots s l) = []) then (False, s, [])
       else
         let (r', es) = cast_vote env p choice r;
             s' = s\<lparr>RollId := (RollId s)[i := r']\<rparr>
         in if all_voted r'
            then let (s'', es') = CountTheRoll env i None s' in (True, s'', es @ es')
            else (False, s', es)))"

lemma rolls_after_count: "RollId (fst (CountTheRoll env i am s)) = take i (RollId s) @ drop (Suc i) (RollId s)"
  by (simp add: CountTheRoll_def act_eval erase_roll_def split: option.split prod.split)

lemma count_shortens: "i < length (RollId s) \<Longrightarrow> length (RollId (fst (CountTheRoll env i am s))) < length (RollId s)"
  by (simp add: rolls_after_count)

text \<open>Both loops start again from the first roll after one was counted.\<close>

function (sequential) end_loop :: "rollenv \<Rightarrow> nat \<Rightarrow> nat option \<Rightarrow> nat \<Rightarrow> (lootsys, reff) act" where
  "end_loop env l am i s =
     (if i \<ge> length (RollId s) then (s, [])
      else if r_loot (RollId s ! i) = Some l
      then let x = CountTheRoll env i am s; y = end_loop env l am 0 (fst x) in (fst y, snd x @ snd y)
      else end_loop env l am (Suc i) s)"
  by pat_completeness auto
termination
  by (relation "inv_image (less_than <*lex*> less_than)
        (\<lambda>(env, l, am, i, s). (length (RollId s), length (RollId s) - i))")
    (auto simp: count_shortens not_le)

declare end_loop.simps [simp del]

definition EndRoll :: "rollenv \<Rightarrow> nat \<Rightarrow> nat option \<Rightarrow> (lootsys, reff) act" where
  "EndRoll env l am = end_loop env l am 0"

section \<open>A player leaves\<close>

definition drop_voter :: "guid \<Rightarrow> Roll \<Rightarrow> Roll" where
  "drop_voter p r = (case map_of (playerVote r) p of None \<Rightarrow> r | Some v \<Rightarrow>
     (let r1 = (if v = VOTE_GREED \<or> v = VOTE_DISENCHANT then r\<lparr>totalGreed := totalGreed r - 1\<rparr>
                else if v = VOTE_NEED then r\<lparr>totalNeed := totalNeed r - 1\<rparr>
                else if v = VOTE_PASS then r\<lparr>totalPass := totalPass r - 1\<rparr> else r);
          r2 = (if v \<noteq> NOT_VALID then r1\<lparr>totalPlayersRolling := totalPlayersRolling r1 - 1\<rparr> else r1)
      in r2\<lparr>playerVote := om_erase p (playerVote r2)\<rparr>))"

text \<open>How many rolls a player takes part in: it falls with every turn that changes a roll.\<close>

definition rolls_of :: "guid \<Rightarrow> Roll list \<Rightarrow> nat" where
  "rolls_of p rs = length (filter (\<lambda>r. has_key p (playerVote r)) rs)"

lemma votes_after_drop: "playerVote (drop_voter p r) = om_erase p (playerVote r)"
proof (cases "map_of (playerVote r) p")
  case None
  then have "om_erase p (playerVote r) = playerVote r"
    by (auto simp: om_erase_def filter_id_conv map_of_eq_None_iff)
  with None show ?thesis by (simp add: drop_voter_def)
qed (simp add: drop_voter_def Let_def)

lemma has_key_erase: "has_key q (om_erase p m) \<longleftrightarrow> q \<noteq> p \<and> has_key q m"
  by (auto simp: has_key_def map_of_om_erase)

lemma cast_nothing: "cast_vote env p MAX_ROLL_TYPE r = (r, [])"
  by (simp add: cast_vote_def roll_consts act_eval)

lemma rolls_of_erase: "rolls_of p (take i rs @ drop (Suc i) rs) \<le> rolls_of p rs"
proof -
  have "length (filter f rs) = length (filter f (take i rs)) + length (filter f (drop i rs))" for f
    by (metis append_take_drop_id filter_append length_append)
  moreover have "length (filter f (drop (Suc i) rs)) \<le> length (filter f (drop i rs))" for f
  proof (cases "i < length rs")
    case True
    then show ?thesis by (simp add: Cons_nth_drop_Suc [symmetric])
  qed simp
  ultimately show ?thesis by (simp add: rolls_of_def)
qed

lemma list_update_self: "RollId s ! i = r \<Longrightarrow> s\<lparr>RollId := (RollId s)[i := r]\<rparr> = s"
  by auto

lemma rolls_after_empty_vote:
  "rolls_of q (RollId (fst (snd (CountRollVote env p g MAX_ROLL_TYPE s)))) \<le> rolls_of q (RollId s)"
  using rolls_of_erase [of q] rolls_after_count
  by (auto simp: CountRollVote_def cast_nothing list_update_self Let_def rolls_after_count
      split: option.split prod.split)

lemma rolls_of_drop:
  assumes "i < length rs" and "has_key p (playerVote (rs ! i))"
  shows "rolls_of p (rs[i := drop_voter p (rs ! i)]) < rolls_of p rs"
proof -
  have "rs = take i rs @ rs ! i # drop (Suc i) rs" using assms(1) by (rule id_take_nth_drop)
  then have "rolls_of p rs = rolls_of p (take i rs @ rs ! i # drop (Suc i) rs)" by simp
  with assms show ?thesis
    by (simp add: upd_conv_take_nth_drop rolls_of_def votes_after_drop has_key_erase)
qed

function (sequential) leave_rolls :: "rollenv \<Rightarrow> guid \<Rightarrow> nat \<Rightarrow> (lootsys, reff) act" where
  "leave_rolls env p i s =
     (if i \<ge> length (RollId s) then (s, [])
      else if \<not> has_key p (playerVote (RollId s ! i)) then leave_rolls env p (Suc i) s
      else let r = drop_voter p (RollId s ! i);
               x = CountRollVote env p (itemGUID r) MAX_ROLL_TYPE (s\<lparr>RollId := (RollId s)[i := r]\<rparr>);
               y = leave_rolls env p (if fst x then 0 else Suc i) (fst (snd x))
           in (fst y, snd (snd x) @ snd y))"
  by pat_completeness auto
termination
  by (relation "inv_image (less_than <*lex*> less_than)
        (\<lambda>(env, p, i, s). (rolls_of p (RollId s), length (RollId s) - i))")
    (auto simp: not_le intro!: le_less_trans [OF rolls_after_empty_vote] rolls_of_drop)

declare leave_rolls.simps [simp del]

end
