(* ===== verification/LootShare.thy ===== *)
theory LootShare
  imports LootRoll
begin

text \<open>
  How a group opens the rolls for a loot (\<open>GroupLoot\<close> and \<open>NeedBeforeGreed\<close> of
  \<open>src/src/server/game/Groups/Group.cpp\<close>) and marks it for the master looter
  (\<open>MasterLoot\<close>). Each item over the threshold gets a roll of the members that are near and
  allowed to have it, under a new item identifier from the generator of \<open>ObjectGuid\<close>.
\<close>

text \<open>What the group knows when it opens the rolls: its members in the order of the reference
  list, who is near the looted object, who may have an item, who passes on group loot, who may
  roll need, the loot threshold, the best enchanting skill, the map, and the group's low
  identifier when the looted object is a creature or a game object.\<close>

record lootctx =
  refs :: "guid list"
  near :: "guid \<Rightarrow> bool"
  AllowedForPlayer :: "LootItem \<Rightarrow> guid \<Rightarrow> bool"
  PassOnGroupLoot :: "guid \<Rightarrow> bool"
  CanRollForItemInLFG :: "u32 \<Rightarrow> guid \<Rightarrow> bool"
  ctx_threshold :: u32
  ctx_enchanting :: u32
  ctx_map :: u32
  ctx_timer :: "u32 option"
  looter_in_world :: "guid \<Rightarrow> bool"

section \<open>Who rolls\<close>

definition enter_vote :: "guid \<Rightarrow> RollVote \<Rightarrow> Roll \<Rightarrow> Roll" where
  "enter_vote p v r = r\<lparr>playerVote := om_assign p v (playerVote r)\<rparr>"

definition enter_voter :: "lootctx \<Rightarrow> bool \<Rightarrow> guid \<Rightarrow> Roll \<Rightarrow> Roll" where
  "enter_voter ctx autopass p r =
     (let r1 = r\<lparr>totalPlayersRolling := totalPlayersRolling r + 1\<rparr> in
      if autopass \<and> PassOnGroupLoot ctx p
      then (enter_vote p VOTE_PASS r1)\<lparr>totalPass := totalPass r1 + 1\<rparr>
      else enter_vote p NOT_EMITED_YET r1)"

fun collect_votes :: "lootctx \<Rightarrow> bool \<Rightarrow> LootItem \<Rightarrow> guid list \<Rightarrow> Roll \<Rightarrow> Roll" where
  "collect_votes ctx autopass it [] r = r"
| "collect_votes ctx autopass it (p # ps) r = collect_votes ctx autopass it ps
     (if near ctx p \<and> AllowedForPlayer ctx it p then enter_voter ctx autopass p r else r)"

definition roll_timer :: "lootctx \<Rightarrow> reff list" where
  "roll_timer ctx = (case ctx_timer ctx of None \<Rightarrow> [] | Some g \<Rightarrow> [GroupLootTimer g])"

text \<open>\<open>ObjectGuid::Create<HighGuid::Item>(Generate())\<close>\<close>

definition new_item_guid :: "lootsys \<Rightarrow> guid" where
  "new_item_guid s = guid_plain HG_Item (item_counter s)"

definition take_guid :: "(lootsys, reff) act" where
  "take_guid s = (case Generate HG_Item (item_counter s) of ((c, overflow), next) \<Rightarrow>
     (s\<lparr>item_counter := next\<rparr>, if overflow then [StopServer] else []))"

definition block_item :: "nat \<Rightarrow> nat \<Rightarrow> lootsys \<Rightarrow> lootsys" where
  "block_item l k s = s\<lparr>Loots := (Loots s)(l := (Loots s l)\<lparr>items :=
     (items (Loots s l))[k := (items (Loots s l) ! k)\<lparr>is_blocked := True\<rparr>]\<rparr>)\<rparr>"

definition block_quest_item :: "nat \<Rightarrow> nat \<Rightarrow> lootsys \<Rightarrow> lootsys" where
  "block_quest_item l k s = s\<lparr>Loots := (Loots s)(l := (Loots s l)\<lparr>quest_items :=
     (quest_items (Loots s l))[k := (quest_items (Loots s l) ! k)\<lparr>is_blocked := True\<rparr>]\<rparr>)\<rparr>"

definition mark_underthreshold :: "nat \<Rightarrow> nat \<Rightarrow> lootsys \<Rightarrow> lootsys" where
  "mark_underthreshold l k s = s\<lparr>Loots := (Loots s)(l := (Loots s l)\<lparr>items :=
     (items (Loots s l))[k := (items (Loots s l) ! k)\<lparr>is_underthreshold := True\<rparr>]\<rparr>)\<rparr>"

definition disenchant_mask :: "lootctx \<Rightarrow> ItemTemplate \<Rightarrow> u8 \<Rightarrow> u8" where
  "disenchant_mask ctx tp m =
     (if DisenchantID tp \<noteq> 0 \<and> ctx_enchanting ctx \<ge> RequiredDisenchantSkill tp
      then m OR ROLL_FLAG_TYPE_DISENCHANT else m)"

section \<open>Group loot\<close>

definition autopass_packets :: "rollenv \<Rightarrow> Roll \<Rightarrow> reff list" where
  "autopass_packets env r =
     (if totalPass r \<noteq> 0
      then concat [SendLootRoll env (itemGUID r) p 128 ROLL_PASS r.
                   (p, v) \<leftarrow> playerVote r, FindPlayer env p \<and> v = VOTE_PASS]
      else [])"

definition group_item :: "rollenv \<Rightarrow> lootctx \<Rightarrow> nat \<Rightarrow> nat \<Rightarrow> (lootsys, reff) act" where
  "group_item env ctx l k = load (\<lambda>s. items (Loots s l) ! k) (\<lambda>it.
     if freeforall it then skip
     else case item_template env (li_itemid it) of None \<Rightarrow> skip | Some tp \<Rightarrow>
       if Quality tp \<ge> ctx_threshold ctx then load new_item_guid (\<lambda>g.
         let r = collect_votes ctx True it (refs ctx) (new_roll g it);
             r' = r\<lparr>r_loot := Some l, itemSlot := of_nat k,
                    rollVoteMask := disenchant_mask ctx tp (rollVoteMask r)\<rparr>
         in acts [
           take_guid,
           whenever (\<lambda>_. totalPlayersRolling r > 0) (acts [
             upd (block_item l (unat (itemSlot r'))),
             emit (\<lambda>_. autopass_packets env r'),
             emit (\<lambda>_. SendLootStartRoll env 60000 (ctx_map ctx) r'),
             upd (\<lambda>s. s\<lparr>RollId := RollId s @ [r']\<rparr>),
             emit (\<lambda>_. roll_timer ctx)])])
       else upd (mark_underthreshold l k))"

definition group_quest_item :: "rollenv \<Rightarrow> lootctx \<Rightarrow> nat \<Rightarrow> nat \<Rightarrow> nat \<Rightarrow> (lootsys, reff) act" where
  "group_quest_item env ctx l n k = load (\<lambda>s. quest_items (Loots s l) ! k) (\<lambda>it.
     if \<not> follow_loot_rules it then skip
     else case item_template env (li_itemid it) of None \<Rightarrow> skip | Some tp \<Rightarrow>
       load new_item_guid (\<lambda>g.
         let r = collect_votes ctx False it (refs ctx) (new_roll g it);
             r' = r\<lparr>r_loot := Some l, itemSlot := of_nat (n + k)\<rparr>
         in acts [
           take_guid,
           whenever (\<lambda>_. totalPlayersRolling r > 0) (acts [
             upd (block_quest_item l (unat (itemSlot r') - n)),
             emit (\<lambda>_. SendLootStartRoll env 60000 (ctx_map ctx) r'),
             upd (\<lambda>s. s\<lparr>RollId := RollId s @ [r']\<rparr>),
             emit (\<lambda>_. roll_timer ctx)])]))"

definition GroupLoot :: "rollenv \<Rightarrow> lootctx \<Rightarrow> nat \<Rightarrow> (lootsys, reff) act" where
  "GroupLoot env ctx l = load (\<lambda>s. (length (items (Loots s l)), length (quest_items (Loots s l))))
     (\<lambda>(n, q). acts [
        each (group_item env ctx l) [0..<n],
        each (group_quest_item env ctx l n) [0..<q]])"

section \<open>Need before greed\<close>

text \<open>Unlike \<open>GroupLoot\<close>, the item template is used without a test.\<close>

definition need_packets :: "rollenv \<Rightarrow> lootctx \<Rightarrow> Roll \<Rightarrow> reff list" where
  "need_packets env ctx r = concat [
     (if v = VOTE_PASS then SendLootRoll env (itemGUID r) p 128 ROLL_PASS r
      else SendLootStartRollToPlayer 60000 (ctx_map ctx) p (CanRollForItemInLFG ctx (itemid r) p) r).
     (p, v) \<leftarrow> playerVote r, FindPlayer env p]"

definition need_item :: "rollenv \<Rightarrow> lootctx \<Rightarrow> nat \<Rightarrow> nat \<Rightarrow> (lootsys, reff) act" where
  "need_item env ctx l k = load (\<lambda>s. items (Loots s l) ! k) (\<lambda>it.
     if freeforall it then skip
     else case item_template env (li_itemid it) of None \<Rightarrow> emit (\<lambda>_. [Undefined]) | Some tp \<Rightarrow>
       if Quality tp \<ge> ctx_threshold ctx then load new_item_guid (\<lambda>g.
         let r = collect_votes ctx True it (refs ctx) (new_roll g it);
             m = disenchant_mask ctx tp (rollVoteMask r);
             r' = r\<lparr>r_loot := Some l, itemSlot := of_nat k,
                    rollVoteMask := (if Flags2 tp AND 0x100 \<noteq> 0 then m AND NOT ROLL_FLAG_TYPE_NEED else m)\<rparr>
         in acts [
           take_guid,
           whenever (\<lambda>_. totalPlayersRolling r > 0) (acts [
             upd (block_item l (unat (itemSlot r'))),
             emit (\<lambda>_. need_packets env ctx r'),
             upd (\<lambda>s. s\<lparr>RollId := RollId s @ [r']\<rparr>),
             emit (\<lambda>_. roll_timer ctx)])])
       else upd (mark_underthreshold l k))"

definition need_quest_item :: "rollenv \<Rightarrow> lootctx \<Rightarrow> nat \<Rightarrow> nat \<Rightarrow> nat \<Rightarrow> (lootsys, reff) act" where
  "need_quest_item env ctx l n k = load (\<lambda>s. quest_items (Loots s l) ! k) (\<lambda>it.
     if \<not> follow_loot_rules it then skip
     else load new_item_guid (\<lambda>g.
       let r = collect_votes ctx False it (refs ctx) (new_roll g it);
           r' = r\<lparr>r_loot := Some l, itemSlot := of_nat (n + k)\<rparr>
       in acts [
         take_guid,
         whenever (\<lambda>_. totalPlayersRolling r > 0) (acts [
           upd (block_quest_item l (unat (itemSlot r') - n)),
           emit (\<lambda>_. need_packets env ctx r'),
           upd (\<lambda>s. s\<lparr>RollId := RollId s @ [r']\<rparr>),
           emit (\<lambda>_. roll_timer ctx)])]))"

definition NeedBeforeGreed :: "rollenv \<Rightarrow> lootctx \<Rightarrow> nat \<Rightarrow> (lootsys, reff) act" where
  "NeedBeforeGreed env ctx l = load (\<lambda>s. (length (items (Loots s l)), length (quest_items (Loots s l))))
     (\<lambda>(n, q). acts [
        each (need_item env ctx l) [0..<n],
        each (need_quest_item env ctx l n) [0..<q]])"

section \<open>Master loot\<close>

definition master_marks :: "Loot \<Rightarrow> Loot" where
  "master_marks l = l\<lparr>
     items := map (\<lambda>i. if freeforall i then i else i\<lparr>is_blocked := \<not> is_underthreshold i\<rparr>) (items l),
     quest_items := map (\<lambda>i. if \<not> follow_loot_rules i then i
       else i\<lparr>is_blocked := \<not> is_underthreshold i\<rparr>) (quest_items l)\<rparr>"

definition master_looters :: "lootctx \<Rightarrow> guid list" where
  "master_looters ctx = filter (\<lambda>p. looter_in_world ctx p \<and> near ctx p) (refs ctx)"

definition MasterLoot :: "lootctx \<Rightarrow> nat \<Rightarrow> (lootsys, reff) act" where
  "MasterLoot ctx l = acts [
     upd (\<lambda>s. s\<lparr>Loots := (Loots s)(l := master_marks (Loots s l))\<rparr>),
     emit (\<lambda>_. [RollPacket p (SMSG_LOOT_MASTER_LIST (of_nat (length (master_looters ctx)))
                  (master_looters ctx)). p \<leftarrow> master_looters ctx])]"

end
