(* ===== verification/LootOutcome.thy ===== *)
theory LootOutcome
  imports LootShare
begin

text \<open>
  What a roll decides. The stages of \<open>CountTheRoll\<close>, which adjust the totals of the roll while they
  throw the dice, are compared with a direct description: the winner is the first player with the
  highest number among the needers that may roll, or among those of greed and disenchant when
  there is no such needer.
\<close>

section \<open>Well-formed rolls\<close>

definition votes_of :: "(RollVote \<Rightarrow> bool) \<Rightarrow> Roll \<Rightarrow> nat" where
  "votes_of sel r = length (filter (\<lambda>x. sel (snd x)) (playerVote r))"

abbreviation greedy :: "RollVote \<Rightarrow> bool" where
  "greedy v \<equiv> v = VOTE_GREED \<or> v = VOTE_DISENCHANT"

definition roll_ok :: "Roll \<Rightarrow> bool" where
  "roll_ok r \<longleftrightarrow> om_valid (playerVote r) \<and> 0 \<notin> set (keys (playerVote r)) \<and>
     (\<forall>x \<in> set (playerVote r). snd x \<noteq> NOT_VALID) \<and>
     unat (totalPlayersRolling r) = length (playerVote r) \<and> length (playerVote r) < 255 \<and>
     votes_of (\<lambda>v. v = VOTE_PASS) r \<le> unat (totalPass r) \<and>
     votes_of (\<lambda>v. v = VOTE_NEED) r \<le> unat (totalNeed r) \<and>
     votes_of greedy r \<le> unat (totalGreed r) \<and>
     votes_cast r < 255"

section \<open>The highest number\<close>

text \<open>The reference: the first of the voters whose number nobody exceeds.\<close>

definition top_roll :: "(guid \<Rightarrow> u8) \<Rightarrow> (guid \<times> RollVote) list \<Rightarrow> (guid \<times> RollVote) option" where
  "top_roll d E = find (\<lambda>x. \<forall>y \<in> set E. d (fst y) \<le> d (fst x)) E"

definition dicers :: "rollenv \<Rightarrow> nat option \<Rightarrow> (RollVote \<Rightarrow> bool) \<Rightarrow> Roll \<Rightarrow> (guid \<times> RollVote) list" where
  "dicers env am sel r = filter (\<lambda>x. sel (snd x) \<and> may_roll env am (fst x)) (playerVote r)"

lemma find_cong_on: "(\<And>x. x \<in> set xs \<Longrightarrow> f x = g x) \<Longrightarrow> find f xs = find g xs"
  by (induction xs) auto

lemma ex_top: "E \<noteq> [] \<Longrightarrow> \<exists>m \<in> set E. \<forall>y \<in> set E. (d :: 'a \<Rightarrow> 'b::linorder) y \<le> d m"
proof (induction E rule: list_nonempty_induct)
  case (cons x E)
  then obtain m where m: "m \<in> set E" "\<forall>y \<in> set E. d y \<le> d m" by blast
  then have "d m \<le> d x \<Longrightarrow> \<forall>y \<in> set (x # E). d y \<le> d x"
    and "\<not> d m \<le> d x \<Longrightarrow> \<forall>y \<in> set (x # E). d y \<le> d m"
    by (auto intro: order_trans)
  with m(1) show ?case by (metis list.set_intros)
qed simp

lemma find_ex: "find f xs \<noteq> None \<longleftrightarrow> (\<exists>x \<in> set xs. f x)"
  by (auto simp: find_None_iff)

lemma top_roll_Cons:
  "top_roll d (x # E) = (case top_roll d E of
     Some y \<Rightarrow> if d (fst x) < d (fst y) then Some y else Some x | None \<Rightarrow> Some x)"
proof (cases "\<forall>y \<in> set E. d (fst y) \<le> d (fst x)")
  case True
  then have "\<not> d (fst x) < d (fst y)" if "top_roll d E = Some y" for y
    using that by (auto simp: top_roll_def find_Some_iff not_less)
  then show ?thesis using True by (auto simp: top_roll_def split: option.split)
next
  case False
  then obtain z where z: "z \<in> set E" "d (fst x) < d (fst z)" by (auto simp: not_le)
  have e: "top_roll d (x # E) = top_roll d E"
    using False z unfolding top_roll_def
    by (auto intro!: find_cong_on intro: order.strict_implies_order less_le_trans)
  have "E \<noteq> []" using z by auto
  from ex_top [OF this, of "\<lambda>x. d (fst x)"]
  have "top_roll d E \<noteq> None" unfolding top_roll_def find_ex .
  moreover have "d (fst x) < d (fst y)" if "top_roll d E = Some y" for y
    using that z by (auto simp: top_roll_def find_Some_iff intro: less_le_trans)
  ultimately show ?thesis using e by (auto split: option.split)
qed

lemma top_roll_None: "top_roll d E = None \<longleftrightarrow> E = []"
proof (cases "E = []")
  case False
  from ex_top [OF this, of "\<lambda>x. d (fst x)"] have "top_roll d E \<noteq> None"
    unfolding top_roll_def find_ex .
  with False show ?thesis by simp
qed (simp add: top_roll_def)

lemma top_roll_mem: "top_roll d E = Some x \<Longrightarrow> x \<in> set E \<and> (\<forall>y \<in> set E. d (fst y) \<le> d (fst x))"
  by (auto simp: top_roll_def find_Some_iff)

lemma dice_loop_best:
  "fst (snd (dice_loop env am r sel vs tot (g, n, w))) =
     (let d = dice env (itemGUID r) in
      case top_roll d (filter (\<lambda>x. sel (snd x) \<and> may_roll env am (fst x)) vs) of
        Some x \<Rightarrow> if n < d (fst x) then (fst x, d (fst x), snd x) else (g, n, w)
      | None \<Rightarrow> (g, n, w))"
proof (induction vs arbitrary: tot g n w)
  case Nil
  then show ?case by (simp add: top_roll_def)
next
  case (Cons x vs)
  obtain p v where x: "x = (p, v)" by (cases x)
  show ?case
    by (auto simp: x Cons.IH top_roll_Cons Let_def split: option.split)
qed

lemma dice_loop_total:
  "fst (dice_loop env am r sel vs tot b) =
     tot - of_nat (length (filter (\<lambda>x. sel (snd x) \<and> \<not> may_roll env am (fst x)) vs))"
  by (induction vs arbitrary: tot b) (auto simp: Let_def)

lemma dice_loop_packets: "e \<in> set (snd (snd (dice_loop env am r sel vs tot b))) \<Longrightarrow> \<exists>p k. e = RollPacket p k"
  by (induction vs arbitrary: tot b) (auto simp: Let_def SendLootRoll_def to_voters_def split: if_splits)

lemma length_split:
  "length (filter (\<lambda>x. f x \<and> g x) xs) + length (filter (\<lambda>x. f x \<and> \<not> g x) xs) = length (filter f xs)"
  by (induction xs) auto

lemma byte_pos: "0 < (w :: u8) \<longleftrightarrow> w \<noteq> 0"
  by (simp add: word_neq_0_conv)

lemma dice_total_pos:
  assumes "votes_of sel r \<le> unat tot" and "dicers env am sel r \<noteq> []"
  shows "tot - of_nat (length (filter (\<lambda>x. sel (snd x) \<and> \<not> may_roll env am (fst x)) (playerVote r))) \<noteq> (0 :: u8)"
proof -
  let ?k = "length (filter (\<lambda>x. sel (snd x) \<and> \<not> may_roll env am (fst x)) (playerVote r))"
  have "0 < length (dicers env am sel r)" using assms(2) by simp
  with length_split [of "\<lambda>x. sel (snd x)" "\<lambda>x. may_roll env am (fst x)" "playerVote r"]
  have "?k < votes_of sel r" unfolding votes_of_def dicers_def by linarith
  then have "?k < unat tot" using assms(1) by simp
  then have "tot \<noteq> of_nat ?k"
    using unsigned_less [of tot] by (auto simp: unat_of_nat)
  then show ?thesis by simp
qed


section \<open>The outcome of a roll\<close>

text \<open>The reference: need beats greed and disenchant; among equals in kind the highest number wins,
  the first in the order of identifiers when it was rolled twice.\<close>

definition roll_winner :: "rollenv \<Rightarrow> nat option \<Rightarrow> Roll \<Rightarrow> (guid \<times> RollVote) option" where
  "roll_winner env am r = (let d = dice env (itemGUID r) in
     case top_roll d (dicers env am (\<lambda>v. v = VOTE_NEED) r) of
       Some x \<Rightarrow> Some x
     | None \<Rightarrow> top_roll d (dicers env am greedy r))"

text \<open>What becomes of the loot: the item is looted; or it waits for the winner, whose bags are full;
  or, when all passed, it is open to everyone.\<close>

definition loot_after :: "rollenv \<Rightarrow> Roll \<Rightarrow> (guid \<times> RollVote) option \<Rightarrow> Loot \<Rightarrow> Loot" where
  "loot_after env r w l = (case w of
     None \<Rightarrow> change_item (itemSlot r) (\<lambda>i. i\<lparr>is_blocked := False\<rparr>) l
   | Some (p, v) \<Rightarrow>
      (if v = VOTE_DISENCHANT \<or> can_store env (itemGUID r) p = 0
       then (change_item (itemSlot r) (\<lambda>i. i\<lparr>is_looted := True\<rparr>) l)
              \<lparr>PlayersLooting := filter (FindPlayer env) (PlayersLooting l),
               unlootedCount := unlootedCount l - 1\<rparr>
       else change_item (itemSlot r) (\<lambda>i. i\<lparr>is_blocked := False, rollWinnerGUID := p\<rparr>) l))"

definition given :: "reff list \<Rightarrow> (guid \<times> u32) list" where
  "given es = concat (map (\<lambda>e. case e of StoreNewItem p i n x a \<Rightarrow> [(p, i)] | _ \<Rightarrow> []) es)"

definition given_to :: "rollenv \<Rightarrow> Roll \<Rightarrow> (guid \<times> RollVote) option \<Rightarrow> (guid \<times> u32) list" where
  "given_to env r w = (case w of
     Some (p, v) \<Rightarrow> if v \<noteq> VOTE_DISENCHANT \<and> can_store env (itemGUID r) p = 0 then [(p, itemid r)] else []
   | None \<Rightarrow> [])"

lemma given_simps [simp]: "given [] = []" "given (a @ b) = given a @ given b"
    "given (StoreNewItem p i n x y # es) = (p, i) # given es"
  by (simp_all add: given_def)

lemma given_quiet: "\<forall>e \<in> set es. \<not> (\<exists>p i n x a. e = StoreNewItem p i n x a) \<Longrightarrow> given es = []"
  by (auto simp: given_def split: reff.split)

text \<open>Effects that hand out nothing and are defined.\<close>

definition quiet :: "reff list \<Rightarrow> bool" where
  "quiet es \<longleftrightarrow> given es = [] \<and> Undefined \<notin> set es"

lemma quiet_simps [simp]: "quiet []" "quiet (a @ b) \<longleftrightarrow> quiet a \<and> quiet b"
    "quiet (RollPacket p k # es) \<longleftrightarrow> quiet es" "quiet (LootItemRemoved p x # es) \<longleftrightarrow> quiet es"
    "quiet (NeedCriteria p i x # es) \<longleftrightarrow> quiet es" "quiet (GreedCriteria p i x # es) \<longleftrightarrow> quiet es"
    "quiet (CastSpellCriteria p i # es) \<longleftrightarrow> quiet es" "quiet (RollRewardItem p i x # es) \<longleftrightarrow> quiet es"
    "quiet (LootAchievements p i # es) \<longleftrightarrow> quiet es" "quiet (EquipError p x i # es) \<longleftrightarrow> quiet es"
    "quiet (AutoStoreDisenchant p i # es) \<longleftrightarrow> quiet es" "quiet (ItemRetrievalMail p i x # es) \<longleftrightarrow> quiet es"
    "quiet (ChestDeactivated # es) \<longleftrightarrow> quiet es"
  by (auto simp: quiet_def given_def)

lemma quiet_concat [simp]: "quiet (concat ess) \<longleftrightarrow> (\<forall>es \<in> set ess. quiet es)"
  by (induction ess) auto

lemma quiet_map: "(\<And>x. x \<in> set xs \<Longrightarrow> quiet [f x]) \<Longrightarrow> quiet (map f xs)"
  by (induction xs) (auto simp: quiet_def given_def)

lemma quiet_to_voters [simp]: "quiet (to_voters env r sel k)"
  by (auto simp: to_voters_def split: if_splits)

lemma quiet_sends [simp]:
  "quiet (SendLootRoll env a b c d r)" "quiet (SendLootRollWon env a b c d r)" "quiet (SendLootAllPassed env r)"
  by (simp_all add: SendLootRoll_def SendLootRollWon_def SendLootAllPassed_def)

lemma quiet_dice [simp]: "quiet (snd (snd (dice_loop env am r sel vs tot b)))"
  by (induction vs arbitrary: tot b) (auto simp: Let_def)

lemma take_item_eval:
  "fst (take_item env r l) = (change_item (itemSlot r) (\<lambda>i. i\<lparr>is_looted := True\<rparr>) l)
     \<lparr>PlayersLooting := filter (FindPlayer env) (PlayersLooting l), unlootedCount := unlootedCount l - 1\<rparr>"
  "quiet (snd (take_item env r l))"
  by (simp_all add: take_item_def act_eval NotifyItemRemoved_def change_item_def Let_def quiet_map)

lemma give_item_eval:
  assumes "rolled_item (itemSlot r) l = Some it" and "v \<noteq> VOTE_DISENCHANT"
  shows "fst (give_item env r p v l) = loot_after env r (Some (p, v)) l"
    "given (snd (give_item env r p v l)) = given_to env r (Some (p, v))"
    "Undefined \<notin> set (snd (give_item env r p v l))"
  using assms take_item_eval [of env r l]
  by (auto simp: give_item_def act_eval loot_after_def given_to_def Let_def quiet_def given_def)

lemma disenchant_item_eval:
  assumes "rolled_item (itemSlot r) l = Some it" and "item_template env (itemid r) = Some tp"
  shows "fst (disenchant_item env r p l) = loot_after env r (Some (p, VOTE_DISENCHANT)) l"
    "quiet (snd (disenchant_item env r p l))"
  using assms take_item_eval [of env r l]
  by (auto simp: disenchant_item_def act_eval loot_after_def Let_def split_beta)


lemma given_sends [simp]:
  "given (SendLootRoll env a b c d r) = []" "given (SendLootRollWon env a b c d r) = []"
  "given (SendLootAllPassed env r) = []" "given (NeedCriteria p i x # es) = given es" "given (GreedCriteria p i x # es) = given es"
  "Undefined \<notin> set (SendLootRollWon env a b c d r)"
  using quiet_sends by (auto simp: quiet_def given_def)

lemma undefined_quiet: "quiet es \<Longrightarrow> given es = []" "quiet es \<Longrightarrow> Undefined \<notin> set es"
  by (simp_all add: quiet_def)

definition dice_thrown :: "rollenv \<Rightarrow> Roll \<Rightarrow> bool" where
  "dice_thrown env r \<longleftrightarrow> (\<forall>p \<in> set (keys (playerVote r)). dice env (itemGUID r) p \<noteq> 0)"

text \<open>What a stage decides: the best of its dicers.\<close>

lemma dice_best:
  assumes "dice_thrown env r"
  shows "fst (snd (dice_loop env am r sel (playerVote r) tot (0, 0, NOT_VALID))) =
    (case top_roll (dice env (itemGUID r)) (dicers env am sel r) of
       Some x \<Rightarrow> (fst x, dice env (itemGUID r) (fst x), snd x) | None \<Rightarrow> (0, 0, NOT_VALID))"
proof (cases "top_roll (dice env (itemGUID r)) (dicers env am sel r)")
  case None
  then show ?thesis by (simp add: dice_loop_best dicers_def)
next
  case (Some x)
  then have "x \<in> set (playerVote r)" by (auto simp: dicers_def dest: top_roll_mem)
  with assms have "0 < dice env (itemGUID r) (fst x)" by (auto simp: dice_thrown_def word_neq_0_conv)
  with Some show ?thesis by (simp add: dice_loop_best dicers_def)
qed

lemma top_dicer:
  assumes "top_roll d (dicers env am sel r) = Some (p, v)" and "0 \<notin> set (keys (playerVote r))"
  shows "sel v" "p \<noteq> 0" "FindPlayer env p" "dicers env am sel r \<noteq> []"
proof -
  have m: "(p, v) \<in> set (dicers env am sel r)" using top_roll_mem [OF assms(1)] by simp
  then have v: "(p, v) \<in> set (playerVote r)" and "may_roll env am p" by (simp_all add: dicers_def)
  then show "FindPlayer env p" by (simp add: may_roll_def FindPlayer_def split: option.splits)
  show "sel v" using m by (simp add: dicers_def)
  show "dicers env am sel r \<noteq> []" using m by (metis empty_iff list.set(1))
  show "p \<noteq> 0" using v assms(2) by force
qed

lemma triple_parts: "fst x = a \<Longrightarrow> fst (snd x) = b \<Longrightarrow> x = (a, b, snd (snd x))"
  by (cases x) auto

lemma loot_after_cong [simp]:
  "loot_after env (r\<lparr>totalNeed := t\<rparr>) w l = loot_after env r w l"
  "loot_after env (r\<lparr>totalGreed := t\<rparr>) w l = loot_after env r w l"
  "given_to env (r\<lparr>totalNeed := t\<rparr>) w = given_to env r w"
  "given_to env (r\<lparr>totalGreed := t\<rparr>) w = given_to env r w"
  by (simp_all add: loot_after_def given_to_def split: option.split)

lemma votes_nonempty: "dicers env am sel r \<noteq> [] \<Longrightarrow> playerVote r \<noteq> []"
  by (auto simp: dicers_def)

lemma positive: "0 < votes_of sel r \<Longrightarrow> votes_of sel r \<le> unat t \<Longrightarrow> (t :: u8) \<noteq> 0"
  by (metis not_less0 less_le_trans unat_0)

lemma dicers_votes: "dicers env am sel r \<noteq> [] \<Longrightarrow> 0 < votes_of sel r"
  by (auto simp: dicers_def votes_of_def filter_empty_conv)

lemma need_stage_some:
  assumes "roll_ok r" and "dice_thrown env r" and "rolled_item (itemSlot r) l = Some it"
    and top: "top_roll (dice env (itemGUID r)) (dicers env am (\<lambda>v. v = VOTE_NEED) r) = Some (p, v)"
  shows "\<exists>t. t \<noteq> 0 \<and> fst (need_stage env am (r, l)) = (r\<lparr>totalNeed := t\<rparr>, loot_after env r (Some (p, v)) l) \<and>
    given (snd (need_stage env am (r, l))) = given_to env r (Some (p, v)) \<and>
    Undefined \<notin> set (snd (need_stage env am (r, l)))"
proof -
  have "0 \<notin> set (keys (playerVote r))" using assms(1) by (simp add: roll_ok_def)
  note d = top_dicer [OF top this]
  from assms(1) have le: "votes_of (\<lambda>v. v = VOTE_NEED) r \<le> unat (totalNeed r)" by (simp add: roll_ok_def)
  obtain t where t: "fst (need_dice env am r) = t" "t \<noteq> 0"
    using dice_total_pos [OF le d(4)] by (simp add: need_dice_def dice_loop_total)
  have best: "fst (snd (need_dice env am r)) = (p, dice env (itemGUID r) p, v)"
    using dice_best [OF assms(2), of am "\<lambda>v. v = VOTE_NEED"] top by (simp add: need_dice_def)
  define es where "es = snd (snd (need_dice env am r))"
  then have q: "quiet es" by (simp add: need_dice_def)
  have e: "need_dice env am r = (t, (p, dice env (itemGUID r) p, v), es)"
    unfolding es_def by (rule triple_parts [OF t(1) best])
  have "rolled_item (itemSlot (r\<lparr>totalNeed := t\<rparr>)) l = Some it" using assms(3) by simp
  note g = give_item_eval [OF this, of VOTE_NEED env p]
  show ?thesis
    using d t(2) positive [OF dicers_votes [OF d(4)] le] votes_nonempty [OF d(4)] g
      undefined_quiet [OF q]
    by (intro exI [of _ t]) (simp add: need_stage_def act_eval byte_pos e on_roll_def on_loot_def undefined_quiet)
qed

lemma need_stage_none:
  assumes "top_roll (dice env (itemGUID r)) (dicers env am (\<lambda>v. v = VOTE_NEED) r) = None"
    and "dice_thrown env r" and "playerVote r \<noteq> [] \<or> totalNeed r = 0"
  shows "fst (need_stage env am (r, l)) = (r\<lparr>totalNeed := 0\<rparr>, l)" "quiet (snd (need_stage env am (r, l)))"
proof -
  have best: "fst (snd (need_dice env am r)) = (0, 0, NOT_VALID)"
    using dice_best [OF assms(2), of am "\<lambda>v. v = VOTE_NEED"] assms(1) by (simp add: need_dice_def)
  define es where "es = snd (snd (need_dice env am r))"
  then have q: "quiet es" by (simp add: need_dice_def)
  obtain t where e: "need_dice env am r = (t, (0, 0, NOT_VALID), es)"
    unfolding es_def using triple_parts [OF refl best] by blast
  show "fst (need_stage env am (r, l)) = (r\<lparr>totalNeed := 0\<rparr>, l)" "quiet (snd (need_stage env am (r, l)))"
    using q assms(3) by (auto simp: need_stage_def act_eval byte_pos e on_roll_def byte_pos)
qed


lemma greed_stage_some:
  assumes "0 \<notin> set (keys (playerVote r))" and le: "votes_of greedy r \<le> unat (totalGreed r)" and "dice_thrown env r" and "rolled_item (itemSlot r) l = Some it"
    and "item_template env (itemid r) = Some tp" and "totalNeed r = 0"
    and top: "top_roll (dice env (itemGUID r)) (dicers env am greedy r) = Some (p, v)"
  shows "\<exists>t. t \<noteq> 0 \<and> fst (greed_stage env am (r, l)) = (r\<lparr>totalGreed := t\<rparr>, loot_after env r (Some (p, v)) l) \<and>
    given (snd (greed_stage env am (r, l))) = given_to env r (Some (p, v)) \<and>
    Undefined \<notin> set (snd (greed_stage env am (r, l)))"
proof -
  note d = top_dicer [OF top assms(1)]
  obtain t where t: "fst (greed_dice env am r) = t" "t \<noteq> 0"
    using dice_total_pos [OF le d(4)] by (simp add: greed_dice_def dice_loop_total)
  have best: "fst (snd (greed_dice env am r)) = (p, dice env (itemGUID r) p, v)"
    using dice_best [OF assms(3), of am greedy] top by (simp add: greed_dice_def)
  define es where "es = snd (snd (greed_dice env am r))"
  then have q: "quiet es" by (simp add: greed_dice_def)
  have e: "greed_dice env am r = (t, (p, dice env (itemGUID r) p, v), es)"
    unfolding es_def by (rule triple_parts [OF t(1) best])
  have r': "rolled_item (itemSlot (r\<lparr>totalGreed := t\<rparr>)) l = Some it"
    "item_template env (itemid (r\<lparr>totalGreed := t\<rparr>)) = Some tp" using assms(4,5) by simp_all
  note g = give_item_eval [OF r'(1), of VOTE_GREED env p] disenchant_item_eval [OF r', of p]
  have "given_to env r (Some (p, VOTE_DISENCHANT)) = []" by (simp add: given_to_def)
  note facts = this d(2,3) t(2) positive [OF dicers_votes [OF d(4)] le] votes_nonempty [OF d(4)] g
      undefined_quiet [OF q] assms(6) undefined_quiet [OF g(5)]
  from d(1) show ?thesis
  proof
    assume "v = VOTE_GREED"
    then show ?thesis using facts
      by (intro exI [of _ t]) (simp add: greed_stage_def act_eval byte_pos e on_roll_def on_loot_def)
  next
    assume "v = VOTE_DISENCHANT"
    then show ?thesis using facts
      by (intro exI [of _ t]) (simp add: greed_stage_def act_eval byte_pos e on_roll_def on_loot_def)
  qed
qed

lemma greed_stage_none:
  assumes "top_roll (dice env (itemGUID r)) (dicers env am greedy r) = None"
    and "dice_thrown env r" and "totalNeed r = 0" and "playerVote r \<noteq> [] \<or> totalGreed r = 0"
  shows "fst (greed_stage env am (r, l)) = (r\<lparr>totalGreed := 0\<rparr>, l)" "quiet (snd (greed_stage env am (r, l)))"
proof -
  have best: "fst (snd (greed_dice env am r)) = (0, 0, NOT_VALID)"
    using dice_best [OF assms(2), of am greedy] assms(1) by (simp add: greed_dice_def)
  define es where "es = snd (snd (greed_dice env am r))"
  then have q: "quiet es" by (simp add: greed_dice_def)
  obtain t where e: "greed_dice env am r = (t, (0, 0, NOT_VALID), es)"
    unfolding es_def using triple_parts [OF refl best] by blast
  show "fst (greed_stage env am (r, l)) = (r\<lparr>totalGreed := 0\<rparr>, l)" "quiet (snd (greed_stage env am (r, l)))"
    using q assms(3,4) by (auto simp: greed_stage_def act_eval byte_pos e on_roll_def byte_pos)
qed

lemma greed_stage_off: "totalNeed r \<noteq> 0 \<Longrightarrow> greed_stage env am (r, l) = ((r, l), [])"
  by (simp add: greed_stage_def act_eval byte_pos)

lemma pass_stage_eval:
  assumes "rolled_item (itemSlot r) l \<noteq> None"
  shows "totalNeed r = 0 \<Longrightarrow> totalGreed r = 0 \<Longrightarrow> fst (pass_stage env (r, l)) = (r, loot_after env r None l)"
    "totalNeed r \<noteq> 0 \<or> totalGreed r \<noteq> 0 \<Longrightarrow> pass_stage env (r, l) = ((r, l), [])"
    "quiet (snd (pass_stage env (r, l)))"
  using assms by (auto simp: pass_stage_def act_eval loot_after_def)

lemma chest_stage_eval: "fst (chest_stage x) = x" "quiet (snd (chest_stage x))"
  by (auto simp: chest_stage_def act_eval split: prod.split)

lemma rolled_item_after: "rolled_item slot (loot_after env r w l) = None \<longleftrightarrow> rolled_item slot l = None"
  by (auto simp: rolled_item_def loot_after_def change_item_def Let_def split: option.split)

definition dispute_open :: "Roll \<Rightarrow> bool" where
  "dispute_open r \<longleftrightarrow> playerVote r \<noteq> [] \<or> totalNeed r = 0 \<and> totalGreed r = 0"

lemma roll_out_eval:
  "roll_out env am x =
    (let a = need_stage env am x; b = greed_stage env am (fst a); c = pass_stage env (fst b) in
     (fst c, snd a @ snd b @ snd c @ snd (chest_stage (fst c))))"
  by (simp add: roll_out_def act_eval Let_def chest_stage_eval)

lemma roll_out_result:
  assumes ok: "roll_ok r" and dice: "dice_thrown env r" and it: "rolled_item (itemSlot r) l = Some it"
    and tp: "item_template env (itemid r) = Some tp" and "open": "dispute_open r"
  shows "snd (fst (roll_out env am (r, l))) = loot_after env r (roll_winner env am r) l \<and>
    given (snd (roll_out env am (r, l))) = given_to env r (roll_winner env am r) \<and>
    Undefined \<notin> set (snd (roll_out env am (r, l)))"
proof -
  let ?top = "top_roll (dice env (itemGUID r))"
  note q = undefined_quiet [OF chest_stage_eval(2)]
  show ?thesis
  proof (cases "?top (dicers env am (\<lambda>v. v = VOTE_NEED) r)")
    case (Some x)
    obtain p v where x: "x = (p, v)" by (cases x)
    from need_stage_some [OF ok dice it Some [unfolded x]] obtain t where t: "t \<noteq> 0"
      "fst (need_stage env am (r, l)) = (r\<lparr>totalNeed := t\<rparr>, loot_after env r (Some (p, v)) l)"
      "given (snd (need_stage env am (r, l))) = given_to env r (Some (p, v))"
      "Undefined \<notin> set (snd (need_stage env am (r, l)))" by blast
    have "rolled_item (itemSlot (r\<lparr>totalNeed := t\<rparr>)) (loot_after env r (Some (p, v)) l) \<noteq> None"
      using it by (simp add: rolled_item_after)
    with t Some show ?thesis
      by (simp add: roll_out_eval Let_def greed_stage_off pass_stage_eval(2) x roll_winner_def q)
  next
    case None
    let ?r = "r\<lparr>totalNeed := 0\<rparr>"
    have o: "playerVote r \<noteq> [] \<or> totalNeed r = 0" "playerVote ?r \<noteq> [] \<or> totalGreed ?r = 0"
      using "open" by (auto simp: dispute_open_def)
    note n = need_stage_none [OF None dice o(1), of l]
    show ?thesis
    proof (cases "?top (dicers env am greedy r)")
      case (Some x)
      obtain p v where x: "x = (p, v)" by (cases x)
      have r: "dice_thrown env ?r" "rolled_item (itemSlot ?r) l = Some it" "item_template env (itemid ?r) = Some tp"
        "top_roll (dice env (itemGUID ?r)) (dicers env am greedy ?r) = Some (p, v)"
        using dice it tp Some by (simp_all add: dice_thrown_def x dicers_def)
      have "0 \<notin> set (keys (playerVote ?r))" "votes_of greedy ?r \<le> unat (totalGreed ?r)"
        using ok by (simp_all add: roll_ok_def votes_of_def)
      from greed_stage_some [OF this r(1,2,3) _ r(4)] obtain t where t: "t \<noteq> 0"
        "fst (greed_stage env am (?r, l)) = (?r\<lparr>totalGreed := t\<rparr>, loot_after env r (Some (p, v)) l)"
        "given (snd (greed_stage env am (?r, l))) = given_to env r (Some (p, v))"
        "Undefined \<notin> set (snd (greed_stage env am (?r, l)))" by auto
      have "rolled_item (itemSlot (?r\<lparr>totalGreed := t\<rparr>)) (loot_after env r (Some (p, v)) l) \<noteq> None"
        using it by (simp add: rolled_item_after)
      with t n None Some show ?thesis
        by (simp add: roll_out_eval Let_def pass_stage_eval(2) x roll_winner_def q undefined_quiet)
    next
      case None': None
      have r: "top_roll (dice env (itemGUID ?r)) (dicers env am greedy ?r) = None" "dice_thrown env ?r"
        using None' dice by (simp_all add: dice_thrown_def dicers_def)
      note g = greed_stage_none [OF r _ o(2), of l]
      have "rolled_item (itemSlot (?r\<lparr>totalGreed := 0\<rparr>)) l \<noteq> None" using it by simp
      note p = pass_stage_eval [OF this]
      have "loot_after env (?r\<lparr>totalGreed := 0\<rparr>) None l = loot_after env r None l"
        "given_to env r None = []" by (simp_all add: given_to_def)
      with n g p None None' show ?thesis
        by (simp add: roll_out_eval Let_def roll_winner_def q undefined_quiet)
    qed
  qed
qed

end
