(* ===== verification/LootInv.thy ===== *)
theory LootInv
  imports LootOutcome
begin

text \<open>
  The invariant of the open rolls: the totals of a roll count at least the votes of each kind, one
  entry per player who rolls, none of them wraps, and the item a roll is for is there. Every
  operation of a group on its rolls keeps it.
\<close>

section \<open>Counting votes\<close>

lemma byte_inc: "unat w < 255 \<Longrightarrow> unat (w + 1 :: u8) = Suc (unat w)"
  by (simp add: unat_word_ariths)

lemma byte_dec: "0 < unat w \<Longrightarrow> unat (w - 1 :: u8) = unat w - Suc 0"
  using unat_minus_one [of w] by (cases "w = 0") auto

abbreviation votes_in :: "('v \<Rightarrow> bool) \<Rightarrow> ('k \<times> 'v) list \<Rightarrow> nat" where
  "votes_in sel m \<equiv> length (filter (\<lambda>x. sel (snd x)) m)"

lemma votes_in_modify:
  "distinct (keys m) \<Longrightarrow> votes_in sel (om_modify p (\<lambda>_. v) m) \<le> votes_in sel m + (if sel v then 1 else 0)"
proof (induction m)
  case (Cons x m)
  then have "p = fst x \<Longrightarrow> om_modify p (\<lambda>_. v) m = m"
    by (intro om_modify_absent) simp
  with Cons show ?case by (cases x) (auto simp: om_modify_Cons)
qed (simp add: om_modify_def)

lemma votes_in_erase:
  "distinct (keys m) \<Longrightarrow> map_of m p = Some v \<Longrightarrow>
     votes_in sel m = votes_in sel (om_erase p m) + (if sel v then 1 else 0)"
proof (induction m)
  case (Cons x m)
  then have "p = fst x \<Longrightarrow> om_erase p m = m"
    by (intro om_erase_absent) simp
  with Cons show ?case by (cases x) (auto simp: om_erase_Cons split: if_splits)
qed simp

lemma votes_in_assign:
  "p \<notin> set (keys m) \<Longrightarrow> votes_in sel (om_assign p v m) = votes_in sel m + (if sel v then 1 else 0)"
  by (induction p v m rule: om_assign.induct) auto

lemma length_erase: "distinct (keys m) \<Longrightarrow> map_of m p = Some v \<Longrightarrow> length m = length (om_erase p m) + 1"
  using votes_in_erase [of m p v "\<lambda>_. True"] by simp

lemma length_assign: "p \<notin> set (keys m) \<Longrightarrow> length (om_assign p v m) = length m + 1"
  using votes_in_assign [of p m "\<lambda>_. True"] by simp

lemma set_om_modify: "x \<in> set (om_modify p (\<lambda>_. v) m) \<Longrightarrow> snd x = v \<or> x \<in> set m"
  by (auto simp: om_modify_def split: if_splits)

lemma length_om_modify [simp]: "length (om_modify p f m) = length m"
  by (simp add: om_modify_def)

lemma set_om_assign: "x \<in> set (om_assign p v m) \<Longrightarrow> x = (p, v) \<or> x \<in> set m"
  by (induction p v m rule: om_assign.induct) (auto split: if_splits)

section \<open>Votes keep a roll well-formed\<close>

lemma roll_ok_distinct: "roll_ok r \<Longrightarrow> distinct (keys (playerVote r))"
  by (simp add: roll_ok_def om_valid_distinct)

text \<open>As long as not all have voted, a vote wraps no total.\<close>

lemma cast_vote_ok:
  assumes "roll_ok r" and "votes_cast (fst (cast_vote env p choice r)) \<le> unat (totalPlayersRolling r)"
  shows "roll_ok (fst (cast_vote env p choice r))"
proof -
  note d = roll_ok_distinct [OF assms(1)]
  have inc: "unat (totalPass r + 1) = unat (totalPass r) + 1" "unat (totalNeed r + 1) = unat (totalNeed r) + 1"
    "unat (totalGreed r + 1) = unat (totalGreed r) + 1"
    using assms(1) by (auto simp: roll_ok_def votes_cast_def intro!: byte_inc)
  have b: "votes_cast (fst (cast_vote env p choice r)) < 255"
    using assms by (simp add: roll_ok_def)
  have m: "votes_in sel (om_modify p (\<lambda>_. v) (playerVote r)) \<le> votes_in sel (playerVote r) + (if sel v then 1 else 0)"
    for sel v by (rule votes_in_modify [OF d])
  have e: "\<forall>x \<in> set (om_modify p (\<lambda>_. v) (playerVote r)). snd x \<noteq> NOT_VALID" if "v \<noteq> NOT_VALID" for v
    using assms(1) that by (auto simp: roll_ok_def dest: set_om_modify)
  note rules = roll_ok_def votes_of_def votes_cast_def set_vote_def cast_vote_def act_eval roll_consts
  consider "choice = ROLL_PASS" | "choice = ROLL_NEED" | "choice = ROLL_GREED" | "choice = ROLL_DISENCHANT"
    | "cast_vote env p choice = skip"
    unfolding cast_vote_def by meson
  then show ?thesis
  proof cases
    case 1
    with assms(1) b inc e [of VOTE_PASS] m [of "\<lambda>v. v = VOTE_PASS" VOTE_PASS]
      m [of "\<lambda>v. v = VOTE_NEED" VOTE_PASS] m [of greedy VOTE_PASS]
    show ?thesis by (simp add: rules)
  next
    case 2
    with assms(1) b inc e [of VOTE_NEED] m [of "\<lambda>v. v = VOTE_PASS" VOTE_NEED]
      m [of "\<lambda>v. v = VOTE_NEED" VOTE_NEED] m [of greedy VOTE_NEED]
    show ?thesis by (simp add: rules)
  next
    case 3
    with assms(1) b inc e [of VOTE_GREED] m [of "\<lambda>v. v = VOTE_PASS" VOTE_GREED]
      m [of "\<lambda>v. v = VOTE_NEED" VOTE_GREED] m [of greedy VOTE_GREED]
    show ?thesis by (simp add: rules)
  next
    case 4
    with assms(1) b inc e [of VOTE_DISENCHANT] m [of "\<lambda>v. v = VOTE_PASS" VOTE_DISENCHANT]
      m [of "\<lambda>v. v = VOTE_NEED" VOTE_DISENCHANT] m [of greedy VOTE_DISENCHANT]
    show ?thesis by (simp add: rules)
  next
    case 5
    with assms(1) show ?thesis by (simp add: act_eval)
  qed
qed

lemma drop_voter_ok:
  assumes "roll_ok r"
  shows "roll_ok (drop_voter p r)"
proof (cases "map_of (playerVote r) p")
  case None
  with assms show ?thesis by (simp add: drop_voter_def)
next
  case (Some v)
  note d = roll_ok_distinct [OF assms]
  note e = votes_in_erase [OF d Some]
  have v: "v \<noteq> NOT_VALID" using assms map_of_SomeD [OF Some] by (force simp: roll_ok_def)
  have n: "length (playerVote r) = length (om_erase p (playerVote r)) + 1"
    by (rule length_erase [OF d Some])
  have "0 < unat (totalPlayersRolling r)" "v = VOTE_PASS \<Longrightarrow> 0 < unat (totalPass r)"
    "v = VOTE_NEED \<Longrightarrow> 0 < unat (totalNeed r)" "greedy v \<Longrightarrow> 0 < unat (totalGreed r)"
    using assms n e [of "\<lambda>v. v = VOTE_PASS"] e [of "\<lambda>v. v = VOTE_NEED"] e [of greedy]
    by (auto simp: roll_ok_def votes_of_def)
  note dec = this [THEN byte_dec]
  have k: "0 \<notin> set (keys (om_erase p (playerVote r)))" "\<forall>x \<in> set (om_erase p (playerVote r)). snd x \<noteq> NOT_VALID"
    using assms by (auto simp: roll_ok_def om_erase_def)
  show ?thesis
    using assms v n dec k e [of "\<lambda>v. v = VOTE_PASS"] e [of "\<lambda>v. v = VOTE_NEED"] e [of greedy]
    by (cases v) (auto simp: drop_voter_def Some roll_ok_def votes_of_def votes_cast_def om.valid_erase simp del: set_map)
qed

text \<open>A roll is opened well-formed, for at most 254 different members.\<close>

definition fresh_roll :: "guid list \<Rightarrow> Roll \<Rightarrow> bool" where
  "fresh_roll done r \<longleftrightarrow> roll_ok r \<and> set (keys (playerVote r)) \<subseteq> set done \<and>
     unat (totalNeed r) = 0 \<and> unat (totalGreed r) = 0 \<and> length (playerVote r) \<le> length done \<and>
     unat (totalPass r) = votes_of (\<lambda>v. v = VOTE_PASS) r \<and>
     (\<forall>v \<in> snd ` set (playerVote r). v = VOTE_PASS \<or> v = NOT_EMITED_YET)"

lemma enter_voter_fresh:
  assumes "fresh_roll done r" and "p \<notin> set done" and "p \<noteq> 0" and "length done < 254"
  shows "fresh_roll (p # done) (enter_voter ctx autopass p r)"
proof -
  have new: "p \<notin> set (keys (playerVote r))" using assms(1,2) by (auto simp: fresh_roll_def)
  note a = votes_in_assign [OF new] length_assign [OF new]
  have "votes_of (\<lambda>v. v = VOTE_PASS) r \<le> length (playerVote r)" unfolding votes_of_def by (rule length_filter_le)
  then have "unat (totalPass r) < 255" "unat (totalPlayersRolling r) < 255"
    using assms(1,4) by (simp_all add: fresh_roll_def roll_ok_def)
  then have inc: "unat (totalPlayersRolling r + 1) = unat (totalPlayersRolling r) + 1"
    "unat (totalPass r + 1) = unat (totalPass r) + 1"
    by (simp_all add: byte_inc)
  define m where "m v = om_assign p v (playerVote r)" for v
  have m: "om_valid (m v)" "set (keys (m v)) = insert p (set (keys (playerVote r)))"
    "length (m v) = length (playerVote r) + 1" "x \<in> set (m v) \<Longrightarrow> snd x = v \<or> x \<in> set (playerVote r)"
    "votes_in sel (m v) = votes_in sel (playerVote r) + (if sel v then 1 else 0)" for v x sel
    using assms(1) a set_keys_om_assign [of p v "playerVote r"]
    by (auto simp: m_def om.valid_assign fresh_roll_def roll_ok_def simp del: set_map dest!: set_om_assign)
  have votes: "\<forall>x \<in> set (m v). snd x = VOTE_PASS \<or> snd x = NOT_EMITED_YET" if "v = VOTE_PASS \<or> v = NOT_EMITED_YET" for v
    using m(4) that assms(1) by (fastforce simp: fresh_roll_def)
  then have valid: "\<forall>x \<in> set (m v). snd x \<noteq> NOT_VALID" if "v = VOTE_PASS \<or> v = NOT_EMITED_YET" for v
    using that by fastforce
  have none: "filter (\<lambda>x. snd x = VOTE_NEED) (m v) = []" "filter (\<lambda>x. greedy (snd x)) (m v) = []"
    if "v = VOTE_PASS \<or> v = NOT_EMITED_YET" for v
    using votes [OF that] by (auto simp: filter_empty_conv)
  have few: "length (filter (\<lambda>x. snd x = VOTE_PASS) (playerVote r)) < 254"
    using assms(1,4) by (auto simp: fresh_roll_def intro: le_less_trans [OF length_filter_le])
  have keys: "0 \<notin> set (keys (m v))" "set (keys (m v)) \<subseteq> set (p # done)" "length (m v) \<le> length (p # done)" for v
    using assms(1,3) m by (auto simp: fresh_roll_def roll_ok_def simp del: set_map)
  note rules = enter_vote_def Let_def fresh_roll_def roll_ok_def votes_of_def votes_cast_def m_def [symmetric]
  show ?thesis
  proof (cases "autopass \<and> PassOnGroupLoot ctx p")
    case True
    then have "enter_voter ctx autopass p r =
        (enter_vote p VOTE_PASS (r\<lparr>totalPlayersRolling := totalPlayersRolling r + 1\<rparr>))
          \<lparr>totalPass := totalPass r + 1\<rparr>"
      by (simp add: enter_voter_def Let_def)
    with assms(1,4) inc m(1,3) m(5) [of "\<lambda>v. v = VOTE_PASS" VOTE_PASS] few none [of VOTE_PASS] votes [of VOTE_PASS] valid [of VOTE_PASS] keys [of VOTE_PASS]
    show ?thesis by (simp add: rules del: set_map)
  next
    case False
    then have "enter_voter ctx autopass p r =
        enter_vote p NOT_EMITED_YET (r\<lparr>totalPlayersRolling := totalPlayersRolling r + 1\<rparr>)"
      by (auto simp: enter_voter_def Let_def)
    with assms(1,4) inc m(1,3) m(5) [of "\<lambda>v. v = VOTE_PASS" NOT_EMITED_YET] few none [of NOT_EMITED_YET] votes [of NOT_EMITED_YET] valid [of NOT_EMITED_YET] keys [of NOT_EMITED_YET]
    show ?thesis by (simp add: rules del: set_map)
  qed
qed


lemma collect_votes_fresh:
  assumes "fresh_roll done r" and "distinct (rev done @ ps)" and "0 \<notin> set ps" and "length done + length ps < 255"
  shows "\<exists>done'. fresh_roll done' (collect_votes ctx autopass it ps r)"
  using assms
proof (induction ps arbitrary: "done" r)
  case (Cons p ps)
  have "fresh_roll (p # done) (if near ctx p \<and> AllowedForPlayer ctx it p then enter_voter ctx autopass p r else r)"
  proof (cases "near ctx p \<and> AllowedForPlayer ctx it p")
    case True
    with Cons.prems show ?thesis by (simp add: enter_voter_fresh)
  next
    case False
    with Cons.prems(1) show ?thesis by (auto simp: fresh_roll_def)
  qed
  from Cons.IH [OF this] Cons.prems show ?case by simp
qed auto

definition group_refs_ok :: "guid list \<Rightarrow> bool" where
  "group_refs_ok ps \<longleftrightarrow> distinct ps \<and> 0 \<notin> set ps \<and> length ps < 255"

lemma collected_ok:
  assumes "group_refs_ok ps"
  shows "roll_ok (collect_votes ctx autopass it ps (new_roll g it))"
proof -
  have "fresh_roll [] (new_roll g it)"
    by (simp add: fresh_roll_def roll_ok_def new_roll_def votes_of_def votes_cast_def om_valid_def)
  from collect_votes_fresh [OF this, of ps ctx autopass it] assms show ?thesis
    by (auto simp: group_refs_ok_def fresh_roll_def)
qed

section \<open>The invariant of the open rolls\<close>

definition sys_ok :: "lootsys \<Rightarrow> bool" where
  "sys_ok s \<longleftrightarrow> (\<forall>r \<in> set (RollId s). roll_ok r \<and>
     (\<forall>l. r_loot r = Some l \<longrightarrow> rolled_item (itemSlot r) (Loots s l) \<noteq> None))"

text \<open>Nothing a roll does changes how many items its loot has.\<close>

definition shape :: "Loot \<Rightarrow> nat \<times> nat" where
  "shape l = (length (items l), length (quest_items l))"

lemma rolled_item_shape: "rolled_item slot l = None \<longleftrightarrow> unat slot \<ge> fst (shape l) + snd (shape l)"
  by (auto simp: rolled_item_def shape_def)

lemma shape_change [simp]: "shape (change_item slot f l) = shape l"
  by (simp add: change_item_def shape_def Let_def)

lemma shape_updates [simp]: "shape (l\<lparr>PlayersLooting := x\<rparr>) = shape l" "shape (l\<lparr>unlootedCount := u\<rparr>) = shape l"
  by (simp_all add: shape_def)

lemma shape_items [simp]: "shape (fst (take_item env r l)) = shape l" "shape (fst (give_item env r p v l)) = shape l"
    "shape (fst (disenchant_item env r p l)) = shape l"
  by (auto simp: take_item_def give_item_def disenchant_item_def act_eval NotifyItemRemoved_def Let_def split: option.split)

lemma shape_stages [simp]:
  "shape (snd (fst (need_stage env am x))) = shape (snd x)" "shape (snd (fst (greed_stage env am x))) = shape (snd x)"
  "shape (snd (fst (pass_stage env x))) = shape (snd x)"
  by (auto simp: need_stage_def greed_stage_def pass_stage_def act_eval on_roll_def on_loot_def split: prod.split)

lemma shape_roll_out [simp]: "shape (snd (fst (roll_out env am x))) = shape (snd x)"
  by (simp add: roll_out_eval Let_def)

lemma shape_count: "shape (Loots (fst (CountTheRoll env i am s)) l) = shape (Loots s l)"
proof (cases "r_loot (RollId s ! i)")
  case (Some k)
  obtain r' l' es where e: "roll_out env am (RollId s ! i, Loots s k) = ((r', l'), es)"
    by (metis prod.collapse)
  then have "shape l' = shape (Loots s k)" using shape_roll_out [of env am "(RollId s ! i, Loots s k)"] by simp
  with Some e show ?thesis by (simp add: CountTheRoll_def act_eval erase_roll_def)
qed (simp add: CountTheRoll_def act_eval erase_roll_def)

lemma set_erase: "set (take i xs @ drop (Suc i) xs) \<subseteq> set xs"
  using set_take_subset set_drop_subset by fastforce

lemma count_ok:
  assumes "\<And>r. r \<in> set (take i (RollId s) @ drop (Suc i) (RollId s)) \<Longrightarrow> roll_ok r \<and>
     (\<forall>l. r_loot r = Some l \<longrightarrow> rolled_item (itemSlot r) (Loots s l) \<noteq> None)"
  shows "sys_ok (fst (CountTheRoll env i am s))"
  using assms unfolding sys_ok_def rolls_after_count rolled_item_shape shape_count by blast

lemma sys_ok_count: "sys_ok s \<Longrightarrow> sys_ok (fst (CountTheRoll env i am s))"
  using set_erase [of i "RollId s"] by (intro count_ok) (auto simp: sys_ok_def)


text \<open>What the first index found stands for.\<close>

lemma first_index_Some:
  "first_index f xs = Some i \<Longrightarrow> i < length xs \<and> f (xs ! i) \<and> (\<forall>j < i. \<not> f (xs ! j))"
proof (induction xs arbitrary: i)
  case (Cons x xs)
  then show ?case by (auto split: if_splits simp: nth_Cons less_Suc_eq_0_disj split: nat.splits)
qed simp

lemma first_index_None: "first_index f xs = None \<longleftrightarrow> (\<forall>x \<in> set xs. \<not> f x)"
  by (induction xs) auto

lemma GetRoll_Some:
  "GetRoll g s = Some i \<Longrightarrow> i < length (RollId s) \<and> itemGUID (RollId s ! i) = g \<and> r_loot (RollId s ! i) \<noteq> None"
  by (auto simp: GetRoll_def isValid_def dest!: first_index_Some)

lemma cast_vote_keeps [simp]: "r_loot (fst (cast_vote env p c r)) = r_loot r" "itemSlot (fst (cast_vote env p c r)) = itemSlot r"
    "itemGUID (fst (cast_vote env p c r)) = itemGUID r" "keys (playerVote (fst (cast_vote env p c r))) = keys (playerVote r)"
    "totalPlayersRolling (fst (cast_vote env p c r)) = totalPlayersRolling r"
  by (auto simp: cast_vote_def act_eval set_vote_def)

lemma drop_voter_keeps [simp]: "r_loot (drop_voter p r) = r_loot r" "itemSlot (drop_voter p r) = itemSlot r"
    "itemGUID (drop_voter p r) = itemGUID r"
  by (auto simp: drop_voter_def Let_def split: option.split)

abbreviation ok_in :: "lootsys \<Rightarrow> Roll \<Rightarrow> bool" where
  "ok_in s r \<equiv> roll_ok r \<and> (\<forall>l. r_loot r = Some l \<longrightarrow> rolled_item (itemSlot r) (Loots s l) \<noteq> None)"

lemma sys_ok_update:
  assumes "sys_ok s" and "i < length (RollId s) \<Longrightarrow> roll_ok r" and "r_loot r = r_loot (RollId s ! i)"
    and "itemSlot r = itemSlot (RollId s ! i)"
  shows "sys_ok (s\<lparr>RollId := (RollId s)[i := r]\<rparr>)"
proof (cases "i < length (RollId s)")
  case True
  then have "ok_in s (RollId s ! i)" using assms(1) by (simp add: sys_ok_def)
  then have "ok_in s r" using assms True by simp
  with assms(1) show ?thesis using set_update_subset_insert [of "RollId s" i r] by (auto simp: sys_ok_def)
qed (use assms(1) in \<open>simp add: sys_ok_def list_update_beyond\<close>)

lemma take_drop_update: "take i (xs[i := x]) @ drop (Suc i) (xs[i := x]) = take i xs @ drop (Suc i) xs"
  by simp

lemma sys_ok_vote:
  assumes "sys_ok s"
  shows "sys_ok (fst (snd (CountRollVote env p g c s)))"
proof (cases "GetRoll g s")
  case None
  with assms show ?thesis by (simp add: CountRollVote_def)
next
  case (Some i)
  let ?r = "fst (cast_vote env p c (RollId s ! i))" let ?s = "s\<lparr>RollId := (RollId s)[i := ?r]\<rparr>"
  have "roll_ok (RollId s ! i)" using assms GetRoll_Some [OF Some] by (simp add: sys_ok_def)
  then have "\<not> all_voted ?r \<Longrightarrow> sys_ok ?s"
    using cast_vote_ok [of "RollId s ! i" env p c] by (intro sys_ok_update [OF assms]) (simp_all add: all_voted_def)
  moreover have "ok_in s r" if "r \<in> set (take i (RollId s) @ drop (Suc i) (RollId s))" for r
    using that assms set_erase [of i "RollId s"] unfolding sys_ok_def by blast
  then have "sys_ok (fst (CountTheRoll env i None ?s))" by (intro count_ok) simp
  ultimately show ?thesis
    using assms by (auto simp: CountRollVote_def Some Let_def split: prod.split option.split)
qed

lemma sys_ok_end: "sys_ok s \<Longrightarrow> sys_ok (fst (end_loop env l am i s))"
proof (induction env l am i s rule: end_loop.induct)
  case (1 env l am i s)
  then show ?case
    by (subst end_loop.simps) (auto simp: Let_def sys_ok_count)
qed

lemma sys_ok_leave: "sys_ok s \<Longrightarrow> sys_ok (fst (leave_rolls env p i s))"
proof (induction env p i s rule: leave_rolls.induct)
  case (1 env p i s)
  have "i < length (RollId s) \<Longrightarrow> roll_ok (RollId s ! i)" using 1(3) by (simp add: sys_ok_def)
  then have "sys_ok (s\<lparr>RollId := (RollId s)[i := drop_voter p (RollId s ! i)]\<rparr>)"
    using drop_voter_ok by (intro sys_ok_update [OF 1(3)]) simp_all
  then have "sys_ok (fst (snd (CountRollVote env p (itemGUID (drop_voter p (RollId s ! i))) MAX_ROLL_TYPE
      (s\<lparr>RollId := (RollId s)[i := drop_voter p (RollId s ! i)]\<rparr>))))" by (rule sys_ok_vote)
  with 1 show ?case
    by (subst leave_rolls.simps) (auto simp: Let_def)
qed


section \<open>Opening rolls keeps the invariant\<close>

lemma sys_ok_loots:
  assumes "sys_ok s" and "RollId t = RollId s" and "\<And>l. shape (Loots t l) = shape (Loots s l)"
  shows "sys_ok t"
  using assms by (simp add: sys_ok_def rolled_item_shape)

lemma sys_ok_append:
  assumes "sys_ok s" and "roll_ok r" and "r_loot r = Some l" and "unat (itemSlot r) < fst (shape (Loots s l)) + snd (shape (Loots s l))"
  shows "sys_ok (s\<lparr>RollId := RollId s @ [r]\<rparr>)"
  using assms by (auto simp: sys_ok_def rolled_item_shape)

lemma roll_ok_fields [simp]: "roll_ok (r\<lparr>r_loot := x, itemSlot := y, rollVoteMask := z\<rparr>) = roll_ok r"
    "roll_ok (r\<lparr>r_loot := x, itemSlot := y\<rparr>) = roll_ok r"
  by (simp_all add: roll_ok_def votes_of_def votes_cast_def)

lemma shape_block [simp]: "shape (Loots (block_item k n s) l) = shape (Loots s l)" "RollId (block_item k n s) = RollId s"
    "shape (Loots (block_quest_item k n s) l) = shape (Loots s l)" "RollId (block_quest_item k n s) = RollId s"
    "shape (Loots (mark_underthreshold k n s) l) = shape (Loots s l)" "RollId (mark_underthreshold k n s) = RollId s"
  by (simp_all add: block_item_def block_quest_item_def mark_underthreshold_def shape_def)

lemma byte_of_nat_le: "unat (of_nat k :: u8) \<le> k"
  by (simp add: unat_of_nat)

abbreviation rolling :: "nat \<Rightarrow> nat \<times> nat \<Rightarrow> lootsys \<Rightarrow> bool" where
  "rolling l nq s \<equiv> sys_ok s \<and> shape (Loots s l) = nq"

lemma opening_loots:
  "rolling l nq s \<Longrightarrow> RollId t = RollId s \<Longrightarrow> (\<And>l. shape (Loots t l) = shape (Loots s l)) \<Longrightarrow> rolling l nq t"
  using sys_ok_loots by metis

lemma opening_append:
  assumes "rolling l (n, q) s" and "roll_ok r" and "r_loot r = Some l" and "itemSlot r = of_nat k" and "k < n + q"
  shows "rolling l (n, q) (s\<lparr>RollId := RollId s @ [r]\<rparr>)"
  using assms byte_of_nat_le [of k] by (auto intro!: sys_ok_append [of s r l])

lemma take_guid_opening: "triple (rolling l nq) take_guid (rolling l nq) (\<lambda>_. True)"
  by (rule tripleT) (auto simp: take_guid_def Generate_def intro: sys_ok_loots)

text \<open>The statements that open one roll, common to the four loops.\<close>

lemma open_roll_triple:
  assumes "roll_ok r'" and "r_loot r' = Some l" and "itemSlot r' = of_nat k" and "k < n + q"
    and "\<And>s. RollId (f s) = RollId s" and "\<And>s l. shape (Loots (f s) l) = shape (Loots s l)"
    and "\<And>x. x \<in> set mid \<Longrightarrow> triple (rolling l (n, q)) x (rolling l (n, q)) (\<lambda>_. True)"
  shows "triple (rolling l (n, q))
    (acts [take_guid, whenever b (acts (upd f # mid @ [upd (\<lambda>s. s\<lparr>RollId := RollId s @ [r']\<rparr>), emit g])) ])
    (rolling l (n, q)) (\<lambda>_. True)"
proof (rule triple_acts_inv)
  let ?P = "rolling l (n, q)"
  have f: "triple ?P (upd f) ?P (\<lambda>_. True)"
    using assms(5,6) by (intro triple_upd) (rule opening_loots, assumption, simp_all)
  have a: "triple ?P (upd (\<lambda>s. s\<lparr>RollId := RollId s @ [r']\<rparr>)) ?P (\<lambda>_. True)"
    using assms(1-4) by (intro triple_upd opening_append)
  have e: "triple ?P (emit g) ?P (\<lambda>_. True)" by (rule triple_emit) (simp add: list_all_iff)
  have w: "triple ?P (whenever b (acts (upd f # mid @ [upd (\<lambda>s. s\<lparr>RollId := RollId s @ [r']\<rparr>), emit g]))) ?P (\<lambda>_. True)"
    using f a e assms(7)
    by (intro triple_cond triple_pre [OF triple_acts_inv [of _ ?P]] triple_pre [OF triple_skip]) auto
  fix x
  assume "x \<in> set [take_guid, whenever b (acts (upd f # mid @ [upd (\<lambda>s. s\<lparr>RollId := RollId s @ [r']\<rparr>), emit g])) ]"
  with w take_guid_opening show "triple ?P x ?P (\<lambda>_. True)" by auto
qed


lemma emit_keeps: "triple P (emit g) P (\<lambda>_. True)"
  by (rule triple_emit) (simp add: list_all_iff)

lemma open_roll1:
  assumes "roll_ok r'" and "r_loot r' = Some l" and "itemSlot r' = of_nat k" and "k < n + q"
    and "\<And>s. RollId (f s) = RollId s" and "\<And>s l. shape (Loots (f s) l) = shape (Loots s l)"
  shows "triple (rolling l (n, q))
    (acts [take_guid, whenever b (acts [upd f, emit h, upd (\<lambda>s. s\<lparr>RollId := RollId s @ [r']\<rparr>), emit g])])
    (rolling l (n, q)) (\<lambda>_. True)"
  using open_roll_triple [where mid = "[emit h]", OF assms, of b g] by (simp add: emit_keeps)

lemma open_roll2:
  assumes "roll_ok r'" and "r_loot r' = Some l" and "itemSlot r' = of_nat k" and "k < n + q"
    and "\<And>s. RollId (f s) = RollId s" and "\<And>s l. shape (Loots (f s) l) = shape (Loots s l)"
  shows "triple (rolling l (n, q))
    (acts [take_guid, whenever b (acts [upd f, emit h, emit h', upd (\<lambda>s. s\<lparr>RollId := RollId s @ [r']\<rparr>), emit g])])
    (rolling l (n, q)) (\<lambda>_. True)"
proof -
  have "triple (rolling l (n, q)) x (rolling l (n, q)) (\<lambda>_. True)" if "x \<in> set [emit h, emit h']" for x
    using that by (auto intro: emit_keeps)
  from open_roll_triple [where mid = "[emit h, emit h']", OF assms this, of b g] show ?thesis by simp
qed

lemma triple_any: "(\<And>v. triple P (k v) Q E) \<Longrightarrow> triple P (load r k) Q E"
  by (simp add: triple_def act_eval)

lemma triple_if: "(c \<Longrightarrow> triple P x Q E) \<Longrightarrow> (\<not> c \<Longrightarrow> triple P y Q E) \<Longrightarrow> triple P (if c then x else y) Q E"
  by simp

lemma triple_opt:
  "triple P n Q E \<Longrightarrow> (\<And>x. triple P (f x) Q E) \<Longrightarrow> triple P (case v of None \<Rightarrow> n | Some x \<Rightarrow> f x) Q E"
  by (cases v) simp_all

lemma marks_keep: "triple (rolling l nq) (upd (mark_underthreshold l k)) (rolling l nq) (\<lambda>_. True)"
  by (intro triple_upd) (rule opening_loots, assumption, simp_all)

lemma open_items:
  assumes "group_refs_ok (refs ctx)"
  shows "k < n \<Longrightarrow> triple (rolling l (n, q)) (group_item env ctx l k) (rolling l (n, q)) (\<lambda>_. True)"
    and "k < q \<Longrightarrow> triple (rolling l (n, q)) (group_quest_item env ctx l n k) (rolling l (n, q)) (\<lambda>_. True)"
    and "k < n \<Longrightarrow> triple (rolling l (n, q)) (need_item env ctx l k) (rolling l (n, q)) (\<lambda>_. True)"
    and "k < q \<Longrightarrow> triple (rolling l (n, q)) (need_quest_item env ctx l n k) (rolling l (n, q)) (\<lambda>_. True)"
  unfolding group_item_def group_quest_item_def need_item_def need_quest_item_def Let_def
  by (intro triple_any triple_if triple_opt triple_skip marks_keep emit_keeps open_roll1 [where k = k] open_roll2 [where k = k]
      open_roll1 [where k = "n + k"]; simp add: collected_ok [OF assms])+

lemma loot_loops:
  assumes "group_refs_ok (refs ctx)" and "sys_ok s"
  shows "sys_ok (fst (GroupLoot env ctx l s))" and "sys_ok (fst (NeedBeforeGreed env ctx l s))"
proof -
  obtain n q where nq: "shape (Loots s l) = (n, q)" by (cases "shape (Loots s l)")
  then have len: "length (items (Loots s l)) = n" "length (quest_items (Loots s l)) = q" by (simp_all add: shape_def)
  have p: "rolling l (n, q) s" using assms(2) nq by simp
  have "triple (rolling l (n, q)) (acts [each (group_item env ctx l) [0..<n], each (group_quest_item env ctx l n) [0..<q]])
      (rolling l (n, q)) (\<lambda>_. True)"
    and "triple (rolling l (n, q)) (acts [each (need_item env ctx l) [0..<n], each (need_quest_item env ctx l n) [0..<q]])
      (rolling l (n, q)) (\<lambda>_. True)"
    using open_items [OF assms(1)] by (auto intro!: triple_acts_inv triple_each)
  from this [THEN triple_state, OF p]
  show "sys_ok (fst (GroupLoot env ctx l s))" "sys_ok (fst (NeedBeforeGreed env ctx l s))"
    by (simp_all add: GroupLoot_def NeedBeforeGreed_def load_def len)
qed


lemma sys_ok_master: "sys_ok s \<Longrightarrow> sys_ok (fst (MasterLoot ctx l s))"
  by (rule sys_ok_loots [of s]) (auto simp: MasterLoot_def act_eval master_marks_def shape_def)

lemma sys_ok_clear: "sys_ok s \<Longrightarrow> sys_ok (clear_loot k s)"
  by (force simp: sys_ok_def clear_loot_def roll_ok_def votes_of_def votes_cast_def)

section \<open>The operations of a group on its rolls\<close>

text \<open>Besides the operations of the group: a loot is cleared, and other code writes to a loot, which may
  change the items freely while no roll is open for them and keeps their number otherwise.\<close>

datatype loot_op =
    Op_Group rollenv lootctx nat
  | Op_Need rollenv lootctx nat
  | Op_Master lootctx nat
  | Op_Vote rollenv guid guid u8
  | Op_End rollenv nat "nat option"
  | Op_Leave rollenv guid
  | Op_Clear nat
  | Op_Write nat Loot

fun run_loot_op :: "loot_op \<Rightarrow> (lootsys, reff) act" where
  "run_loot_op (Op_Group env ctx l) s = GroupLoot env ctx l s"
| "run_loot_op (Op_Need env ctx l) s = NeedBeforeGreed env ctx l s"
| "run_loot_op (Op_Master ctx l) s = MasterLoot ctx l s"
| "run_loot_op (Op_Vote env p g c) s = snd (CountRollVote env p g c s)"
| "run_loot_op (Op_End env l am) s = EndRoll env l am s"
| "run_loot_op (Op_Leave env p) s = leave_rolls env p 0 s"
| "run_loot_op (Op_Clear l) s = (clear_loot l s, [])"
| "run_loot_op (Op_Write l x) s = (s\<lparr>Loots := (Loots s)(l := x)\<rparr>, [])"

fun loot_op_ok :: "loot_op \<Rightarrow> lootsys \<Rightarrow> bool" where
  "loot_op_ok (Op_Group env ctx l) s = group_refs_ok (refs ctx)"
| "loot_op_ok (Op_Need env ctx l) s = group_refs_ok (refs ctx)"
| "loot_op_ok (Op_Write l x) s = ((\<forall>r \<in> set (RollId s). r_loot r \<noteq> Some l) \<or> shape x = shape (Loots s l))"
| "loot_op_ok _ s = True"

inductive loot_step :: "lootsys \<Rightarrow> lootsys \<Rightarrow> bool" where
  "loot_op_ok x s \<Longrightarrow> loot_step s (fst (run_loot_op x s))"

inductive_cases loot_stepE: "loot_step s t"

lemma sys_ok_op: "sys_ok s \<Longrightarrow> loot_op_ok x s \<Longrightarrow> sys_ok (fst (run_loot_op x s))"
proof (cases x)
  case (Op_Write l y)
  assume "sys_ok s" "loot_op_ok x s"
  with Op_Write show ?thesis by (auto simp: sys_ok_def rolled_item_shape)
qed (simp_all add: loot_loops sys_ok_master sys_ok_vote EndRoll_def sys_ok_end sys_ok_leave sys_ok_clear)

interpretation rolls: component "\<lambda>s. RollId s = []" loot_step sys_ok
proof unfold_locales
  show "sys_ok s" if "RollId s = []" for s using that by (simp add: sys_ok_def)
  show "sys_ok t" if "sys_ok s" and "loot_step s t" for s t
    using that(2,1) by (elim loot_stepE) (simp add: sys_ok_op)
qed

end
