(* ===== verification/LootProps.thy ===== *)
theory LootProps
  imports LootInv
begin

text \<open>
  What the rolls of a group promise: who takes part, when a vote ends the roll, who gets the item,
  what the timer and a leaving member do; and what one member can do alone.
\<close>

text \<open>A roll that takes votes: the group finds it under its item, it is valid and its loot has regular items.\<close>

definition takes_votes :: "guid \<Rightarrow> lootsys \<Rightarrow> nat \<Rightarrow> bool" where
  "takes_votes g s i \<longleftrightarrow> GetRoll g s = Some i \<and>
     (\<exists>l. r_loot (RollId s ! i) = Some l \<and> items (Loots s l) \<noteq> [])"

section \<open>A small group\<close>

text \<open>Three members and a loot with one item, for the examples: all are on one map, their bags have room,
  member \<open>p\<close> rolls \<open>10 * p\<close>.\<close>

definition ex_item :: LootItem where
  "ex_item = \<lparr>li_itemid = 19019, li_randomSuffix = 0, li_randomPropertyId = 0, allowedGUIDs = [],
     rollWinnerGUID = 0, li_count = 1, is_looted = False, is_blocked = True, freeforall = False,
     is_underthreshold = False, follow_loot_rules = False\<rparr>"

definition ex_loot :: Loot where
  "ex_loot = \<lparr>items = [ex_item], quest_items = [], gold = 0, unlootedCount = 1, PlayersLooting = [],
     source_chest = None\<rparr>"

definition ex_env :: rollenv where
  "ex_env = \<lparr>connected = (\<lambda>_. True), in_map = (\<lambda>_. Some 0), dice = (\<lambda>_ p. 10 * ucast p),
     can_store = (\<lambda>_ _. 0), item_made = (\<lambda>_ _. True),
     item_template = (\<lambda>_. Some \<lparr>Quality = 5, DisenchantID = 0, RequiredDisenchantSkill = 0, Flags2 = 0\<rparr>),
     disenchant_loot = (\<lambda>_ _. [])\<rparr>"

definition ex_roll :: "RollVote \<Rightarrow> RollVote \<Rightarrow> u8 \<Rightarrow> Roll" where
  "ex_roll v w n = (new_roll 500 ex_item)\<lparr>playerVote := [(1, v), (2, w), (3, NOT_EMITED_YET)],
     totalPlayersRolling := 3, totalNeed := n, r_loot := Some 0\<rparr>"

definition ex_sys :: "Roll \<Rightarrow> lootsys" where
  "ex_sys r = \<lparr>RollId = [r], Loots = (\<lambda>_. ex_loot), item_counter = 501\<rparr>"

definition ex_ctx :: lootctx where
  "ex_ctx = \<lparr>refs = [2, 1, 3], near = (\<lambda>p. p \<noteq> 3), AllowedForPlayer = (\<lambda>_ _. True),
     PassOnGroupLoot = (\<lambda>p. p = 1), CanRollForItemInLFG = (\<lambda>_ _. True), ctx_threshold = 2,
     ctx_enchanting = 0, ctx_map = 0, ctx_timer = None, looter_in_world = (\<lambda>_. True)\<rparr>"

lemmas ex_defs = ex_item_def ex_loot_def ex_env_def ex_roll_def ex_sys_def new_roll_def

lemma ex_ok: "sys_ok (ex_sys (ex_roll VOTE_NEED VOTE_NEED 2))"
    "sys_ok (ex_sys (ex_roll NOT_EMITED_YET NOT_EMITED_YET 0))"
  by (simp_all add: ex_defs sys_ok_def roll_ok_def om_valid_def votes_of_def votes_cast_def rolled_item_def)

lemma ex_takes: "takes_votes 500 (ex_sys (ex_roll NOT_EMITED_YET NOT_EMITED_YET 0)) 0"
  by (simp add: ex_defs takes_votes_def GetRoll_def isValid_def)

section \<open>The end of a roll\<close>

text \<open>C23: counting a roll removes it, changes its loot only, gives the item to the winner (the first
  needer with the highest number among those who may roll, else the first of greed and disenchant)
  or keeps it for him when his bags are full, or opens it to everyone when nobody wants it, and never
  accesses an item that does not exist.\<close>

theorem roll_outcome:
  assumes "sys_ok s" and "i < length (RollId s)" and "RollId s ! i = r" and "r_loot r = Some l"
    and "dice_thrown env r" and "item_template env (itemid r) = Some tp" and "dispute_open r"
  shows "RollId (fst (CountTheRoll env i am s)) = take i (RollId s) @ drop (Suc i) (RollId s) \<and>
    Loots (fst (CountTheRoll env i am s)) = (Loots s)(l := loot_after env r (roll_winner env am r) (Loots s l)) \<and>
    given (snd (CountTheRoll env i am s)) = given_to env r (roll_winner env am r) \<and>
    Undefined \<notin> set (snd (CountTheRoll env i am s))"
proof -
  have ok: "roll_ok r" "rolled_item (itemSlot r) (Loots s l) \<noteq> None"
    using assms(1-4) nth_mem [of i "RollId s"] unfolding sys_ok_def by blast+
  then obtain it where it: "rolled_item (itemSlot r) (Loots s l) = Some it" by blast
  obtain r' l' es where e: "roll_out env am (r, Loots s l) = ((r', l'), es)" by (metis prod.collapse)
  from roll_out_result [OF ok(1) assms(5) it assms(6,7), of am]
  have "l' = loot_after env r (roll_winner env am r) (Loots s l)" "given es = given_to env r (roll_winner env am r)"
    "Undefined \<notin> set es" by (simp_all add: e)
  with e show ?thesis by (simp add: CountTheRoll_def act_eval assms(3,4) erase_roll_def)
qed

theorem roll_outcome_witness:
  "given (snd (CountTheRoll ex_env 0 None (ex_sys (ex_roll VOTE_NEED VOTE_NEED 2)))) = [(2, 19019)]"
proof -
  let ?r = "ex_roll VOTE_NEED VOTE_NEED 2"
  have "dice_thrown ex_env ?r" "dispute_open ?r" by (simp_all add: ex_defs dice_thrown_def dispute_open_def)
  with roll_outcome [OF ex_ok(1), of 0 ?r 0 ex_env _ None] show ?thesis
    by (simp add: ex_defs given_to_def roll_winner_def dicers_def may_roll_def top_roll_def)
qed

text \<open>Who wins: nobody may outroll him, and greed wins only when no needer may roll.\<close>

lemma winner_best:
  assumes "roll_winner env am r = Some (p, v)"
  shows "v = VOTE_NEED \<or> greedy v \<and> dicers env am (\<lambda>v. v = VOTE_NEED) r = []"
    "\<forall>x \<in> set (dicers env am (if v = VOTE_NEED then \<lambda>v. v = VOTE_NEED else greedy) r).
       dice env (itemGUID r) (fst x) \<le> dice env (itemGUID r) p"
proof -
  let ?N = "dicers env am (\<lambda>v. v = VOTE_NEED) r"
  consider "top_roll (dice env (itemGUID r)) ?N = Some (p, v)"
    | "?N = []" "top_roll (dice env (itemGUID r)) (dicers env am greedy r) = Some (p, v)"
    using assms by (auto simp: roll_winner_def Let_def top_roll_None split: option.splits)
  then have *: "(v = VOTE_NEED \<or> greedy v \<and> ?N = []) \<and>
      (\<forall>x \<in> set (dicers env am (if v = VOTE_NEED then \<lambda>v. v = VOTE_NEED else greedy) r).
         dice env (itemGUID r) (fst x) \<le> dice env (itemGUID r) p)"
  proof cases
    case 1
    from top_roll_mem [OF this] show ?thesis by (auto simp: dicers_def)
  next
    case 2
    from top_roll_mem [OF this(2)] 2(1) show ?thesis by (auto simp: dicers_def)
  qed
  then show "v = VOTE_NEED \<or> greedy v \<and> ?N = []"
    "\<forall>x \<in> set (dicers env am (if v = VOTE_NEED then \<lambda>v. v = VOTE_NEED else greedy) r).
       dice env (itemGUID r) (fst x) \<le> dice env (itemGUID r) p" by blast+
qed

section \<open>The timer\<close>

lemma end_loop_rolls:
  "\<forall>r \<in> set (take i (RollId s)). r_loot r \<noteq> Some l \<Longrightarrow>
     RollId (fst (end_loop env l am i s)) = filter (\<lambda>r. r_loot r \<noteq> Some l) (RollId s) \<and>
     (\<forall>k. k \<noteq> l \<longrightarrow> Loots (fst (end_loop env l am i s)) k = Loots s k)"
proof (induction env l am i s rule: end_loop.induct)
  case (1 env l am i s)
  show ?case
  proof (cases "i \<ge> length (RollId s)")
    case True
    with 1(3) show ?thesis by (subst (1 2) end_loop.simps) simp
  next
    case False
    then have i: "take (Suc i) (RollId s) = take i (RollId s) @ [RollId s ! i]"
      "RollId s = take i (RollId s) @ RollId s ! i # drop (Suc i) (RollId s)"
      by (simp_all add: take_Suc_conv_app_nth id_take_nth_drop)
    show ?thesis
    proof (cases "r_loot (RollId s ! i) = Some l")
      case True
      have other: "Loots (fst (CountTheRoll env i am s)) k = Loots s k" if "k \<noteq> l" for k
        using that True by (simp add: CountTheRoll_def act_eval erase_roll_def split: prod.split)
      have "filter (\<lambda>r. r_loot r \<noteq> Some l) (RollId s) = filter (\<lambda>r. r_loot r \<noteq> Some l)
          (take i (RollId s) @ RollId s ! i # drop (Suc i) (RollId s))" using i(2) by simp
      also have "\<dots> = filter (\<lambda>r. r_loot r \<noteq> Some l) (RollId (fst (CountTheRoll env i am s)))"
        using True by (simp add: rolls_after_count)
      finally show ?thesis
        using 1(1) [OF False True refl] False True other by (subst (1 2) end_loop.simps) (simp add: Let_def)
    next
      case other: False
      with 1(2) [OF False other] 1(3) False i(1) show ?thesis by (subst (1 2) end_loop.simps) simp
    qed
  qed
qed

text \<open>C26: when the timer of a loot expires, all its rolls end, the rolls for other loots stay as they are
  and in their order, and no other loot changes, for all the restarts of the loop.\<close>

theorem timer_ends_rolls:
  "RollId (fst (EndRoll env l am s)) = [r \<leftarrow> RollId s. r_loot r \<noteq> Some l] \<and>
   Loots (fst (EndRoll env l am s)) = (Loots s)(l := Loots (fst (EndRoll env l am s)) l)"
  using end_loop_rolls [of 0 s l env am] by (auto simp: EndRoll_def)

section \<open>A player leaves\<close>

lemma empty_vote:
  "\<not> fst (CountRollVote env p g MAX_ROLL_TYPE s) \<Longrightarrow> CountRollVote env p g MAX_ROLL_TYPE s = (False, s, [])"
  "set (RollId (fst (snd (CountRollVote env p g MAX_ROLL_TYPE s)))) \<subseteq> set (RollId s)"
  using set_erase [where xs = "RollId s"]
  by (auto simp: CountRollVote_def cast_nothing list_update_self Let_def rolls_after_count
      split: option.split option.split_asm prod.split prod.split_asm if_splits)

text \<open>The rolls of a player who leaves: without him, the others as they were.\<close>

lemma leave_rolls_result:
  "\<forall>r \<in> set (take i (RollId s)). \<not> has_key p (playerVote r) \<Longrightarrow>
     \<forall>r \<in> set (RollId (fst (leave_rolls env p i s))). \<not> has_key p (playerVote r) \<and>
        (\<exists>r0 \<in> set (RollId s). r = drop_voter p r0)"
proof (induction env p i s rule: leave_rolls.induct)
  case (1 env p i s)
  have none: "drop_voter p r = r" if "\<not> has_key p (playerVote r)" for r
    using that by (simp add: has_key_def drop_voter_def)
  show ?case
  proof (cases "i \<ge> length (RollId s)")
    case True
    with 1(3) none show ?thesis by (subst leave_rolls.simps) (simp add: rev_bexI)
  next
    case False
    then have i: "take (Suc i) (RollId s) = take i (RollId s) @ [RollId s ! i]"
      by (simp add: take_Suc_conv_app_nth)
    show ?thesis
    proof (cases "has_key p (playerVote (RollId s ! i))")
      case no: False
      with 1(1) [OF False] 1(3) False i show ?thesis by (subst leave_rolls.simps) simp
    next
      case True
      let ?r = "drop_voter p (RollId s ! i)" let ?s = "s\<lparr>RollId := (RollId s)[i := ?r]\<rparr>"
      let ?x = "CountRollVote env p (itemGUID ?r) MAX_ROLL_TYPE ?s"
      have gone: "\<not> has_key p (playerVote ?r)" by (simp add: votes_after_drop has_key_erase)
      have "\<forall>r \<in> set (take (if fst ?x then 0 else Suc i) (RollId (fst (snd ?x)))). \<not> has_key p (playerVote r)"
        using 1(3) i gone False empty_vote(1) [of env p "itemGUID ?r" ?s]
        by (auto simp: take_Suc_conv_app_nth)
      from 1(2) [OF False _ refl refl this] True
      have all: "\<forall>r \<in> set (RollId (fst (leave_rolls env p (if fst ?x then 0 else Suc i) (fst (snd ?x))))).
          \<not> has_key p (playerVote r) \<and> (\<exists>r0 \<in> set (RollId (fst (snd ?x))). r = drop_voter p r0)" by simp
      have "set (RollId (fst (snd ?x))) \<subseteq> insert ?r (set (RollId s))"
        using empty_vote(2) [of env p "itemGUID ?r" ?s] set_update_subset_insert [of "RollId s" i ?r] by auto
      moreover have "drop_voter p ?r = ?r" using gone by (rule none)
      ultimately have "\<exists>r0 \<in> set (RollId s). drop_voter p r1 = drop_voter p r0"
        if "r1 \<in> set (RollId (fst (snd ?x)))" for r1
      proof -
        from that \<open>set (RollId (fst (snd ?x))) \<subseteq> _\<close> consider "r1 = ?r" | "r1 \<in> set (RollId s)" by blast
        then show ?thesis
        proof cases
          case 1
          with False \<open>drop_voter p ?r = ?r\<close> show ?thesis by (intro bexI [of _ "RollId s ! i"]) simp_all
        qed blast
      qed
      moreover have "leave_rolls env p i s = (let y = leave_rolls env p (if fst ?x then 0 else Suc i) (fst (snd ?x))
          in (fst y, snd (snd ?x) @ snd y))"
        using True False by (subst leave_rolls.simps) (simp add: Let_def)
      ultimately show ?thesis using all by (fastforce simp: Let_def)
    qed
  qed
qed

text \<open>C27: a player who leaves the group is taken out of every roll of the group: no roll has a vote of his
  afterwards, and each remaining roll is one that was open, less his vote and its count.\<close>

theorem leaver_out_of_rolls:
  assumes "r \<in> set (RollId (fst (leave_rolls env p 0 s)))"
  shows "\<not> has_key p (playerVote r) \<and> (\<exists>r0 \<in> set (RollId s). r = drop_voter p r0)"
  using assms leave_rolls_result [of 0 s p env] by simp

theorem leaver_out_of_rolls_witness:
  "\<not> has_key 1 (playerVote (drop_voter 1 (ex_roll VOTE_NEED VOTE_NEED 2)))"
proof -
  let ?r = "ex_roll VOTE_NEED VOTE_NEED 2" let ?s = "(ex_sys ?r)\<lparr>RollId := [ex_roll NOT_EMITED_YET NOT_EMITED_YET 0]\<rparr>"
  have "drop_voter 1 (ex_roll NOT_EMITED_YET NOT_EMITED_YET 0) \<in> set (RollId (fst (leave_rolls ex_env 1 0 ?s)))"
    by (simp add: leave_rolls.simps CountRollVote_def ex_defs has_key_def drop_voter_def GetRoll_def isValid_def
        om_erase_def cast_nothing all_voted_def votes_cast_def Let_def)
  from leaver_out_of_rolls [OF this] show ?thesis
    by (simp add: ex_defs has_key_def votes_after_drop om_erase_def)
qed

section \<open>Who takes part\<close>

lemma enter_voter_votes: "playerVote (enter_voter ctx ap p r) =
    om_assign p (if ap \<and> PassOnGroupLoot ctx p then VOTE_PASS else NOT_EMITED_YET) (playerVote r)"
  by (simp add: enter_voter_def enter_vote_def Let_def)

lemma collect_votes_map:
  "map_of (playerVote (collect_votes ctx ap it ps r)) q =
     (if q \<in> set ps \<and> near ctx q \<and> AllowedForPlayer ctx it q
      then Some (if ap \<and> PassOnGroupLoot ctx q then VOTE_PASS else NOT_EMITED_YET) else map_of (playerVote r) q)"
  by (induction ps arbitrary: r) (auto simp: enter_voter_votes map_of_om_assign)

text \<open>A roll is opened for exactly the members that are near and may have the item, none has voted but
  those who pass on group loot, and the totals count them.\<close>

theorem who_rolls:
  assumes "group_refs_ok ps"
  shows "map_of (playerVote (collect_votes ctx ap it ps (new_roll g it))) q =
      (if q \<in> set ps \<and> near ctx q \<and> AllowedForPlayer ctx it q
       then Some (if ap \<and> PassOnGroupLoot ctx q then VOTE_PASS else NOT_EMITED_YET) else None) \<and>
    unat (totalPlayersRolling (collect_votes ctx ap it ps (new_roll g it))) =
      length (filter (\<lambda>q. near ctx q \<and> AllowedForPlayer ctx it q) ps)"
proof -
  let ?r = "collect_votes ctx ap it ps (new_roll g it)"
  have ok: "roll_ok ?r" by (rule collected_ok [OF assms])
  have m: "map_of (playerVote ?r) q = (if q \<in> set ps \<and> near ctx q \<and> AllowedForPlayer ctx it q
       then Some (if ap \<and> PassOnGroupLoot ctx q then VOTE_PASS else NOT_EMITED_YET) else None)" for q
    by (simp add: collect_votes_map new_roll_def)
  have "set (keys (playerVote ?r)) = dom (map_of (playerVote ?r))" by (simp add: dom_map_of_conv_image_fst)
  also have "\<dots> = set (filter (\<lambda>q. near ctx q \<and> AllowedForPlayer ctx it q) ps)"
    by (auto simp: dom_def m split: if_splits)
  finally have "length (playerVote ?r) = length (filter (\<lambda>q. near ctx q \<and> AllowedForPlayer ctx it q) ps)"
    using distinct_card [OF roll_ok_distinct [OF ok]] distinct_card [of "filter (\<lambda>q. near ctx q \<and> AllowedForPlayer ctx it q) ps"]
      assms by (simp add: group_refs_ok_def del: set_map set_filter)
  with m ok show ?thesis by (simp add: roll_ok_def)
qed

theorem who_rolls_witness:
  "map_of (playerVote (collect_votes ex_ctx True ex_item [2, 1, 3] (new_roll 500 ex_item))) 1 = Some VOTE_PASS"
  by (subst who_rolls [THEN conjunct1]) (simp_all add: group_refs_ok_def ex_ctx_def)

section \<open>Votes\<close>

definition voted :: "u8 \<Rightarrow> RollVote" where
  "voted c = (if c = ROLL_PASS then VOTE_PASS else if c = ROLL_NEED then VOTE_NEED
     else if c = ROLL_GREED then VOTE_GREED else VOTE_DISENCHANT)"

lemma choice_cases:
  "c < MAX_ROLL_TYPE \<Longrightarrow> c = ROLL_PASS \<or> c = ROLL_NEED \<or> c = ROLL_GREED \<or> c = ROLL_DISENCHANT"
proof -
  assume "c < MAX_ROLL_TYPE"
  then have "unat c < 4" by (simp add: roll_consts word_less_nat_alt)
  then have "unat c = 0 \<or> unat c = 1 \<or> unat c = 2 \<or> unat c = 3" by linarith
  then show ?thesis by (simp add: roll_consts word_unat_eq_iff)
qed

lemma cast_vote_counts:
  assumes "roll_ok r" and "has_key p (playerVote r)" and "c < MAX_ROLL_TYPE"
  shows "votes_cast (fst (cast_vote env p c r)) = Suc (votes_cast r)"
    "playerVote (fst (cast_vote env p c r)) = om_modify p (\<lambda>_. voted c) (playerVote r)"
proof -
  have inc: "unat (totalPass r + 1) = Suc (unat (totalPass r))" "unat (totalNeed r + 1) = Suc (unat (totalNeed r))"
    "unat (totalGreed r + 1) = Suc (unat (totalGreed r))"
    using assms(1) by (auto simp: roll_ok_def votes_cast_def intro!: byte_inc)
  from choice_cases [OF assms(3)]
  show "votes_cast (fst (cast_vote env p c r)) = Suc (votes_cast r)"
    "playerVote (fst (cast_vote env p c r)) = om_modify p (\<lambda>_. voted c) (playerVote r)"
    by (elim disjE; simp add: cast_vote_def act_eval set_vote_def votes_cast_def voted_def roll_consts inc)+
qed

lemma CountRollVote_eval:
  assumes "sys_ok s" and "takes_votes g s i" and "has_key p (playerVote (RollId s ! i))" and "c < MAX_ROLL_TYPE"
  shows "CountRollVote env p g c s =
     (let r = RollId s ! i; x = cast_vote env p c r; s' = s\<lparr>RollId := (RollId s)[i := fst x]\<rparr> in
      if Suc (votes_cast r) \<ge> unat (totalPlayersRolling r)
      then (True, fst (CountTheRoll env i None s'), snd x @ snd (CountTheRoll env i None s'))
      else (False, s', snd x))"
proof -
  obtain l where i: "GetRoll g s = Some i" "r_loot (RollId s ! i) = Some l" "items (Loots s l) \<noteq> []"
    using assms(2) by (auto simp: takes_votes_def)
  have "roll_ok (RollId s ! i)" using assms(1) GetRoll_Some [OF i(1)] by (simp add: sys_ok_def)
  note v = cast_vote_counts [OF this assms(3,4), of env]
  show ?thesis using assms(3) i v by (simp add: CountRollVote_def Let_def all_voted_def split_beta)
qed

text \<open>C24: a vote is recorded and counted; the roll ends with the very vote that brings the number of votes
  to the number of players, and is left open by any other.\<close>

theorem vote_counts:
  assumes "sys_ok s" and "takes_votes g s i" and "has_key p (playerVote (RollId s ! i))" and "c < MAX_ROLL_TYPE"
  shows "(fst (CountRollVote env p g c s) \<longleftrightarrow>
      Suc (votes_cast (RollId s ! i)) \<ge> unat (totalPlayersRolling (RollId s ! i))) \<and>
    (if fst (CountRollVote env p g c s)
     then RollId (fst (snd (CountRollVote env p g c s))) = take i (RollId s) @ drop (Suc i) (RollId s)
     else Loots (fst (snd (CountRollVote env p g c s))) = Loots s \<and>
       (\<exists>r'. RollId (fst (snd (CountRollVote env p g c s))) = (RollId s)[i := r'] \<and>
          playerVote r' = om_modify p (\<lambda>_. voted c) (playerVote (RollId s ! i)) \<and>
          votes_cast r' = Suc (votes_cast (RollId s ! i))))"
proof -
  have "roll_ok (RollId s ! i)" using assms(1,2) by (auto simp: sys_ok_def takes_votes_def dest: GetRoll_Some)
  note v = cast_vote_counts [OF this assms(3,4), of env]
  show ?thesis unfolding CountRollVote_eval [OF assms] using v by (auto simp: Let_def rolls_after_count)
qed

theorem vote_counts_witness:
  "\<not> fst (CountRollVote ex_env 1 500 ROLL_NEED (ex_sys (ex_roll NOT_EMITED_YET NOT_EMITED_YET 0)))"
  using vote_counts [OF ex_ok(2) ex_takes, of 1 ROLL_NEED ex_env]
  by (simp add: ex_defs has_key_def votes_cast_def roll_consts)

text \<open>One player may vote again and again.\<close>

fun need_votes :: "rollenv \<Rightarrow> guid \<Rightarrow> guid \<Rightarrow> nat \<Rightarrow> (lootsys, reff) act" where
  "need_votes env p g 0 s = (s, [])"
| "need_votes env p g (Suc n) s =
     (let x = CountRollVote env p g ROLL_NEED s; y = need_votes env p g n (fst (snd x))
      in (fst y, snd (snd x) @ snd y))"

lemma om_modify_twice: "om_modify p (\<lambda>_. v) (om_modify p (\<lambda>_. v) m) = om_modify p (\<lambda>_. v) m"
  by (induction m) (auto simp: om_modify_def)

text \<open>The roll after its only voter so far, \<open>p\<close>, voted need; the rest has voted nothing.\<close>

definition only_needer :: "guid \<Rightarrow> Roll \<Rightarrow> bool" where
  "only_needer p r \<longleftrightarrow> (\<forall>x \<in> set (playerVote r). snd x = (if fst x = p then VOTE_NEED else NOT_EMITED_YET))"

lemma only_needer_wins:
  assumes "roll_ok r" and "only_needer p r" and "has_key p (playerVote r)" and "FindPlayer env p"
  shows "roll_winner env None r = Some (p, VOTE_NEED)"
proof -
  have "filter (\<lambda>x. snd x = VOTE_NEED) m = (if p \<in> set (keys m) then [(p, VOTE_NEED)] else [])"
    if "distinct (keys m)" "\<forall>x \<in> set m. snd x = (if fst x = p then VOTE_NEED else NOT_EMITED_YET)"
    for m :: "(guid \<times> RollVote) list"
    using that by (induction m) auto
  from this [OF roll_ok_distinct [OF assms(1)]]
  have "filter (\<lambda>x. snd x = VOTE_NEED) (playerVote r) = [(p, VOTE_NEED)]"
    using assms(2,3) by (simp add: only_needer_def has_key_iff)
  then have "filter (\<lambda>x. may_roll env None (fst x)) (filter (\<lambda>x. snd x = VOTE_NEED) (playerVote r)) = [(p, VOTE_NEED)]"
    using assms(4) by (auto simp: may_roll_def FindPlayer_def)
  then have "dicers env None (\<lambda>v. v = VOTE_NEED) r = [(p, VOTE_NEED)]"
    by (simp only: dicers_def filter_filter conj_commute)
  then show ?thesis by (simp add: roll_winner_def top_roll_def)
qed


text \<open>How far the others are from having voted: nobody but \<open>p\<close> has.\<close>

definition others_wait :: "guid \<Rightarrow> Roll \<Rightarrow> bool" where
  "others_wait p r \<longleftrightarrow> (\<forall>x \<in> set (playerVote r). fst x \<noteq> p \<longrightarrow> snd x = NOT_EMITED_YET)"

lemma others_wait_vote: "others_wait p r \<Longrightarrow> playerVote r' = om_modify p (\<lambda>_. VOTE_NEED) (playerVote r) \<Longrightarrow> only_needer p r'"
  by (auto simp: others_wait_def only_needer_def om_modify_def)

lemma only_needer_waits: "only_needer p r \<Longrightarrow> others_wait p r"
  by (auto simp: only_needer_def others_wait_def)

lemma quiet_vote: "quiet (snd (cast_vote env p c r))"
  by (simp add: cast_vote_def act_eval)

text \<open>The same identity, item and loot.\<close>

lemma vote_fields [simp]: "itemid (fst (cast_vote env p c r)) = itemid r"
  by (auto simp: cast_vote_def act_eval set_vote_def)

lemma takes_votes_update:
  assumes "takes_votes g s i"
  shows "takes_votes g (s\<lparr>RollId := (RollId s)[i := fst (cast_vote env p c (RollId s ! i))]\<rparr>) i"
proof -
  have *: "first_index f (xs[i := y]) = Some i" if "first_index f xs = Some i" "f y" for f xs i and y :: Roll
    using that by (induction xs arbitrary: i) (auto split: if_splits nat.splits)
  have i: "GetRoll g s = Some i" using assms by (simp add: takes_votes_def)
  from * [OF this [unfolded GetRoll_def], of "fst (cast_vote env p c (RollId s ! i))"] GetRoll_Some [OF i] assms
  show ?thesis by (simp add: takes_votes_def GetRoll_def isValid_def)
qed

lemma vote_step:
  assumes "sys_ok s" and "takes_votes g s i" and "has_key p (playerVote (RollId s ! i))"
    and r'_def: "r' = fst (cast_vote env p ROLL_NEED (RollId s ! i))"
    and "unat (totalPlayersRolling (RollId s ! i)) = votes_cast (RollId s ! i) + Suc n"
  shows "votes_cast r' = Suc (votes_cast (RollId s ! i))"
    "sys_ok (s\<lparr>RollId := (RollId s)[i := r']\<rparr>)"
    "playerVote r' = om_modify p (\<lambda>_. VOTE_NEED) (playerVote (RollId s ! i))"
    "roll_ok r'" "has_key p (playerVote r')" "i < length (RollId s)" "itemGUID r' = g"
proof -
  show i: "i < length (RollId s)" "itemGUID r' = g"
    using assms(2) by (auto simp: takes_votes_def r'_def dest: GetRoll_Some)
  have ok: "roll_ok (RollId s ! i)" using assms(1) i by (simp add: sys_ok_def)
  have c: "ROLL_NEED < MAX_ROLL_TYPE" by (simp add: roll_consts)
  note v = cast_vote_counts [OF ok assms(3) c, of env]
  show "votes_cast r' = Suc (votes_cast (RollId s ! i))"
    "playerVote r' = om_modify p (\<lambda>_. VOTE_NEED) (playerVote (RollId s ! i))"
    using v by (simp_all add: r'_def voted_def roll_consts)
  then show "roll_ok r'" "has_key p (playerVote r')"
    using cast_vote_ok [OF ok, of env p ROLL_NEED] assms(3,5) by (simp_all add: r'_def has_key_iff del: set_map)
  then show "sys_ok (s\<lparr>RollId := (RollId s)[i := r']\<rparr>)"
    by (intro sys_ok_update [OF assms(1)]) (simp_all add: r'_def)
qed

lemma need_votes_end:
  assumes "sys_ok s" and "takes_votes g s i" and "has_key p (playerVote (RollId s ! i))"
    and "others_wait p (RollId s ! i)" and "FindPlayer env p" and "can_store env g p = 0"
    and "dice_thrown env (RollId s ! i)" and "item_template env (itemid (RollId s ! i)) \<noteq> None"
    and "unat (totalPlayersRolling (RollId s ! i)) = votes_cast (RollId s ! i) + Suc n"
  shows "RollId (fst (need_votes env p g (Suc n) s)) = take i (RollId s) @ drop (Suc i) (RollId s) \<and>
    given (snd (need_votes env p g (Suc n) s)) = [(p, itemid (RollId s ! i))]"
  using assms
proof (induction n arbitrary: s)
  case (0 s)
  let ?r = "RollId s ! i" let ?r' = "fst (cast_vote env p ROLL_NEED ?r)" let ?s = "s\<lparr>RollId := (RollId s)[i := ?r']\<rparr>"
  note v = vote_step [where env = env, OF 0(1,2,3) refl 0(9)]
  have "roll_winner env None ?r' = Some (p, VOTE_NEED)"
    using others_wait_vote [OF 0(4) v(3)] v(4,5) 0(5) by (intro only_needer_wins) auto
  moreover obtain l where l: "r_loot ?r' = Some l" using 0(2) by (auto simp: takes_votes_def)
  have "RollId ?s ! i = ?r'" "i < length (RollId ?s)" using v(6) by simp_all
  moreover have "dice_thrown env ?r'" "dispute_open ?r'" using 0(7) v(5) by (auto simp: dice_thrown_def dispute_open_def has_key_def)
  moreover obtain tp where "item_template env (itemid ?r') = Some tp" using 0(8) by auto
  ultimately have out: "given (snd (CountTheRoll env i None ?s)) = given_to env ?r' (Some (p, VOTE_NEED))"
    using roll_outcome [OF v(2) _ _ l, of i env tp None] by simp
  have "CountRollVote env p g ROLL_NEED s =
      (True, fst (CountTheRoll env i None ?s), snd (cast_vote env p ROLL_NEED ?r) @ snd (CountTheRoll env i None ?s))"
    using CountRollVote_eval [OF 0(1,2,3), of ROLL_NEED env] 0(9) by (simp add: roll_consts Let_def)
  with out v(7) 0(6) show ?case
    by (simp add: Let_def rolls_after_count given_to_def undefined_quiet [OF quiet_vote])
next
  case (Suc n s)
  let ?r = "RollId s ! i" let ?r' = "fst (cast_vote env p ROLL_NEED ?r)" let ?s = "s\<lparr>RollId := (RollId s)[i := ?r']\<rparr>"
  note v = vote_step [where env = env, OF Suc.prems(1,2,3) refl Suc.prems(9)]
  have r: "RollId ?s ! i = ?r'" using v(6) by simp
  have "CountRollVote env p g ROLL_NEED s = (False, ?s, snd (cast_vote env p ROLL_NEED ?r))"
    using CountRollVote_eval [OF Suc.prems(1,2,3), of ROLL_NEED env] Suc.prems(9) by (simp add: roll_consts Let_def)
  moreover have "RollId (fst (need_votes env p g (Suc n) ?s)) = take i (RollId ?s) @ drop (Suc i) (RollId ?s) \<and>
      given (snd (need_votes env p g (Suc n) ?s)) = [(p, itemid (RollId ?s ! i))]"
    using v Suc.prems(5-9) only_needer_waits [OF others_wait_vote [OF Suc.prems(4) v(3)]]
    by (intro Suc.IH) (simp_all add: r takes_votes_update [OF Suc.prems(2)] dice_thrown_def)
  ultimately show ?case
    using v(6) by (simp add: Let_def undefined_quiet [OF quiet_vote])
qed

text \<open>C25: the votes are not tied to the voters: a member who votes need as often as there are votes
  missing ends the roll alone and gets the item, although nobody else has voted.\<close>

theorem one_member_ends_roll:
  assumes "sys_ok s" and "takes_votes g s i" and "RollId s ! i = r" and "has_key p (playerVote r)"
    and "others_wait p r" and "votes_cast r < unat (totalPlayersRolling r)"
    and "FindPlayer env p" and "can_store env g p = 0" and "dice_thrown env r" and "item_template env (itemid r) \<noteq> None"
  shows "given (snd (need_votes env p g (unat (totalPlayersRolling r) - votes_cast r) s)) = [(p, itemid r)]"
proof -
  obtain n where "unat (totalPlayersRolling r) = votes_cast r + Suc n"
    using less_imp_Suc_add [OF assms(6)] by auto
  with need_votes_end [OF assms(1,2), of p env n] assms(3-10) show ?thesis by simp
qed

theorem one_member_ends_roll_witness:
  "given (snd (need_votes ex_env 1 500 3 (ex_sys (ex_roll NOT_EMITED_YET NOT_EMITED_YET 0)))) = [(1, 19019)]"
proof -
  let ?r = "ex_roll NOT_EMITED_YET NOT_EMITED_YET 0"
  have "dice_thrown ex_env ?r" by (simp add: ex_defs dice_thrown_def)
  with one_member_ends_roll [OF ex_ok(2) ex_takes, of ?r 1 ex_env] show ?thesis
    by (simp add: ex_defs has_key_def others_wait_def votes_cast_def FindPlayer_def)
qed



section \<open>All states\<close>

text \<open>C22: whatever the order of the operations of a group on its rolls, every open roll stays
  well-formed: one entry per player who rolls, totals that cover the votes of each kind and wrap
  nowhere, and an item that is there.\<close>

theorem open_rolls_ok:
  assumes "RollId s = []" and "loot_step\<^sup>*\<^sup>* s t"
  shows "\<forall>r \<in> set (RollId t). roll_ok r \<and>
    (\<forall>l. r_loot r = Some l \<longrightarrow> rolled_item (itemSlot r) (Loots t l) \<noteq> None)"
  using rolls.reachable_inv [OF assms] by (simp add: sys_ok_def)

theorem open_rolls_ok_witness:
  "list_all roll_ok (RollId (fst (GroupLoot ex_env ex_ctx 0 ((ex_sys (ex_roll VOTE_PASS VOTE_PASS 0))\<lparr>RollId := []\<rparr>))))"
proof -
  let ?s = "(ex_sys (ex_roll VOTE_PASS VOTE_PASS 0))\<lparr>RollId := []\<rparr>"
  have "loot_step ?s (fst (run_loot_op (Op_Group ex_env ex_ctx 0) ?s))"
    by (rule loot_step.intros) (simp add: ex_ctx_def group_refs_ok_def)
  then have "loot_step\<^sup>*\<^sup>* ?s (fst (GroupLoot ex_env ex_ctx 0 ?s))" by simp
  from open_rolls_ok [OF _ this] show ?thesis by (simp add: list_all_iff)
qed

end
