(* ===== verification/GroupTypes.thy ===== *)
theory GroupTypes
  imports LootShare
begin

text \<open>
  Groups and the players in them: the objects of \<open>src/src/server/game/Groups/Group.h\<close>, the two
  group references of a player (\<open>Player.cpp\<close>, \<open>LinkedReference/Reference.h\<close>) and the identifiers
  of groups (\<open>GroupMgr.cpp\<close>), as one state: group objects by address, players by identifier. A
  reference is linked into the list of its target, newest first; a deleted group keeps its fields
  and is no longer \<open>g_alive\<close>. What the world around answers is a record \<open>genv\<close>.
\<close>

section \<open>Constants\<close>

definition MAXGROUPSIZE :: nat where "MAXGROUPSIZE = 5"
definition MAXRAIDSIZE :: nat where "MAXRAIDSIZE = 40"
definition MAX_RAID_SUBGROUPS :: nat where "MAX_RAID_SUBGROUPS = MAXRAIDSIZE div MAXGROUPSIZE"
definition TARGETICONCOUNT :: nat where "TARGETICONCOUNT = 8"

definition MEMBER_FLAG_ASSISTANT :: u8 where "MEMBER_FLAG_ASSISTANT = 0x01"
definition MEMBER_FLAG_MAINTANK :: u8 where "MEMBER_FLAG_MAINTANK = 0x02"
definition MEMBER_FLAG_MAINASSIST :: u8 where "MEMBER_FLAG_MAINASSIST = 0x04"

definition GROUPTYPE_RAID :: u8 where "GROUPTYPE_RAID = 0x02"
definition GROUPTYPE_BGRAID :: u8 where "GROUPTYPE_BGRAID = 0x03"
definition GROUPTYPE_LFG_RESTRICTED :: u8 where "GROUPTYPE_LFG_RESTRICTED = 0x04"
definition GROUPTYPE_LFG :: u8 where "GROUPTYPE_LFG = 0x08"

definition FREE_FOR_ALL :: u8 where "FREE_FOR_ALL = 0"
definition MASTER_LOOT :: u8 where "MASTER_LOOT = 2"
definition GROUP_LOOT :: u8 where "GROUP_LOOT = 3"
definition NEED_BEFORE_GREED :: u8 where "NEED_BEFORE_GREED = 4"
definition ITEM_QUALITY_UNCOMMON :: u32 where "ITEM_QUALITY_UNCOMMON = 2"

datatype RemoveMethod = REMOVE_DEFAULT | REMOVE_KICK | REMOVE_LEAVE | REMOVE_KICK_LFG

lemmas group_sizes = MAXGROUPSIZE_def MAXRAIDSIZE_def MAX_RAID_SUBGROUPS_def TARGETICONCOUNT_def
lemmas member_flags = MEMBER_FLAG_ASSISTANT_def MEMBER_FLAG_MAINTANK_def MEMBER_FLAG_MAINASSIST_def
lemmas group_types = GROUPTYPE_RAID_def GROUPTYPE_BGRAID_def GROUPTYPE_LFG_RESTRICTED_def GROUPTYPE_LFG_def

section \<open>Objects\<close>

record MemberSlot =
  ms_guid :: guid
  ms_name :: string
  ms_group :: u8
  ms_flags :: u8
  ms_roles :: u8

text \<open>A reference of a player to a group (\<open>GroupReference\<close>): the subgroup stays when it is unlinked.\<close>

record group_ref =
  ref_to :: "nat option"
  iSubGroup :: u8

record gplayer =
  p_name :: string
  p_connected :: bool
  p_in_world :: bool
  m_group :: group_ref
  m_originalGroup :: group_ref
  m_groupInvite :: "nat option"
  p_leader_flag :: bool
  p_dungeon_difficulty :: u8
  p_raid_difficulty :: u8
  m_InstanceValid :: bool

text \<open>Which of the two references of a player.\<close>

datatype ref_kind = MainRef | OriginalRef

record group =
  g_alive :: bool
  m_memberSlots :: "MemberSlot list"
  m_memberMgr :: "(guid \<times> ref_kind) list"
  m_invitees :: "guid list"
  m_leaderGuid :: guid
  m_leaderName :: string
  m_groupType :: u8
  m_dungeonDifficulty :: u8
  m_raidDifficulty :: u8
  m_bfGroup :: "nat option"
  m_bgGroup :: "nat option"
  m_targetIcons :: "guid list"
  m_lootMethod :: u8
  m_lootThreshold :: u32
  m_looterGuid :: guid
  m_masterLooterGuid :: guid
  g_rolls :: "Roll list"
  m_subGroupsCounts :: "u8 list option"
  m_guid :: guid
  m_counter :: u32
  m_maxEnchantingLevel :: u32
  m_lfgGroupFlags :: u8
  difficultyChangePreventionTime :: u32
  difficultyChangePreventionType :: u8

text \<open>\<open>Group::Group()\<close>; the LFG flags are left uninitialised by the code and are an argument.\<close>

definition new_group :: "u8 \<Rightarrow> group" where
  "new_group lfg = \<lparr>g_alive = True, m_memberSlots = [], m_memberMgr = [], m_invitees = [],
     m_leaderGuid = 0, m_leaderName = [], m_groupType = 0, m_dungeonDifficulty = 0, m_raidDifficulty = 0,
     m_bfGroup = None, m_bgGroup = None, m_targetIcons = replicate TARGETICONCOUNT 0,
     m_lootMethod = FREE_FOR_ALL, m_lootThreshold = ITEM_QUALITY_UNCOMMON, m_looterGuid = 0,
     m_masterLooterGuid = 0, g_rolls = [], m_subGroupsCounts = None, m_guid = 0, m_counter = 0,
     m_maxEnchantingLevel = 0, m_lfgGroupFlags = lfg, difficultyChangePreventionTime = 0,
     difficultyChangePreventionType = 0\<rparr>"

record gworld =
  groups :: "nat \<Rightarrow> group"
  players :: "guid \<Rightarrow> gplayer"
  g_loots :: "nat \<Rightarrow> Loot"
  g_item_counter :: u32
  group_ids :: "bool list"
  nextGroupId :: u32
  GroupStore :: "(u32 \<times> nat) list"

section \<open>Packets and effects\<close>

text \<open>\<open>SMSG_GROUP_LIST\<close>: type, subgroup, flags and roles of the receiver, the LFG part, identifier,
  counter, number of the others, the others (name, identifier, online state, subgroup, flags,
  roles), the leader and, unless the receiver is alone, the loot settings and difficulties.\<close>

datatype gpacket =
    SMSG_GROUP_LIST u8 u8 u8 u8 "(u8 \<times> u32) option" guid u32 u32
      "(string \<times> guid \<times> u8 \<times> u8 \<times> u8 \<times> u8) list" guid "(u8 \<times> guid \<times> u8 \<times> u8 \<times> u8 \<times> bool) option"
  | SMSG_GROUP_LIST_LEFT guid u32
  | SMSG_GROUP_UNINVITE
  | SMSG_GROUP_DESTROYED
  | SMSG_GROUP_SET_LEADER string
  | SMSG_GROUP_INVITE u8 string
  | SMSG_GROUP_DECLINE string
  | SMSG_PARTY_COMMAND_RESULT u32 string u32 u32
  | RAID_TARGET_SET guid u8 guid
  | RAID_TARGET_LIST "(u8 \<times> guid) list"
  | READY_CHECK guid
  | READY_CHECK_CONFIRM guid u8
  | READY_CHECK_FINISHED
  | SMSG_LOOT_LIST guid "guid option" "guid option"
  | MINIMAP_PING guid u32 u32
  | DUNGEON_DIFFICULTY u8
  | RAID_DIFFICULTY u8
  | PARTY_MEMBER_STATS guid
  | RANDOM_ROLL u32 u32 u32 guid
  | BG_READY_CHECK_ERROR

datatype gstmt =
    CHAR_INS_GROUP u32 u32 u8 u32 u8 "guid list" u8 u8 u8 u32
  | CHAR_REP_GROUP_MEMBER u32 u32 u8 u8 u8
  | CHAR_DEL_GROUP u32
  | CHAR_DEL_GROUP_MEMBER u32 u32
  | CHAR_DEL_GROUP_MEMBER_ALL u32
  | CHAR_DEL_LFG_DATA u32
  | CHAR_UPD_GROUP_TYPE u8 u32
  | CHAR_UPD_GROUP_LEADER u32 u32
  | CHAR_UPD_GROUP_MEMBER_SUBGROUP u8 u32
  | CHAR_UPD_GROUP_MEMBER_FLAG u8 u32
  | CHAR_UPD_GROUP_DIFFICULTY u8 u32
  | CHAR_UPD_GROUP_RAID_DIFFICULTY u8 u32

datatype ghook =
    OnCreate guid | OnGroupInviteMember guid | OnGroupAddMember guid | OnGroupDisband
  | OnGroupRemoveMember guid RemoveMethod guid string | OnGroupChangeLeader guid guid
  | OnConstructGroup | OnDestructGroup

datatype geff =
    Packet guid gpacket
  | Statement gstmt
  | Hook nat ghook
  | RollEffect reff
  | CacheSetGroup guid guid
  | CacheClearGroup guid
  | UpdateVisibility guid
  | QuestObjects guid
  | ResetInstances guid bool
  | ForceGroupValues guid
  | FullUpdateFlag guid
  | FieldsTo guid guid
  | FieldsFrom guid "guid list"
  | CopyBinds guid guid
  | DeleteInstanceData u32
  | LfgInitBoot guid guid guid string
  | LfgLeave guid
  | LfgLoad guid
  | LfgSetupMember guid guid
  | SetBgRaid nat nat
  | SetBfRaid nat guid
  | DropBgRaid nat nat
  | RollCriteria guid u8
  | StopWorld
  | BadSubgroup
  | AssertFailed

section \<open>The world around\<close>

record genv =
  lfg_state :: "guid \<Rightarrow> u8"
  lfg_dungeon :: "guid \<Rightarrow> u32"
  lfg_map :: "guid \<Rightarrow> u32"
  cache_name :: "guid \<Rightarrow> string option"
  enchanting :: "guid \<Rightarrow> u32"
  logging_out :: "guid \<Rightarrow> bool"
  socket_closed :: "guid \<Rightarrow> bool"
  game_master :: "guid \<Rightarrow> bool"
  in_dungeon :: "guid \<Rightarrow> bool"
  bound_here :: "guid \<Rightarrow> bool"
  instance_id :: "guid \<Rightarrow> u32"
  map_of_player :: "guid \<Rightarrow> u32"
  player_alive :: "guid \<Rightarrow> bool"
  player_level :: "guid \<Rightarrow> u8"
  out_of_range :: "guid \<Rightarrow> guid \<Rightarrow> bool"
  at_client :: "guid \<Rightarrow> guid \<Rightarrow> bool"
  raid_level :: int
  game_time :: u32
  roll_env :: rollenv

definition FindConnected :: "gworld \<Rightarrow> guid \<Rightarrow> bool" where
  "FindConnected w p = p_connected (players w p)"

definition FindInWorld :: "gworld \<Rightarrow> guid \<Rightarrow> bool" where
  "FindInWorld w p \<longleftrightarrow> p_connected (players w p) \<and> p_in_world (players w p)"

section \<open>Changing an object\<close>

definition set_group :: "nat \<Rightarrow> (group \<Rightarrow> group) \<Rightarrow> gworld \<Rightarrow> gworld" where
  "set_group g f w = w\<lparr>groups := (groups w)(g := f (groups w g))\<rparr>"

definition set_player :: "guid \<Rightarrow> (gplayer \<Rightarrow> gplayer) \<Rightarrow> gworld \<Rightarrow> gworld" where
  "set_player p f w = w\<lparr>players := (players w)(p := f (players w p))\<rparr>"

abbreviation on_group :: "nat \<Rightarrow> (group \<Rightarrow> group) \<Rightarrow> (gworld, geff) act" where
  "on_group g f \<equiv> upd (set_group g f)"

abbreviation on_player :: "guid \<Rightarrow> (gplayer \<Rightarrow> gplayer) \<Rightarrow> (gworld, geff) act" where
  "on_player p f \<equiv> upd (set_player p f)"

abbreviation tell :: "geff list \<Rightarrow> (gworld, geff) act" where
  "tell es \<equiv> emit (\<lambda>_. es)"

section \<open>References\<close>

definition the_ref :: "ref_kind \<Rightarrow> gplayer \<Rightarrow> group_ref" where
  "the_ref k q = (case k of MainRef \<Rightarrow> m_group q | OriginalRef \<Rightarrow> m_originalGroup q)"

definition change_ref :: "ref_kind \<Rightarrow> (group_ref \<Rightarrow> group_ref) \<Rightarrow> gplayer \<Rightarrow> gplayer" where
  "change_ref k f q = (case k of MainRef \<Rightarrow> q\<lparr>m_group := f (m_group q)\<rparr>
     | OriginalRef \<Rightarrow> q\<lparr>m_originalGroup := f (m_originalGroup q)\<rparr>)"

definition ref_unlink :: "guid \<Rightarrow> ref_kind \<Rightarrow> gworld \<Rightarrow> gworld" where
  "ref_unlink p k w = (case ref_to (the_ref k (players w p)) of
     None \<Rightarrow> w
   | Some g \<Rightarrow> set_player p (change_ref k (\<lambda>r. r\<lparr>ref_to := None\<rparr>))
       (set_group g (\<lambda>x. x\<lparr>m_memberMgr := filter (\<lambda>y. y \<noteq> (p, k)) (m_memberMgr x)\<rparr>) w))"

definition ref_link :: "guid \<Rightarrow> ref_kind \<Rightarrow> nat option \<Rightarrow> gworld \<Rightarrow> gworld" where
  "ref_link p k g w = (let w' = ref_unlink p k w in case g of
     None \<Rightarrow> w'
   | Some g \<Rightarrow> set_group g (\<lambda>x. x\<lparr>m_memberMgr := (p, k) # m_memberMgr x\<rparr>)
       (set_player p (change_ref k (\<lambda>r. r\<lparr>ref_to := Some g\<rparr>)) w'))"

definition setSubGroup :: "guid \<Rightarrow> ref_kind \<Rightarrow> u8 \<Rightarrow> gworld \<Rightarrow> gworld" where
  "setSubGroup p k sub = set_player p (change_ref k (\<lambda>r. r\<lparr>iSubGroup := sub\<rparr>))"

definition GetGroup :: "gworld \<Rightarrow> guid \<Rightarrow> nat option" where
  "GetGroup w p = ref_to (m_group (players w p))"

definition GetOriginalGroup :: "gworld \<Rightarrow> guid \<Rightarrow> nat option" where
  "GetOriginalGroup w p = ref_to (m_originalGroup (players w p))"

definition GetSubGroup :: "gworld \<Rightarrow> guid \<Rightarrow> u8" where
  "GetSubGroup w p = iSubGroup (m_group (players w p))"

definition GetOriginalSubGroup :: "gworld \<Rightarrow> guid \<Rightarrow> u8" where
  "GetOriginalSubGroup w p = iSubGroup (m_originalGroup (players w p))"

text \<open>The subgroup is passed as an \<open>int8\<close> that is asserted not to be negative.\<close>

definition SetGroup :: "guid \<Rightarrow> nat option \<Rightarrow> u8 \<Rightarrow> (gworld, geff) act" where
  "SetGroup p g sub = acts [
     (case g of None \<Rightarrow> upd (ref_unlink p MainRef)
      | Some g \<Rightarrow>
         if sint sub < 0 then tell [AssertFailed]
         else acts [upd (ref_link p MainRef (Some g)), upd (setSubGroup p MainRef sub)]),
     tell [UpdateVisibility p]]"

definition SetOriginalGroup :: "guid \<Rightarrow> nat option \<Rightarrow> u8 \<Rightarrow> (gworld, geff) act" where
  "SetOriginalGroup p g sub =
     (case g of None \<Rightarrow> upd (ref_unlink p OriginalRef)
      | Some g \<Rightarrow>
         if sint sub < 0 then tell [AssertFailed]
         else acts [upd (ref_link p OriginalRef (Some g)), upd (setSubGroup p OriginalRef sub)])"

definition SetBattlegroundOrBattlefieldRaid :: "guid \<Rightarrow> nat \<Rightarrow> u8 \<Rightarrow> (gworld, geff) act" where
  "SetBattlegroundOrBattlefieldRaid p g sub = acts [
     load (\<lambda>w. (GetGroup w p, GetSubGroup w p)) (\<lambda>(old, oldsub). SetOriginalGroup p old oldsub),
     upd (ref_unlink p MainRef),
     upd (ref_link p MainRef (Some g)),
     upd (setSubGroup p MainRef sub)]"

definition RemoveFromBattlegroundOrBattlefieldRaid :: "guid \<Rightarrow> (gworld, geff) act" where
  "RemoveFromBattlegroundOrBattlefieldRaid p = acts [
     upd (ref_unlink p MainRef),
     load (\<lambda>w. (GetOriginalGroup w p, GetOriginalSubGroup w p)) (\<lambda>(g, sub). case g of
       None \<Rightarrow> skip
     | Some g \<Rightarrow> acts [upd (ref_link p MainRef (Some g)), upd (setSubGroup p MainRef sub)]),
     SetOriginalGroup p None 0]"

end
