(* ===== verification/Group.thy ===== *)
theory Group
  imports GroupTypes
begin

text \<open>
  The operations of a group on its members, leader, subgroups, flags, icons and looter
  (\<open>src/src/server/game/Groups/Group.cpp\<close>), in the order of the file where the calls allow it.
  Every operation takes the address of the group.
\<close>

section \<open>Reading\<close>

definition isLFGGroup :: "bool \<Rightarrow> group \<Rightarrow> bool" where
  "isLFGGroup restricted x \<longleftrightarrow> m_groupType x AND GROUPTYPE_LFG \<noteq> 0 \<and>
     (\<not> restricted \<or> m_groupType x AND GROUPTYPE_LFG_RESTRICTED \<noteq> 0)"

definition isRaidGroup :: "group \<Rightarrow> bool" where
  "isRaidGroup x \<longleftrightarrow> m_groupType x AND GROUPTYPE_RAID \<noteq> 0"

definition isBGGroup :: "group \<Rightarrow> bool" where
  "isBGGroup x \<longleftrightarrow> m_bgGroup x \<noteq> None"

definition isBFGroup :: "group \<Rightarrow> bool" where
  "isBFGroup x \<longleftrightarrow> m_bfGroup x \<noteq> None"

abbreviation in_battle :: "group \<Rightarrow> bool" where
  "in_battle x \<equiv> isBGGroup x \<or> isBFGroup x"

definition GetMembersCount :: "group \<Rightarrow> nat" where
  "GetMembersCount x = length (m_memberSlots x)"

definition IsCreated :: "group \<Rightarrow> bool" where
  "IsCreated x \<longleftrightarrow> GetMembersCount x > 0"

definition IsFull :: "group \<Rightarrow> bool" where
  "IsFull x = (if isRaidGroup x then length (m_memberSlots x) \<ge> MAXRAIDSIZE
     else length (m_memberSlots x) \<ge> MAXGROUPSIZE)"

definition getMemberSlot :: "guid \<Rightarrow> group \<Rightarrow> nat option" where
  "getMemberSlot p x = first_index (\<lambda>m. ms_guid m = p) (m_memberSlots x)"

definition IsMember :: "guid \<Rightarrow> group \<Rightarrow> bool" where
  "IsMember p x \<longleftrightarrow> getMemberSlot p x \<noteq> None"

definition IsLeader :: "guid \<Rightarrow> group \<Rightarrow> bool" where
  "IsLeader p x \<longleftrightarrow> m_leaderGuid x = p"

definition GetMemberGUID :: "string \<Rightarrow> group \<Rightarrow> guid" where
  "GetMemberGUID name x = (case find (\<lambda>m. ms_name m = name) (m_memberSlots x) of
     None \<Rightarrow> 0 | Some m \<Rightarrow> ms_guid m)"

definition IsAssistant :: "guid \<Rightarrow> group \<Rightarrow> bool" where
  "IsAssistant p x = (case getMemberSlot p x of None \<Rightarrow> False
     | Some i \<Rightarrow> ms_flags (m_memberSlots x ! i) AND MEMBER_FLAG_ASSISTANT \<noteq> 0)"

definition SameSubGroup :: "guid \<Rightarrow> guid \<Rightarrow> group \<Rightarrow> bool" where
  "SameSubGroup p q x = (case (getMemberSlot p x, getMemberSlot q x) of
     (Some i, Some j) \<Rightarrow> ms_group (m_memberSlots x ! i) = ms_group (m_memberSlots x ! j)
   | _ \<Rightarrow> False)"

definition SameSubGroupPlayers :: "nat \<Rightarrow> guid \<Rightarrow> guid \<Rightarrow> gworld \<Rightarrow> bool" where
  "SameSubGroupPlayers g p q w \<longleftrightarrow>
     GetGroup w p = Some g \<and> GetGroup w q = Some g \<and> GetSubGroup w p = GetSubGroup w q"

text \<open>The counter of a subgroup outside the array is read as it lies there: the value is undefined.\<close>

definition HasFreeSlotSubGroup :: "u8 \<Rightarrow> group \<Rightarrow> bool" where
  "HasFreeSlotSubGroup sub x = (case m_subGroupsCounts x of None \<Rightarrow> False
     | Some c \<Rightarrow> unat sub < length c \<and> unat (c ! unat sub) < MAXGROUPSIZE)"

definition GetMemberGroup :: "guid \<Rightarrow> group \<Rightarrow> u8" where
  "GetMemberGroup p x = (case getMemberSlot p x of None \<Rightarrow> of_nat (MAX_RAID_SUBGROUPS + 1)
     | Some i \<Rightarrow> ms_group (m_memberSlots x ! i))"

definition GetInvited :: "guid \<Rightarrow> group \<Rightarrow> bool" where
  "GetInvited p x \<longleftrightarrow> p \<in> set (m_invitees x)"

definition GetInvitedByName :: "gworld \<Rightarrow> string \<Rightarrow> group \<Rightarrow> guid option" where
  "GetInvitedByName w name x = find (\<lambda>p. p_name (players w p) = name) (m_invitees x)"

definition GetDifficulty :: "bool \<Rightarrow> group \<Rightarrow> u8" where
  "GetDifficulty isRaid x = (if isRaid then m_raidDifficulty x else m_dungeonDifficulty x)"

definition isRollLootActive :: "group \<Rightarrow> bool" where
  "isRollLootActive x \<longleftrightarrow> g_rolls x \<noteq> []"

definition low_guid :: "group \<Rightarrow> u32" where
  "low_guid x = GetCounter (m_guid x)"

definition change_slot :: "guid \<Rightarrow> (MemberSlot \<Rightarrow> MemberSlot) \<Rightarrow> group \<Rightarrow> group" where
  "change_slot p f x = (case getMemberSlot p x of None \<Rightarrow> x
     | Some i \<Rightarrow> x\<lparr>m_memberSlots := (m_memberSlots x)[i := f (m_memberSlots x ! i)]\<rparr>)"

text \<open>Statements are executed for groups that are neither of a battleground nor of a battlefield.\<close>

definition stored :: "nat \<Rightarrow> (group \<Rightarrow> geff list) \<Rightarrow> (gworld, geff) act" where
  "stored g f = whenever (\<lambda>w. \<not> in_battle (groups w g)) (emit (\<lambda>w. f (groups w g)))"

section \<open>Subgroups\<close>

text \<open>\<open>++m_subGroupsCounts[subgroup]\<close> writes outside the array for a subgroup from 8 on.\<close>

definition bump :: "u8 \<Rightarrow> u8 \<Rightarrow> u8 list \<Rightarrow> u8 list" where
  "bump d sub c = c[unat sub := c ! unat sub + d]"

definition initRaidSubGroupsCounter :: "group \<Rightarrow> group" where
  "initRaidSubGroupsCounter x =
     x\<lparr>m_subGroupsCounts := Some (fold (\<lambda>m. bump 1 (ms_group m)) (m_memberSlots x) (replicate MAX_RAID_SUBGROUPS 0))\<rparr>"

definition count_subgroup :: "u8 \<Rightarrow> nat \<Rightarrow> u8 \<Rightarrow> (gworld, geff) act" where
  "count_subgroup d g sub = whenever (\<lambda>w. m_subGroupsCounts (groups w g) \<noteq> None) (acts [
     on_group g (\<lambda>x. x\<lparr>m_subGroupsCounts := map_option (bump d sub) (m_subGroupsCounts x)\<rparr>),
     tell (if unat sub \<ge> MAX_RAID_SUBGROUPS then [BadSubgroup] else [])])"

definition SubGroupCounterIncrease :: "nat \<Rightarrow> u8 \<Rightarrow> (gworld, geff) act" where
  "SubGroupCounterIncrease = count_subgroup 1"

definition SubGroupCounterDecrease :: "nat \<Rightarrow> u8 \<Rightarrow> (gworld, geff) act" where
  "SubGroupCounterDecrease = count_subgroup (- 1)"

fun first_free :: "u8 list \<Rightarrow> nat \<Rightarrow> u8 option" where
  "first_free [] n = None"
| "first_free (c # cs) n = (if unat c < MAXGROUPSIZE then Some (of_nat n) else first_free cs (Suc n))"

text \<open>Where a new member goes: 0 without subgroups, else the first that is not full.\<close>

definition free_subgroup :: "group \<Rightarrow> u8 option" where
  "free_subgroup x = (case m_subGroupsCounts x of None \<Rightarrow> Some 0 | Some c \<Rightarrow> first_free c 0)"

section \<open>Packets\<close>

definition BroadcastPacket :: "nat \<Rightarrow> gpacket \<Rightarrow> bool \<Rightarrow> u8 option \<Rightarrow> guid \<Rightarrow> gworld \<Rightarrow> geff list" where
  "BroadcastPacket g pkt ignorePlayersInBGRaid sub ignore w =
     [Packet p pkt. (p, k) \<leftarrow> m_memberMgr (groups w g),
        \<not> (ignore \<noteq> 0 \<and> p = ignore) \<and> \<not> (ignorePlayersInBGRaid \<and> GetGroup w p \<noteq> Some g) \<and>
        (sub = None \<or> sub = Some (iSubGroup (the_ref k (players w p))))]"

definition BroadcastReadyCheck :: "nat \<Rightarrow> gpacket \<Rightarrow> gworld \<Rightarrow> geff list" where
  "BroadcastReadyCheck g pkt w =
     [Packet p pkt. (p, k) \<leftarrow> m_memberMgr (groups w g), IsLeader p (groups w g) \<or> IsAssistant p (groups w g)]"

definition OfflineReadyCheck :: "nat \<Rightarrow> gworld \<Rightarrow> geff list" where
  "OfflineReadyCheck g w = concat [BroadcastReadyCheck g (READY_CHECK_CONFIRM (ms_guid m) 0) w.
     m \<leftarrow> m_memberSlots (groups w g), \<not> FindConnected w (ms_guid m)]"

definition SendTargetIconList :: "nat \<Rightarrow> guid \<Rightarrow> gworld \<Rightarrow> geff list" where
  "SendTargetIconList g p w = [Packet p (RAID_TARGET_LIST
     [(of_nat i, m_targetIcons (groups w g) ! i). i \<leftarrow> [0..<TARGETICONCOUNT], m_targetIcons (groups w g) ! i \<noteq> 0])]"

definition online_state :: "genv \<Rightarrow> gworld \<Rightarrow> group \<Rightarrow> guid \<Rightarrow> u8" where
  "online_state e w x p = (if FindConnected w p \<and> \<not> logging_out e p then 1 else 0) OR (if in_battle x then 2 else 0)"

definition group_list :: "genv \<Rightarrow> gworld \<Rightarrow> group \<Rightarrow> MemberSlot \<Rightarrow> gpacket" where
  "group_list e w x slot = SMSG_GROUP_LIST (m_groupType x) (ms_group slot) (ms_flags slot) (ms_roles slot)
     (if isLFGGroup False x
      then Some (if lfg_state e (m_guid x) = 6 then 2 else 0, lfg_dungeon e (m_guid x)) else None)
     (m_guid x) (m_counter x) (of_nat (GetMembersCount x) - 1)
     [(ms_name m, ms_guid m, online_state e w x (ms_guid m), ms_group m, ms_flags m, ms_roles m).
        m \<leftarrow> m_memberSlots x, ms_guid slot \<noteq> ms_guid m]
     (m_leaderGuid x)
     (if of_nat (GetMembersCount x) - 1 \<noteq> (0 :: u32)
      then Some (m_lootMethod x, if m_lootMethod x = MASTER_LOOT then m_masterLooterGuid x else 0,
        ucast (m_lootThreshold x), m_dungeonDifficulty x, m_raidDifficulty x, m_raidDifficulty x \<ge> 2)
      else None)"

definition SendUpdateToPlayer :: "genv \<Rightarrow> nat \<Rightarrow> guid \<Rightarrow> MemberSlot option \<Rightarrow> (gworld, geff) act" where
  "SendUpdateToPlayer e g p slot =
     unless (\<lambda>w. \<not> FindConnected w p \<or> GetGroup w p \<noteq> Some g)
     (load (\<lambda>w. case slot of Some m \<Rightarrow> Some m
        | None \<Rightarrow> map_option (\<lambda>i. m_memberSlots (groups w g) ! i) (getMemberSlot p (groups w g)))
      (\<lambda>m. case m of None \<Rightarrow> skip
       | Some m \<Rightarrow> load (\<lambda>w. group_list e w (groups w g) m) (\<lambda>pkt. acts [
           on_group g (\<lambda>x. x\<lparr>m_counter := m_counter x + 1\<rparr>),
           tell [Packet p pkt]])))"

definition SendUpdate :: "genv \<Rightarrow> nat \<Rightarrow> (gworld, geff) act" where
  "SendUpdate e g = load (\<lambda>w. m_memberSlots (groups w g))
     (each (\<lambda>m. SendUpdateToPlayer e g (ms_guid m) (Some m)))"

definition UpdatePlayerOutOfRange :: "genv \<Rightarrow> nat \<Rightarrow> guid \<Rightarrow> gworld \<Rightarrow> geff list" where
  "UpdatePlayerOutOfRange e g p w = (if \<not> p_in_world (players w p) then []
     else [Packet q (PARTY_MEMBER_STATS p). (q, k) \<leftarrow> m_memberMgr (groups w g), out_of_range e q p])"

definition BroadcastGroupUpdate :: "nat \<Rightarrow> gworld \<Rightarrow> geff list" where
  "BroadcastGroupUpdate g w =
     [ForceGroupValues (ms_guid m). m \<leftarrow> m_memberSlots (groups w g), FindInWorld w (ms_guid m)]"

text \<open>\<open>SendLooter\<close>: the master looter is named when the loot has an item over the threshold.\<close>

definition SendLooter :: "nat \<Rightarrow> guid \<Rightarrow> Loot \<Rightarrow> guid option \<Rightarrow> gworld \<Rightarrow> geff list" where
  "SendLooter g creature loot looter w = BroadcastPacket g
     (SMSG_LOOT_LIST creature
        (if m_lootMethod (groups w g) = MASTER_LOOT \<and> hasOverThresholdItem loot
         then Some (m_masterLooterGuid (groups w g)) else None) looter) False None 0 w"

section \<open>Invitations\<close>

definition RemoveInvite :: "nat \<Rightarrow> guid \<Rightarrow> (gworld, geff) act" where
  "RemoveInvite g p = acts [
     on_group g (\<lambda>x. x\<lparr>m_invitees := removeAll p (m_invitees x)\<rparr>),
     on_player p (\<lambda>q. q\<lparr>m_groupInvite := None\<rparr>)]"

definition RemoveAllInvites :: "nat \<Rightarrow> (gworld, geff) act" where
  "RemoveAllInvites g = load (\<lambda>w. m_invitees (groups w g)) (\<lambda>ps. acts [
     each (\<lambda>p. on_player p (\<lambda>q. q\<lparr>m_groupInvite := None\<rparr>)) ps,
     on_group g (\<lambda>x. x\<lparr>m_invitees := []\<rparr>)])"

text \<open>The group that counts for an invitation: a battle group stands for the original group.\<close>

definition social_group :: "gworld \<Rightarrow> guid \<Rightarrow> nat option" where
  "social_group w p = (case GetGroup w p of None \<Rightarrow> None
     | Some g \<Rightarrow> if in_battle (groups w g) then GetOriginalGroup w p else Some g)"

definition can_be_invited :: "gworld \<Rightarrow> guid \<Rightarrow> bool" where
  "can_be_invited w p \<longleftrightarrow> m_groupInvite (players w p) = None \<and> social_group w p = None"

definition AddInvite :: "nat \<Rightarrow> guid \<Rightarrow> (gworld, geff) act" where
  "AddInvite g p = whenever (\<lambda>w. can_be_invited w p) (acts [
     RemoveInvite g p,
     on_group g (\<lambda>x. x\<lparr>m_invitees := p # m_invitees x\<rparr>),
     on_player p (\<lambda>q. q\<lparr>m_groupInvite := Some g\<rparr>),
     tell [Hook g (OnGroupInviteMember p)]])"

definition AddLeaderInvite :: "nat \<Rightarrow> guid \<Rightarrow> (gworld, geff) act" where
  "AddLeaderInvite g p = load (\<lambda>w. can_be_invited w p) (\<lambda>ok. acts [
     AddInvite g p,
     whenever (\<lambda>_. ok) (load (\<lambda>w. p_name (players w p)) (\<lambda>n.
       on_group g (\<lambda>x. x\<lparr>m_leaderGuid := p, m_leaderName := n\<rparr>)))])"

section \<open>Members\<close>

definition homebindIfInstance :: "genv \<Rightarrow> guid \<Rightarrow> (gworld, geff) act" where
  "homebindIfInstance e p = whenever (\<lambda>w. FindConnected w p \<and> \<not> game_master e p \<and> in_dungeon e p)
     (on_player p (\<lambda>q. q\<lparr>m_InstanceValid := False\<rparr>))"

definition cancelHomebindIfInstance :: "genv \<Rightarrow> guid \<Rightarrow> (gworld, geff) act" where
  "cancelHomebindIfInstance e p = whenever (\<lambda>w. in_dungeon e p \<and> bound_here e p)
     (on_player p (\<lambda>q. q\<lparr>m_InstanceValid := True\<rparr>))"

definition new_slot :: "gworld \<Rightarrow> guid \<Rightarrow> u8 \<Rightarrow> MemberSlot" where
  "new_slot w p sub = \<lparr>ms_guid = p, ms_name = p_name (players w p), ms_group = sub, ms_flags = 0, ms_roles = 0\<rparr>"

text \<open>The reference of the player: the group of a battle moves the one he has aside, a normal group is
  kept as the original one while he is in a group of a battle.\<close>

definition enter_group :: "nat \<Rightarrow> guid \<Rightarrow> u8 \<Rightarrow> (gworld, geff) act" where
  "enter_group g p sub = cond (\<lambda>w. GetGroup w p \<noteq> None)
     (cond (\<lambda>w. in_battle (groups w g))
        (SetBattlegroundOrBattlefieldRaid p g sub)
        (SetOriginalGroup p (Some g) sub))
     (SetGroup p (Some g) sub)"

definition take_difficulties :: "nat \<Rightarrow> guid \<Rightarrow> (gworld, geff) act" where
  "take_difficulties g p = load (\<lambda>w. (m_dungeonDifficulty (groups w g), m_raidDifficulty (groups w g))) (\<lambda>(d, r). acts [
     whenever (\<lambda>w. p_dungeon_difficulty (players w p) \<noteq> d)
       (acts [on_player p (\<lambda>q. q\<lparr>p_dungeon_difficulty := d\<rparr>), tell [Packet p (DUNGEON_DIFFICULTY d)]]),
     whenever (\<lambda>w. p_raid_difficulty (players w p) \<noteq> r)
       (acts [on_player p (\<lambda>q. q\<lparr>p_raid_difficulty := r\<rparr>), tell [Packet p (RAID_DIFFICULTY r)]])])"

definition exchange_fields :: "genv \<Rightarrow> nat \<Rightarrow> guid \<Rightarrow> gworld \<Rightarrow> geff list" where
  "exchange_fields e g p w =
     (let others = filter (\<lambda>q. q \<noteq> p) (map fst (m_memberMgr (groups w g))) in
      [FieldsTo q p. q \<leftarrow> others, at_client e q p] @ [FieldsFrom p (filter (at_client e p) others)])"

definition AddMember_body :: "genv \<Rightarrow> nat \<Rightarrow> guid \<Rightarrow> u8 \<Rightarrow> (gworld, geff) act" where
  "AddMember_body e g p sub = acts [
     load (\<lambda>w. new_slot w p sub) (\<lambda>m. on_group g (\<lambda>x. x\<lparr>m_memberSlots := m_memberSlots x @ [m]\<rparr>)),
     stored g (\<lambda>x. [CacheSetGroup p (m_guid x)]),
     SubGroupCounterIncrease g sub,
     on_player p (\<lambda>q. q\<lparr>m_groupInvite := None\<rparr>),
     enter_group g p sub,
     cancelHomebindIfInstance e p,
     unless (\<lambda>w. isRaidGroup (groups w g))
       (on_group g (\<lambda>x. x\<lparr>m_targetIcons := replicate TARGETICONCOUNT 0\<rparr>)),
     stored g (\<lambda>x. [Statement (CHAR_REP_GROUP_MEMBER (low_guid x) (GetCounter p) 0 sub 0)]),
     SendUpdate e g,
     tell [Hook g (OnGroupAddMember p)],
     cond (\<lambda>w. \<not> IsLeader p (groups w g) \<and> \<not> in_battle (groups w g))
       (acts [tell [ResetInstances p True], take_difficulties g p])
       (whenever (\<lambda>w. IsLeader p (groups w g) \<and> isLFGGroup False (groups w g)) (tell [ResetInstances p True])),
     tell [FullUpdateFlag p],
     emit (UpdatePlayerOutOfRange e g p),
     whenever (\<lambda>w. isRaidGroup (groups w g)) (tell [QuestObjects p]),
     emit (exchange_fields e g p),
     whenever (\<lambda>w. m_maxEnchantingLevel (groups w g) < enchanting e p)
       (on_group g (\<lambda>x. x\<lparr>m_maxEnchantingLevel := enchanting e p\<rparr>))]"

text \<open>The result is \<open>False\<close> when no subgroup of the raid has room.\<close>

definition AddMember :: "genv \<Rightarrow> nat \<Rightarrow> guid \<Rightarrow> (gworld, geff) act" where
  "AddMember e g p = load (\<lambda>w. free_subgroup (groups w g)) (\<lambda>sub. case sub of
     None \<Rightarrow> skip | Some sub \<Rightarrow> AddMember_body e g p sub)"

definition AddMember_result :: "nat \<Rightarrow> gworld \<Rightarrow> bool" where
  "AddMember_result g w \<longleftrightarrow> free_subgroup (groups w g) \<noteq> None"

section \<open>The leader\<close>

definition ToggleGroupMemberFlag :: "u8 \<Rightarrow> bool \<Rightarrow> MemberSlot \<Rightarrow> MemberSlot" where
  "ToggleGroupMemberFlag flag apply m =
     m\<lparr>ms_flags := (if apply then ms_flags m OR flag else ms_flags m AND NOT flag)\<rparr>"

definition ChangeLeader :: "genv \<Rightarrow> nat \<Rightarrow> guid \<Rightarrow> (gworld, geff) act" where
  "ChangeLeader e g p =
     unless (\<lambda>w. \<not> IsMember p (groups w g) \<or> \<not> FindConnected w p)
     (load (\<lambda>w. (m_leaderGuid (groups w g), p_name (players w p))) (\<lambda>(old, name). acts [
        stored g (\<lambda>x. [Statement (CHAR_UPD_GROUP_LEADER (GetCounter p) (low_guid x)), CopyBinds old p]),
        whenever (\<lambda>w. FindConnected w old) (on_player old (\<lambda>q. q\<lparr>p_leader_flag := False\<rparr>)),
        on_player p (\<lambda>q. q\<lparr>p_leader_flag := True\<rparr>),
        on_group g (\<lambda>x. (change_slot p (ToggleGroupMemberFlag MEMBER_FLAG_ASSISTANT False) x)
          \<lparr>m_leaderGuid := p, m_leaderName := name\<rparr>),
        load (\<lambda>w. case getMemberSlot p (groups w g) of None \<Rightarrow> name | Some i \<Rightarrow> ms_name (m_memberSlots (groups w g) ! i))
          (\<lambda>n. emit (BroadcastPacket g (SMSG_GROUP_SET_LEADER n) True None 0)),
        emit (\<lambda>w. [Hook g (OnGroupChangeLeader p (m_leaderGuid (groups w g)))])]))"

definition ResetMaxEnchantingLevel :: "genv \<Rightarrow> nat \<Rightarrow> (gworld, geff) act" where
  "ResetMaxEnchantingLevel e g = upd (\<lambda>w. set_group g (\<lambda>x. x\<lparr>m_maxEnchantingLevel :=
     fold (\<lambda>m l. if FindInWorld w (ms_guid m) \<and> \<not> socket_closed e (ms_guid m) \<and> l < enchanting e (ms_guid m)
                  then enchanting e (ms_guid m) else l) (m_memberSlots x) 0\<rparr>) w)"

section \<open>The end of a group\<close>

text \<open>The destructor: a battleground forgets its raid, the rolls are freed, and the list of references
  cuts those that are left.\<close>

definition destroy_group :: "nat \<Rightarrow> (gworld, geff) act" where
  "destroy_group g = load (\<lambda>w. groups w g) (\<lambda>x. acts [
     tell [Hook g OnDestructGroup],
     tell (case m_bgGroup x of None \<Rightarrow> [] | Some b \<Rightarrow> [DropBgRaid b g]),
     each (\<lambda>(p, k). on_player p (change_ref k (\<lambda>r. r\<lparr>ref_to := None\<rparr>))) (m_memberMgr x),
     on_group g (\<lambda>x. x\<lparr>g_alive := False, g_rolls := [], m_memberMgr := [], m_subGroupsCounts := None\<rparr>)])"

definition leave_reference :: "nat \<Rightarrow> guid \<Rightarrow> (gworld, geff) act" where
  "leave_reference g p = cond (\<lambda>w. in_battle (groups w g))
     (RemoveFromBattlegroundOrBattlefieldRaid p)
     (cond (\<lambda>w. GetOriginalGroup w p = Some g) (SetOriginalGroup p None 0) (SetGroup p None 0))"

definition disband_member :: "genv \<Rightarrow> nat \<Rightarrow> bool \<Rightarrow> guid \<Rightarrow> (gworld, geff) act" where
  "disband_member e g hideDestroy p = acts [
     stored g (\<lambda>_. [CacheClearGroup p]),
     homebindIfInstance e p,
     stored g (\<lambda>_. [ResetInstances p False]),
     whenever (\<lambda>w. FindConnected w p) (acts [
       leave_reference g p,
       whenever (\<lambda>w. isRaidGroup (groups w g)) (tell [QuestObjects p]),
       tell (if hideDestroy then [] else [Packet p SMSG_GROUP_DESTROYED]),
       load (\<lambda>w. GetGroup w p) (\<lambda>other. case other of
         Some o' \<Rightarrow> SendUpdate e o'
       | None \<Rightarrow> emit (\<lambda>w. [Packet p (SMSG_GROUP_LIST_LEFT (m_guid (groups w g)) (m_counter (groups w g)))]))])]"

text \<open>The instance whose data is deleted: that of the first connected member who is in one.\<close>

definition disband_instance :: "genv \<Rightarrow> nat \<Rightarrow> gworld \<Rightarrow> u32" where
  "disband_instance e g w = (if in_battle (groups w g) then 0 else
     case find (\<lambda>m. FindConnected w (ms_guid m) \<and> instance_id e (ms_guid m) \<noteq> 0) (m_memberSlots (groups w g)) of
       None \<Rightarrow> 0 | Some m \<Rightarrow> instance_id e (ms_guid m))"

definition RemoveGroup :: "nat \<Rightarrow> gworld \<Rightarrow> gworld" where
  "RemoveGroup g w = w\<lparr>GroupStore := om_erase (low_guid (groups w g)) (GroupStore w)\<rparr>"

definition Disband :: "genv \<Rightarrow> nat \<Rightarrow> bool \<Rightarrow> (gworld, geff) act" where
  "Disband e g hideDestroy = load (disband_instance e g) (\<lambda>inst. acts [
     tell [Hook g OnGroupDisband],
     load (\<lambda>w. m_memberSlots (groups w g)) (each (\<lambda>m. disband_member e g hideDestroy (ms_guid m))),
     on_group g (\<lambda>x. x\<lparr>g_rolls := [], m_memberSlots := []\<rparr>),
     RemoveAllInvites g,
     stored g (\<lambda>x. [Statement (CHAR_DEL_GROUP (low_guid x)), Statement (CHAR_DEL_GROUP_MEMBER_ALL (low_guid x)),
                    Statement (CHAR_DEL_LFG_DATA (low_guid x))]),
     tell [DeleteInstanceData inst],
     upd (RemoveGroup g),
     destroy_group g])"

section \<open>Removing a member\<close>

text \<open>The rolls of the group, run in the state of the theory \<open>LootRoll\<close>.\<close>

definition rollenv_of :: "genv \<Rightarrow> gworld \<Rightarrow> rollenv" where
  "rollenv_of e w = (roll_env e)\<lparr>connected := FindConnected w,
     in_map := (\<lambda>p. if FindInWorld w p then in_map (roll_env e) p else None)\<rparr>"

definition with_rolls :: "nat \<Rightarrow> (lootsys, reff) act \<Rightarrow> (gworld, geff) act" where
  "with_rolls g a w = (let r = a \<lparr>RollId = g_rolls (groups w g), Loots = g_loots w, item_counter = g_item_counter w\<rparr> in
     ((set_group g (\<lambda>x. x\<lparr>g_rolls := RollId (fst r)\<rparr>) w)\<lparr>g_loots := Loots (fst r), g_item_counter := item_counter (fst r)\<rparr>,
      map RollEffect (snd r)))"

definition leave_packets :: "RemoveMethod \<Rightarrow> nat \<Rightarrow> guid \<Rightarrow> gworld \<Rightarrow> geff list" where
  "leave_packets method g p w =
     (if method = REMOVE_KICK \<or> method = REMOVE_KICK_LFG then [Packet p SMSG_GROUP_UNINVITE] else []) @
     [Packet p (SMSG_GROUP_LIST_LEFT (m_guid (groups w g)) (m_counter (groups w g)))]"

definition drop_slot :: "nat \<Rightarrow> guid \<Rightarrow> (gworld, geff) act" where
  "drop_slot g p = load (\<lambda>w. getMemberSlot p (groups w g)) (\<lambda>i. case i of None \<Rightarrow> skip
   | Some i \<Rightarrow> acts [
       load (\<lambda>w. ms_group (m_memberSlots (groups w g) ! i)) (SubGroupCounterDecrease g),
       on_group g (\<lambda>x. x\<lparr>m_memberSlots := take i (m_memberSlots x) @ drop (Suc i) (m_memberSlots x)\<rparr>),
       stored g (\<lambda>_. [CacheClearGroup p])])"

definition next_leader :: "gworld \<Rightarrow> group \<Rightarrow> guid option" where
  "next_leader w x = map_option ms_guid (find (\<lambda>m. FindConnected w (ms_guid m)) (m_memberSlots x))"

definition lone_lfg_member :: "genv \<Rightarrow> nat \<Rightarrow> gworld \<Rightarrow> bool" where
  "lone_lfg_member e g w = (let x = groups w g; leader = m_leaderGuid x; mapId = lfg_map e (m_guid x) in
     isLFGGroup False x \<and> GetMembersCount x = 1 \<and>
     (mapId = 0 \<or> \<not> FindConnected w leader \<or> player_alive e leader \<and> map_of_player e leader \<noteq> mapId \<or>
      lfg_state e (m_guid x) = 0))"

definition min_size :: "group \<Rightarrow> nat" where
  "min_size x = (if isBGGroup x \<or> isLFGGroup False x \<or> isBFGroup x then 1 else 2)"

definition RemoveMember_body :: "genv \<Rightarrow> nat \<Rightarrow> guid \<Rightarrow> RemoveMethod \<Rightarrow> guid \<Rightarrow> string \<Rightarrow> (gworld, geff) act" where
  "RemoveMember_body e g p method kicker reason = acts [
     whenever (\<lambda>w. FindConnected w p) (acts [
       load (\<lambda>w. in_battle (groups w g)) (\<lambda>battle. acts [
         leave_reference g p, tell (if battle then [] else [QuestObjects p])]),
       emit (leave_packets method g p)]),
     stored g (\<lambda>x. [Statement (CHAR_DEL_GROUP_MEMBER (GetCounter p) (low_guid x))]),
     load (rollenv_of e) (\<lambda>env. with_rolls g (leave_rolls env p 0)),
     drop_slot g p,
     whenever (\<lambda>w. \<not> FindConnected w p \<or> enchanting e p \<noteq> 0) (ResetMaxEnchantingLevel e g),
     whenever (\<lambda>w. m_leaderGuid (groups w g) = p)
       (load (\<lambda>w. next_leader w (groups w g)) (\<lambda>n. case n of None \<Rightarrow> skip | Some n \<Rightarrow> ChangeLeader e g n)),
     homebindIfInstance e p,
     stored g (\<lambda>_. [ResetInstances p False]),
     tell [Hook g (OnGroupRemoveMember p method kicker reason)],
     SendUpdate e g,
     cond (lone_lfg_member e g) (Disband e g False)
       (whenever (\<lambda>w. length (m_memberMgr (groups w g)) < min_size (groups w g)) (Disband e g False))]"

definition RemoveMember :: "genv \<Rightarrow> nat \<Rightarrow> guid \<Rightarrow> RemoveMethod \<Rightarrow> guid \<Rightarrow> string \<Rightarrow> (gworld, geff) act" where
  "RemoveMember e g p method kicker reason = acts [
     emit (BroadcastGroupUpdate g),
     cond (\<lambda>w. isLFGGroup True (groups w g) \<and> method = REMOVE_KICK)
       (emit (\<lambda>w. [LfgInitBoot (m_guid (groups w g)) kicker p reason]))
       (cond (\<lambda>w. GetMembersCount (groups w g) > min_size (groups w g))
          (RemoveMember_body e g p method kicker reason)
          (acts [tell [Hook g (OnGroupRemoveMember p method kicker reason)], Disband e g False]))]"

end
