(* ===== verification/GroupAdmin.thy ===== *)
theory GroupAdmin
  imports Group
begin

text \<open>
  Founding and loading a group, its kind, icons, flags, subgroups, the round robin looter and the
  difficulties (\<open>Group.cpp\<close>), and the identifiers and the store of the groups (\<open>GroupMgr.cpp\<close>).
\<close>

section \<open>The identifiers of groups\<close>

definition InitGroupIds :: "u32 option \<Rightarrow> gworld \<Rightarrow> gworld" where
  "InitGroupIds maxId w = w\<lparr>nextGroupId := 1,
     group_ids := (case maxId of None \<Rightarrow> group_ids w
       | Some n \<Rightarrow> (let len = unat (n + 1) in take len (group_ids w) @ replicate (len - length (group_ids w)) False))\<rparr>"

definition RegisterGroupId :: "u32 \<Rightarrow> gworld \<Rightarrow> gworld" where
  "RegisterGroupId i w = w\<lparr>group_ids := (group_ids w)[unat i := True],
     nextGroupId := (if nextGroupId w = i then nextGroupId w + 1 else nextGroupId w)\<rparr>"

function (sequential) next_free :: "bool list \<Rightarrow> u32 \<Rightarrow> u32" where
  "next_free ids n =
     (if n < 0xFFFFFFFF
      then (if unat (n + 1) < length ids \<and> ids ! unat (n + 1) then next_free ids (n + 1) else n + 1)
      else n)"
  by pat_completeness auto
termination
proof (relation "measure (\<lambda>(ids, n). 0xFFFFFFFF - unat n)")
  fix ids and n :: u32
  assume "n < 0xFFFFFFFF"
  then have "unat n < 0xFFFFFFFF" by (simp add: word_less_nat_alt)
  then show "((ids, n + 1), ids, n) \<in> measure (\<lambda>(ids, n). 0xFFFFFFFF - unat n)"
    by (simp add: unat_word_ariths)
qed simp

declare next_free.simps [simp del]

definition GenerateGroupId :: "(gworld, geff) act" where
  "GenerateGroupId w = (let n = next_free (group_ids w) (nextGroupId w) in
     (w\<lparr>nextGroupId := n\<rparr>, if n = 0xFFFFFFFF then [StopWorld] else []))"

definition AddGroup :: "nat \<Rightarrow> gworld \<Rightarrow> gworld" where
  "AddGroup g w = w\<lparr>GroupStore := om_assign (low_guid (groups w g)) g (GroupStore w)\<rparr>"

definition GetGroupByGUID :: "u32 \<Rightarrow> gworld \<Rightarrow> nat option" where
  "GetGroupByGUID i w = map_of (GroupStore w) i"

section \<open>Founding a group\<close>

text \<open>\<open>new Group\<close> at the address \<open>g\<close>.\<close>

definition construct_group :: "nat \<Rightarrow> u8 \<Rightarrow> (gworld, geff) act" where
  "construct_group g lfg = acts [on_group g (\<lambda>_. new_group lfg), tell [Hook g OnConstructGroup]]"

definition found_group :: "guid \<Rightarrow> u32 \<Rightarrow> string \<Rightarrow> group \<Rightarrow> group" where
  "found_group p low name x =
     (let t = (if in_battle x then GROUPTYPE_BGRAID else m_groupType x);
          x1 = x\<lparr>m_guid := guid_plain HG_Group low, m_leaderGuid := p, m_leaderName := name, m_groupType := t\<rparr>;
          x2 = (if t AND GROUPTYPE_RAID \<noteq> 0 then initRaidSubGroupsCounter x1 else x1)
      in x2\<lparr>m_lootMethod := (if isLFGGroup False x2 then m_lootMethod x2 else GROUP_LOOT),
            m_lootThreshold := ITEM_QUALITY_UNCOMMON, m_looterGuid := p, m_masterLooterGuid := 0,
            m_dungeonDifficulty := 0, m_raidDifficulty := 0\<rparr>)"

definition insert_statement :: "group \<Rightarrow> gstmt" where
  "insert_statement x = CHAR_INS_GROUP (low_guid x) (GetCounter (m_leaderGuid x)) (m_lootMethod x)
     (GetCounter (m_looterGuid x)) (ucast (m_lootThreshold x)) (m_targetIcons x) (m_groupType x)
     (m_dungeonDifficulty x) (m_raidDifficulty x) (GetCounter (m_masterLooterGuid x))"

text \<open>The leader of a group that is stored must fit in: that is asserted. The result of \<open>Create\<close> is
  \<open>False\<close> only for a group of a battle.\<close>

definition Create :: "genv \<Rightarrow> nat \<Rightarrow> guid \<Rightarrow> (gworld, geff) act" where
  "Create e g p = load (\<lambda>w. (nextGroupId w, p_name (players w p))) (\<lambda>(low, name). acts [
     GenerateGroupId,
     on_player p (\<lambda>q. q\<lparr>p_leader_flag := True\<rparr>),
     on_group g (found_group p low name),
     whenever (\<lambda>w. \<not> in_battle (groups w g))
       (load (\<lambda>w. (p_dungeon_difficulty (players w p), p_raid_difficulty (players w p))) (\<lambda>(d, r).
          on_group g (\<lambda>x. x\<lparr>m_dungeonDifficulty := d, m_raidDifficulty := r\<rparr>))),
     stored g (\<lambda>x. [Statement (insert_statement x)]),
     load (AddMember_result g) (\<lambda>ok. acts [
       AddMember e g p,
       stored g (\<lambda>_. if ok then [Hook g (OnCreate p)] else [AssertFailed])])])"

section \<open>Groups of a battle\<close>

definition SetBattlegroundGroup :: "nat option \<Rightarrow> group \<Rightarrow> group" where
  "SetBattlegroundGroup b x = x\<lparr>m_bgGroup := b\<rparr>"

definition SetBattlefieldGroup :: "nat option \<Rightarrow> group \<Rightarrow> group" where
  "SetBattlefieldGroup b x = x\<lparr>m_bfGroup := b\<rparr>"

definition in_battle_group :: "gworld \<Rightarrow> guid \<Rightarrow> bool" where
  "in_battle_group w p \<longleftrightarrow> (case GetGroup w p of None \<Rightarrow> False | Some g \<Rightarrow> in_battle (groups w g))"

text \<open>A player enters the battleground \<open>b\<close>, whose raid for his side is \<open>raid\<close>; \<open>a\<close> is the address of
  a new group. The leader of a normal group takes the lead.\<close>

definition AddOrSetPlayerToCorrectBgGroup :: "genv \<Rightarrow> nat \<Rightarrow> u8 \<Rightarrow> nat \<Rightarrow> nat option \<Rightarrow> guid \<Rightarrow> (gworld, geff) act" where
  "AddOrSetPlayerToCorrectBgGroup e a lfg b raid p = unless (\<lambda>w. in_battle_group w p) (case raid of
     None \<Rightarrow> acts [construct_group a lfg, tell [SetBgRaid b a], on_group a (SetBattlegroundGroup (Some b)),
                   Create e a p, upd (AddGroup a)]
   | Some g \<Rightarrow> cond (\<lambda>w. IsMember p (groups w g))
       (load (\<lambda>w. GetMemberGroup p (groups w g)) (SetBattlegroundOrBattlefieldRaid p g))
       (acts [AddMember e g p,
          whenever (\<lambda>w. case GetOriginalGroup w p of None \<Rightarrow> False | Some h \<Rightarrow> IsLeader p (groups w h))
            (acts [ChangeLeader e g p, SendUpdate e g])]))"

text \<open>The same for a battlefield; \<open>raid\<close> is a raid of it that has room.\<close>

definition AddOrSetPlayerToCorrectBfGroup :: "genv \<Rightarrow> nat \<Rightarrow> u8 \<Rightarrow> nat \<Rightarrow> nat option \<Rightarrow> guid \<Rightarrow> (gworld, geff) act" where
  "AddOrSetPlayerToCorrectBfGroup e a lfg b raid p =
     unless (\<lambda>w. \<not> p_in_world (players w p) \<or> in_battle_group w p) (case raid of
     None \<Rightarrow> acts [construct_group a lfg, on_group a (SetBattlefieldGroup (Some b)),
                   Create e a p, upd (AddGroup a), emit (\<lambda>w. [SetBfRaid b (m_guid (groups w a))])]
   | Some g \<Rightarrow> cond (\<lambda>w. IsMember p (groups w g))
       (load (\<lambda>w. GetMemberGroup p (groups w g)) (SetBattlegroundOrBattlefieldRaid p g))
       (AddMember e g p))"

section \<open>Loading\<close>

record group_row =
  row_leader :: u32
  row_lootMethod :: u8
  row_looter :: u32
  row_threshold :: u8
  row_icons :: "guid list"
  row_type :: u8
  row_difficulty :: u8
  row_raidDifficulty :: u8
  row_masterLooter :: u32
  row_guid :: u32

definition load_group :: "group_row \<Rightarrow> string \<Rightarrow> group \<Rightarrow> group" where
  "load_group row name x =
     (let x1 = x\<lparr>m_leaderName := name, m_lootMethod := row_lootMethod row,
          m_looterGuid := guid_plain HG_Player (row_looter row), m_lootThreshold := ucast (row_threshold row),
          m_targetIcons := row_icons row, m_groupType := row_type row\<rparr>;
          x2 = (if row_type row AND GROUPTYPE_RAID \<noteq> 0 then initRaidSubGroupsCounter x1 else x1)
      in x2\<lparr>m_dungeonDifficulty := (if row_difficulty row \<ge> 3 then 0 else row_difficulty row),
            m_raidDifficulty := (if row_raidDifficulty row \<ge> 4 then 0 else row_raidDifficulty row),
            m_masterLooterGuid := guid_plain HG_Player (row_masterLooter row)\<rparr>)"

definition LoadGroupFromDB_result :: "genv \<Rightarrow> group_row \<Rightarrow> bool" where
  "LoadGroupFromDB_result e row \<longleftrightarrow> cache_name e (guid_plain HG_Player (row_leader row)) \<noteq> None"

definition LoadGroupFromDB :: "genv \<Rightarrow> nat \<Rightarrow> group_row \<Rightarrow> (gworld, geff) act" where
  "LoadGroupFromDB e g row = acts [
     on_group g (\<lambda>x. x\<lparr>m_guid := guid_plain HG_Group (row_guid row),
        m_leaderGuid := guid_plain HG_Player (row_leader row)\<rparr>),
     (case cache_name e (guid_plain HG_Player (row_leader row)) of
        None \<Rightarrow> tell [Statement (CHAR_DEL_GROUP (row_guid row)), Statement (CHAR_DEL_GROUP_MEMBER_ALL (row_guid row)),
                      Statement (CHAR_DEL_LFG_DATA (row_guid row))]
      | Some name \<Rightarrow> acts [
          on_group g (load_group row name),
          emit (\<lambda>w. if m_groupType (groups w g) AND GROUPTYPE_LFG \<noteq> 0 then [LfgLoad (m_guid (groups w g))] else [])])]"

definition LoadMemberFromDB :: "genv \<Rightarrow> nat \<Rightarrow> u32 \<Rightarrow> u8 \<Rightarrow> u8 \<Rightarrow> u8 \<Rightarrow> (gworld, geff) act" where
  "LoadMemberFromDB e g low flags sub roles = (let p = guid_plain HG_Player low in
     case cache_name e p of
       None \<Rightarrow> emit (\<lambda>w. [Statement (CHAR_DEL_GROUP_MEMBER low (low_guid (groups w g)))])
     | Some name \<Rightarrow> acts [
         on_group g (\<lambda>x. x\<lparr>m_memberSlots := m_memberSlots x @
           [\<lparr>ms_guid = p, ms_name = name, ms_group = sub, ms_flags = flags, ms_roles = roles\<rparr>]\<rparr>),
         stored g (\<lambda>x. [CacheSetGroup p (m_guid x)]),
         SubGroupCounterIncrease g sub,
         emit (\<lambda>w. [LfgSetupMember p (m_guid (groups w g))])])"

definition load_group_row :: "genv \<Rightarrow> nat \<Rightarrow> u8 \<Rightarrow> group_row \<Rightarrow> (gworld, geff) act" where
  "load_group_row e g lfg row = acts [
     construct_group g lfg,
     LoadGroupFromDB e g row,
     (if LoadGroupFromDB_result e row
      then acts [upd (AddGroup g), load (\<lambda>w. low_guid (groups w g)) (\<lambda>i. upd (RegisterGroupId i))]
      else destroy_group g)]"

definition load_member_row :: "genv \<Rightarrow> u32 \<times> u32 \<times> u8 \<times> u8 \<times> u8 \<Rightarrow> (gworld, geff) act" where
  "load_member_row e = (\<lambda>(gid, low, flags, sub, roles). load (GetGroupByGUID gid) (\<lambda>g. case g of
     None \<Rightarrow> skip | Some g \<Rightarrow> LoadMemberFromDB e g low flags sub roles))"

text \<open>The tables are read in order of the group identifier; \<open>addr\<close> gives the addresses of the new objects.\<close>

definition LoadGroups :: "genv \<Rightarrow> u32 option \<Rightarrow> (nat \<times> u8 \<times> group_row) list \<Rightarrow> (u32 \<times> u32 \<times> u8 \<times> u8 \<times> u8) list \<Rightarrow> (gworld, geff) act" where
  "LoadGroups e maxId rows members = acts [
     upd (InitGroupIds maxId),
     each (\<lambda>(g, lfg, row). load_group_row e g lfg row) rows,
     each (load_member_row e) members]"

text \<open>A player who logs in takes up the reference to the group the cache names.\<close>

definition LoadGroup_login :: "u32 \<Rightarrow> guid \<Rightarrow> (gworld, geff) act" where
  "LoadGroup_login gid p = acts [
     load (\<lambda>w. if gid = 0 then None else GetGroupByGUID gid w) (\<lambda>g. case g of None \<Rightarrow> skip
      | Some g \<Rightarrow> load (\<lambda>w. GetMemberGroup p (groups w g)) (\<lambda>sub.
          whenever (\<lambda>_. unat sub \<le> MAX_RAID_SUBGROUPS) (acts [
            whenever (\<lambda>w. IsLeader p (groups w g)) (on_player p (\<lambda>q. q\<lparr>p_leader_flag := True\<rparr>)),
            SetGroup p (Some g) sub,
            load (\<lambda>w. (m_dungeonDifficulty (groups w g), m_raidDifficulty (groups w g))) (\<lambda>(d, r).
              on_player p (\<lambda>q. q\<lparr>p_dungeon_difficulty := d, p_raid_difficulty := r\<rparr>))]))),
     whenever (\<lambda>w. case GetGroup w p of None \<Rightarrow> True | Some g \<Rightarrow> \<not> IsLeader p (groups w g))
       (on_player p (\<lambda>q. q\<lparr>p_leader_flag := False\<rparr>))]"

section \<open>The kind of the group\<close>

definition ConvertToLFG :: "genv \<Rightarrow> nat \<Rightarrow> bool \<Rightarrow> (gworld, geff) act" where
  "ConvertToLFG e g restricted = acts [
     on_group g (\<lambda>x. let y = x\<lparr>m_groupType := m_groupType x OR GROUPTYPE_LFG\<rparr> in
       if restricted then y\<lparr>m_groupType := m_groupType y OR GROUPTYPE_LFG_RESTRICTED, m_lootMethod := NEED_BEFORE_GREED\<rparr>
       else y),
     stored g (\<lambda>x. [Statement (CHAR_UPD_GROUP_TYPE (m_groupType x) (low_guid x))]),
     SendUpdate e g]"

definition CheckLevelForRaid :: "genv \<Rightarrow> gworld \<Rightarrow> group \<Rightarrow> bool" where
  "CheckLevelForRaid e w x =
     list_ex (\<lambda>m. FindInWorld w (ms_guid m) \<and> uint (player_level e (ms_guid m)) < raid_level e) (m_memberSlots x)"

definition ConvertToRaid :: "genv \<Rightarrow> nat \<Rightarrow> (gworld, geff) act" where
  "ConvertToRaid e g = acts [
     on_group g (\<lambda>x. initRaidSubGroupsCounter (x\<lparr>m_groupType := m_groupType x OR GROUPTYPE_RAID\<rparr>)),
     stored g (\<lambda>x. [Statement (CHAR_UPD_GROUP_TYPE (m_groupType x) (low_guid x))]),
     SendUpdate e g,
     emit (\<lambda>w. [QuestObjects (ms_guid m). m \<leftarrow> m_memberSlots (groups w g), FindInWorld w (ms_guid m)]),
     emit (\<lambda>w. if lfg_state e (m_leaderGuid (groups w g)) = 7 then [LfgLeave (m_leaderGuid (groups w g))] else [])]"

section \<open>Target icons\<close>

text \<open>\<open>SetTargetIcon\<close> calls itself with an empty target, which clears nothing further.\<close>

definition set_icon :: "nat \<Rightarrow> nat \<Rightarrow> guid \<Rightarrow> guid \<Rightarrow> (gworld, geff) act" where
  "set_icon g i who target = acts [
     on_group g (\<lambda>x. x\<lparr>m_targetIcons := (m_targetIcons x)[i := target]\<rparr>),
     emit (BroadcastPacket g (RAID_TARGET_SET who (of_nat i) target) True None 0)]"

definition SetTargetIcon :: "nat \<Rightarrow> u8 \<Rightarrow> guid \<Rightarrow> guid \<Rightarrow> (gworld, geff) act" where
  "SetTargetIcon g i who target = (if unat i \<ge> TARGETICONCOUNT then skip else acts [
     (if target \<noteq> 0
      then each (\<lambda>k. whenever (\<lambda>w. m_targetIcons (groups w g) ! k = target) (set_icon g k 0 0)) [0..<TARGETICONCOUNT]
      else skip),
     set_icon g (unat i) who target])"

section \<open>Flags and subgroups\<close>

definition RemoveUniqueGroupMemberFlag :: "u8 \<Rightarrow> group \<Rightarrow> group" where
  "RemoveUniqueGroupMemberFlag flag x = x\<lparr>m_memberSlots :=
     map (\<lambda>m. if ms_flags m AND flag \<noteq> 0 then m\<lparr>ms_flags := ms_flags m AND NOT flag\<rparr> else m) (m_memberSlots x)\<rparr>"

definition SetGroupMemberFlag :: "genv \<Rightarrow> nat \<Rightarrow> guid \<Rightarrow> bool \<Rightarrow> u8 \<Rightarrow> (gworld, geff) act" where
  "SetGroupMemberFlag e g p apply flag =
     unless (\<lambda>w. \<not> isRaidGroup (groups w g) \<or> \<not> IsMember p (groups w g) \<or>
        flag \<notin> {MEMBER_FLAG_MAINASSIST, MEMBER_FLAG_MAINTANK, MEMBER_FLAG_ASSISTANT})
     (acts [
       (if flag = MEMBER_FLAG_MAINASSIST \<or> flag = MEMBER_FLAG_MAINTANK
        then on_group g (RemoveUniqueGroupMemberFlag flag) else skip),
       on_group g (change_slot p (ToggleGroupMemberFlag flag apply)),
       emit (\<lambda>w. [Statement (CHAR_UPD_GROUP_MEMBER_FLAG
          (case getMemberSlot p (groups w g) of None \<Rightarrow> 0 | Some i \<Rightarrow> ms_flags (m_memberSlots (groups w g) ! i)) (GetCounter p))]),
       SendUpdate e g])"

definition ChangeMembersGroup :: "genv \<Rightarrow> nat \<Rightarrow> guid \<Rightarrow> u8 \<Rightarrow> (gworld, geff) act" where
  "ChangeMembersGroup e g p sub =
     unless (\<lambda>w. \<not> isRaidGroup (groups w g) \<or> \<not> IsMember p (groups w g) \<or> GetMemberGroup p (groups w g) = sub)
     (load (\<lambda>w. GetMemberGroup p (groups w g)) (\<lambda>prev. acts [
        on_group g (change_slot p (\<lambda>m. m\<lparr>ms_group := sub\<rparr>)),
        SubGroupCounterIncrease g sub,
        SubGroupCounterDecrease g prev,
        stored g (\<lambda>_. [Statement (CHAR_UPD_GROUP_MEMBER_SUBGROUP sub (GetCounter p))]),
        whenever (\<lambda>w. FindConnected w p) (cond (\<lambda>w. GetGroup w p = Some g)
          (upd (setSubGroup p MainRef sub)) (upd (setSubGroup p OriginalRef sub))),
        SendUpdate e g]))"

definition SetLfgRoles :: "genv \<Rightarrow> nat \<Rightarrow> guid \<Rightarrow> u8 \<Rightarrow> (gworld, geff) act" where
  "SetLfgRoles e g p roles = whenever (\<lambda>w. IsMember p (groups w g)) (acts [
     on_group g (change_slot p (\<lambda>m. m\<lparr>ms_roles := roles\<rparr>)), SendUpdate e g])"

section \<open>The looter\<close>

text \<open>The members in the order the turn goes round: those behind the current looter, then those up to and
  including him; all of them when the looter is no member.\<close>

definition search_order :: "nat option \<Rightarrow> 'a list \<Rightarrow> 'a list" where
  "search_order i xs = (case i of None \<Rightarrow> xs | Some i \<Rightarrow> drop (Suc i) xs @ take (Suc i) xs)"

definition may_loot :: "gworld \<Rightarrow> (guid \<Rightarrow> bool) \<Rightarrow> guid \<Rightarrow> bool" where
  "may_loot w close_by p \<longleftrightarrow> FindInWorld w p \<and> close_by p"

definition UpdateLooterGuid :: "genv \<Rightarrow> nat \<Rightarrow> (guid \<Rightarrow> bool) \<Rightarrow> bool \<Rightarrow> (gworld, geff) act" where
  "UpdateLooterGuid e g close_by ifneed =
     unless (\<lambda>w. m_lootMethod (groups w g) = FREE_FOR_ALL)
     (load (\<lambda>w. (m_looterGuid (groups w g), getMemberSlot (m_looterGuid (groups w g)) (groups w g)))
      (\<lambda>(old, i).
       unless (\<lambda>w. i \<noteq> None \<and> ifneed \<and> may_loot w close_by old)
       (load (\<lambda>w. find (\<lambda>m. may_loot w close_by (ms_guid m)) (search_order i (m_memberSlots (groups w g))))
        (\<lambda>m. case m of
           Some m \<Rightarrow> if old \<noteq> ms_guid m
             then acts [on_group g (\<lambda>x. x\<lparr>m_looterGuid := ms_guid m\<rparr>), SendUpdate e g] else skip
         | None \<Rightarrow> acts [on_group g (\<lambda>x. x\<lparr>m_looterGuid := 0\<rparr>), SendUpdate e g]))))"

section \<open>Difficulties and settings\<close>

definition SetDungeonDifficulty :: "nat \<Rightarrow> u8 \<Rightarrow> (gworld, geff) act" where
  "SetDungeonDifficulty g d = acts [
     on_group g (\<lambda>x. x\<lparr>m_dungeonDifficulty := d\<rparr>),
     stored g (\<lambda>x. [Statement (CHAR_UPD_GROUP_DIFFICULTY d (low_guid x))]),
     load (\<lambda>w. m_memberMgr (groups w g)) (each (\<lambda>(p, k). acts [
       on_player p (\<lambda>q. q\<lparr>p_dungeon_difficulty := d\<rparr>), tell [Packet p (DUNGEON_DIFFICULTY d)]]))]"

definition SetRaidDifficulty :: "nat \<Rightarrow> u8 \<Rightarrow> (gworld, geff) act" where
  "SetRaidDifficulty g d = acts [
     on_group g (\<lambda>x. x\<lparr>m_raidDifficulty := d\<rparr>),
     stored g (\<lambda>x. [Statement (CHAR_UPD_GROUP_RAID_DIFFICULTY d (low_guid x))]),
     load (\<lambda>w. m_memberMgr (groups w g)) (each (\<lambda>(p, k). acts [
       on_player p (\<lambda>q. q\<lparr>p_raid_difficulty := d\<rparr>), tell [Packet p (RAID_DIFFICULTY d)]]))]"

definition SetLootMethod :: "u8 \<Rightarrow> group \<Rightarrow> group" where
  "SetLootMethod method x = x\<lparr>m_lootMethod := method\<rparr>"

definition SetMasterLooterGuid :: "guid \<Rightarrow> group \<Rightarrow> group" where
  "SetMasterLooterGuid p x = x\<lparr>m_masterLooterGuid := p\<rparr>"

definition SetLootThreshold :: "u32 \<Rightarrow> group \<Rightarrow> group" where
  "SetLootThreshold t x = x\<lparr>m_lootThreshold := t\<rparr>"

definition GetDifficultyChangePreventionTime :: "genv \<Rightarrow> group \<Rightarrow> u32" where
  "GetDifficultyChangePreventionTime e x =
     (if difficultyChangePreventionTime x > game_time e then difficultyChangePreventionTime x - game_time e else 0)"

definition SetDifficultyChangePrevention :: "genv \<Rightarrow> u8 \<Rightarrow> group \<Rightarrow> group" where
  "SetDifficultyChangePrevention e t x =
     x\<lparr>difficultyChangePreventionTime := game_time e + 60, difficultyChangePreventionType := t\<rparr>"

definition AddLfgFlag :: "u8 \<Rightarrow> group \<Rightarrow> group" where
  "AddLfgFlag f x = x\<lparr>m_lfgGroupFlags := m_lfgGroupFlags x OR f\<rparr>"

definition IsLfgWith :: "u8 \<Rightarrow> group \<Rightarrow> bool" where
  "IsLfgWith f x \<longleftrightarrow> isLFGGroup False x \<and> m_lfgGroupFlags x AND f \<noteq> 0"

end
