(* ===== verification/GroupHandler.thy ===== *)
theory GroupHandler
  imports GroupAdmin TextUtil
begin

text \<open>
  The packets of a client that concern its group (\<open>src/src/server/game/Handlers/GroupHandler.cpp\<close>),
  the invitations withdrawn (\<open>Player::UninviteFromGroup\<close>), who may remove a member
  (\<open>Player::CanUninviteFromGroup\<close>), and the group at logout and when a character is deleted. \<open>p\<close> is
  the player of the session; what other systems say of players is a record \<open>partyenv\<close>.
\<close>

section \<open>Results\<close>

definition PARTY_OP_INVITE :: u32 where "PARTY_OP_INVITE = 0"
definition PARTY_OP_UNINVITE :: u32 where "PARTY_OP_UNINVITE = 1"
definition PARTY_OP_LEAVE :: u32 where "PARTY_OP_LEAVE = 2"
definition PARTY_OP_SWAP :: u32 where "PARTY_OP_SWAP = 4"

datatype PartyResult = ERR_PARTY_RESULT_OK
  | ERR_BAD_PLAYER_NAME_S | ERR_TARGET_NOT_IN_GROUP_S | ERR_TARGET_NOT_IN_INSTANCE_S | ERR_GROUP_FULL
  | ERR_ALREADY_IN_GROUP_S | ERR_NOT_IN_GROUP | ERR_NOT_LEADER | ERR_PLAYER_WRONG_FACTION
  | ERR_IGNORING_YOU_S | ERR_LFG_PENDING | ERR_INVITE_RESTRICTED | ERR_GROUP_SWAP_FAILED
  | ERR_INVITE_UNKNOWN_REALM | ERR_INVITE_NO_PARTY_SERVER | ERR_INVITE_PARTY_BUSY
  | ERR_PARTY_TARGET_AMBIGUOUS | ERR_PARTY_LFG_INVITE_RAID_LOCKED | ERR_PARTY_LFG_BOOT_LIMIT
  | ERR_PARTY_LFG_BOOT_COOLDOWN_S | ERR_PARTY_LFG_BOOT_IN_PROGRESS | ERR_PARTY_LFG_BOOT_TOO_FEW_PLAYERS
  | ERR_PARTY_LFG_BOOT_NOT_ELIGIBLE_S | ERR_RAID_DISALLOWED_BY_LEVEL | ERR_PARTY_LFG_BOOT_IN_COMBAT
  | ERR_VOTE_KICK_REASON_NEEDED | ERR_PARTY_LFG_BOOT_DUNGEON_COMPLETE | ERR_PARTY_LFG_BOOT_LOOT_ROLLS
  | ERR_PARTY_LFG_TELEPORT_IN_COMBAT

fun result_code :: "PartyResult \<Rightarrow> u32" where
  "result_code ERR_PARTY_RESULT_OK = 0"
| "result_code ERR_BAD_PLAYER_NAME_S = 1"
| "result_code ERR_TARGET_NOT_IN_GROUP_S = 2"
| "result_code ERR_TARGET_NOT_IN_INSTANCE_S = 3"
| "result_code ERR_GROUP_FULL = 4"
| "result_code ERR_ALREADY_IN_GROUP_S = 5"
| "result_code ERR_NOT_IN_GROUP = 6"
| "result_code ERR_NOT_LEADER = 7"
| "result_code ERR_PLAYER_WRONG_FACTION = 8"
| "result_code ERR_IGNORING_YOU_S = 9"
| "result_code ERR_LFG_PENDING = 12"
| "result_code ERR_INVITE_RESTRICTED = 13"
| "result_code ERR_GROUP_SWAP_FAILED = 14"
| "result_code ERR_INVITE_UNKNOWN_REALM = 15"
| "result_code ERR_INVITE_NO_PARTY_SERVER = 16"
| "result_code ERR_INVITE_PARTY_BUSY = 17"
| "result_code ERR_PARTY_TARGET_AMBIGUOUS = 18"
| "result_code ERR_PARTY_LFG_INVITE_RAID_LOCKED = 19"
| "result_code ERR_PARTY_LFG_BOOT_LIMIT = 20"
| "result_code ERR_PARTY_LFG_BOOT_COOLDOWN_S = 21"
| "result_code ERR_PARTY_LFG_BOOT_IN_PROGRESS = 22"
| "result_code ERR_PARTY_LFG_BOOT_TOO_FEW_PLAYERS = 23"
| "result_code ERR_PARTY_LFG_BOOT_NOT_ELIGIBLE_S = 24"
| "result_code ERR_RAID_DISALLOWED_BY_LEVEL = 25"
| "result_code ERR_PARTY_LFG_BOOT_IN_COMBAT = 26"
| "result_code ERR_VOTE_KICK_REASON_NEEDED = 27"
| "result_code ERR_PARTY_LFG_BOOT_DUNGEON_COMPLETE = 28"
| "result_code ERR_PARTY_LFG_BOOT_LOOT_ROLLS = 29"
| "result_code ERR_PARTY_LFG_TELEPORT_IN_COMBAT = 30"

section \<open>What the handlers ask of other systems\<close>

record partyenv =
  world_env :: genv
  utf8_dec :: "string \<Rightarrow> wchar list option"
  utf8_enc :: "wchar list \<Rightarrow> string option"
  online_by_name :: "string \<Rightarrow> guid option"
  cached_guid :: "string \<Rightarrow> guid"
  hook_invite :: "guid \<Rightarrow> string \<Rightarrow> bool"
  hook_accept :: "guid \<Rightarrow> nat \<Rightarrow> bool"
  spectator :: "guid \<Rightarrow> bool"
  team_of :: "guid \<Rightarrow> u8"
  has_ignored :: "guid \<Rightarrow> guid \<Rightarrow> bool"
  has_friend :: "guid \<Rightarrow> guid \<Rightarrow> bool"
  gm_allow_invite :: bool
  two_side_group :: bool
  party_level_req :: int
  kicks_left :: "guid \<Rightarrow> u8"
  in_combat_here :: "guid \<Rightarrow> guid \<Rightarrow> bool"
  cooldown_elapsed :: "guid \<Rightarrow> int option"
  kick_prevention_ms :: int
  in_battleground :: "guid \<Rightarrow> bool"
  no_ready_check_in_bg :: bool
  leave_on_logout :: bool
  hostile_to :: "guid \<Rightarrow> guid \<Rightarrow> bool"
  rand_between :: "u32 \<Rightarrow> u32 \<Rightarrow> u32"

definition FindPlayerByName :: "partyenv \<Rightarrow> gworld \<Rightarrow> string \<Rightarrow> bool \<Rightarrow> guid option" where
  "FindPlayerByName c w name inWorld = (case online_by_name c name of
     Some q \<Rightarrow> if inWorld \<and> \<not> p_in_world (players w q) then None else Some q | None \<Rightarrow> None)"

definition SendPartyResult :: "guid \<Rightarrow> u32 \<Rightarrow> string \<Rightarrow> PartyResult \<Rightarrow> u32 \<Rightarrow> (gworld, geff) act" where
  "SendPartyResult p op name res val = tell [Packet p (SMSG_PARTY_COMMAND_RESULT op name (result_code res) val)]"

abbreviation refuse :: "guid \<Rightarrow> u32 \<Rightarrow> string \<Rightarrow> PartyResult \<Rightarrow> (gworld, geff) act" where
  "refuse p op name res \<equiv> SendPartyResult p op name res 0"

text \<open>Runs \<open>a\<close> on the group of the player, if he has one.\<close>

definition in_own_group :: "guid \<Rightarrow> (nat \<Rightarrow> (gworld, geff) act) \<Rightarrow> (gworld, geff) act" where
  "in_own_group p a = load (\<lambda>w. GetGroup w p) (\<lambda>g. case g of None \<Rightarrow> skip | Some g \<Rightarrow> a g)"

definition may_lead :: "nat \<Rightarrow> guid \<Rightarrow> gworld \<Rightarrow> bool" where
  "may_lead g p w \<longleftrightarrow> IsLeader p (groups w g) \<or> IsAssistant p (groups w g)"

section \<open>Inviting\<close>

definition GROUP_LFG_FLAG_IS_RANDOM_INSTANCE :: u8 where "GROUP_LFG_FLAG_IS_RANDOM_INSTANCE = 0x002"

definition IsLfgRandomInstance :: "group \<Rightarrow> bool" where
  "IsLfgRandomInstance x = IsLfgWith GROUP_LFG_FLAG_IS_RANDOM_INSTANCE x"

text \<open>The checks on the two players, before any group is looked at.\<close>

definition players_refusal :: "partyenv \<Rightarrow> gworld \<Rightarrow> guid \<Rightarrow> guid \<Rightarrow> PartyResult option" where
  "players_refusal c w p q = (let e = world_env c in
     if spectator c p \<or> spectator c q then Some ERR_INVITE_RESTRICTED
     else if \<not> gm_allow_invite c \<and> \<not> game_master e p \<and> game_master e q then Some ERR_BAD_PLAYER_NAME_S
     else if \<not> game_master e p \<and> \<not> two_side_group c \<and> team_of c p \<noteq> team_of c q then Some ERR_PLAYER_WRONG_FACTION
     else if instance_id e p \<noteq> 0 \<and> instance_id e q \<noteq> 0 \<and> instance_id e p \<noteq> instance_id e q \<and>
             map_of_player e p = map_of_player e q then Some ERR_TARGET_NOT_IN_INSTANCE_S
     else if instance_id e q \<noteq> 0 \<and> p_dungeon_difficulty (players w q) \<noteq> p_dungeon_difficulty (players w p)
          then Some ERR_IGNORING_YOU_S
     else if has_ignored c q p then Some ERR_IGNORING_YOU_S
     else None)"

definition level_refusal :: "partyenv \<Rightarrow> guid \<Rightarrow> guid \<Rightarrow> bool" where
  "level_refusal c p q \<longleftrightarrow> \<not> has_friend c q p \<and> uint (player_level (world_env c) p) < party_level_req c"

text \<open>The group an invitation of \<open>p\<close> is for: his social group, else the one he is forming.\<close>

definition inviting_group :: "gworld \<Rightarrow> guid \<Rightarrow> nat option" where
  "inviting_group w p = (case social_group w p of Some g \<Rightarrow> Some g
   | None \<Rightarrow> (case m_groupInvite (players w p) of
       Some g \<Rightarrow> if m_leaderGuid (groups w g) = p then Some g else None
     | None \<Rightarrow> None))"

definition send_invite :: "guid \<Rightarrow> guid \<Rightarrow> string \<Rightarrow> (gworld, geff) act" where
  "send_invite p q name = acts [
     emit (\<lambda>w. [Packet q (SMSG_GROUP_INVITE 1 (p_name (players w p)))]),
     refuse p PARTY_OP_INVITE name ERR_PARTY_RESULT_OK]"

text \<open>A new object at the address \<open>a\<close>; it is deleted when one of the two cannot be invited.\<close>

definition invite_to_new_group :: "nat \<Rightarrow> u8 \<Rightarrow> guid \<Rightarrow> guid \<Rightarrow> string \<Rightarrow> (gworld, geff) act" where
  "invite_to_new_group a lfg p q name = acts [
     construct_group a lfg,
     cond (\<lambda>w. can_be_invited w p)
       (acts [AddLeaderInvite a p,
          cond (\<lambda>w. can_be_invited w q)
            (acts [AddInvite a q, send_invite p q name])
            (destroy_group a)])
       (destroy_group a)]"

text \<open>The checks on the groups of the two, and the invitation.\<close>

definition invite_player :: "nat \<Rightarrow> u8 \<Rightarrow> guid \<Rightarrow> guid \<Rightarrow> string \<Rightarrow> (gworld, geff) act" where
  "invite_player a lfg p q name = cond (\<lambda>w. \<not> can_be_invited w q)
     (acts [refuse p PARTY_OP_INVITE name ERR_ALREADY_IN_GROUP_S,
        emit (\<lambda>w. if social_group w q \<noteq> None then [Packet q (SMSG_GROUP_INVITE 0 (p_name (players w p)))] else [])])
     (cond (\<lambda>w. case social_group w p of None \<Rightarrow> False | Some g \<Rightarrow> \<not> may_lead g p w)
       (refuse p PARTY_OP_INVITE [] ERR_NOT_LEADER)
       (cond (\<lambda>w. case social_group w p of None \<Rightarrow> False | Some g \<Rightarrow> IsFull (groups w g))
         (refuse p PARTY_OP_INVITE [] ERR_GROUP_FULL)
         (load (\<lambda>w. inviting_group w p) (\<lambda>g. case g of
            None \<Rightarrow> invite_to_new_group a lfg p q name
          | Some g \<Rightarrow> whenever (\<lambda>w. can_be_invited w q) (acts [AddInvite g q, send_invite p q name])))))"

definition in_random_dungeon_group :: "gworld \<Rightarrow> guid \<Rightarrow> bool" where
  "in_random_dungeon_group w p = (case GetGroup w p of None \<Rightarrow> False
     | Some g \<Rightarrow> isLFGGroup False (groups w g) \<and> IsLfgRandomInstance (groups w g))"

definition HandleGroupInviteOpcode :: "partyenv \<Rightarrow> nat \<Rightarrow> u8 \<Rightarrow> guid \<Rightarrow> string \<Rightarrow> (gworld, geff) act" where
  "HandleGroupInviteOpcode c a lfg p raw =
     (case normalizePlayerName (utf8_dec c) (utf8_enc c) raw of
        None \<Rightarrow> refuse p PARTY_OP_INVITE raw ERR_BAD_PLAYER_NAME_S
      | Some name \<Rightarrow> load (\<lambda>w. FindPlayerByName c w name False) (\<lambda>q. case q of
          None \<Rightarrow> refuse p PARTY_OP_INVITE name ERR_BAD_PLAYER_NAME_S
        | Some q \<Rightarrow>
            if q = p then refuse p PARTY_OP_INVITE name ERR_BAD_PLAYER_NAME_S
            else if \<not> hook_invite c p name then skip
            else load (\<lambda>w. players_refusal c w p q) (\<lambda>r. case r of
              Some r \<Rightarrow> refuse p PARTY_OP_INVITE name r
            | None \<Rightarrow>
                if level_refusal c p q
                then load (\<lambda>w. p_name (players w q)) (\<lambda>n. refuse p PARTY_OP_INVITE n ERR_INVITE_RESTRICTED)
                else cond (\<lambda>w. in_random_dungeon_group w p)
                  (refuse p PARTY_OP_INVITE name ERR_TARGET_NOT_IN_INSTANCE_S)
                  (invite_player a lfg p q name))))"

section \<open>Accepting and declining\<close>

definition HandleGroupAcceptOpcode :: "partyenv \<Rightarrow> guid \<Rightarrow> (gworld, geff) act" where
  "HandleGroupAcceptOpcode c p = (let e = world_env c in
     load (\<lambda>w. m_groupInvite (players w p)) (\<lambda>g. case g of None \<Rightarrow> skip
     | Some g \<Rightarrow> acts [
         RemoveInvite g p,
         if spectator c p then refuse p PARTY_OP_INVITE [] ERR_INVITE_RESTRICTED
         else if \<not> hook_accept c p g then skip
         else unless (\<lambda>w. m_leaderGuid (groups w g) = p)
           (cond (\<lambda>w. IsFull (groups w g))
             (refuse p PARTY_OP_INVITE [] ERR_GROUP_FULL)
             (load (\<lambda>w. m_leaderGuid (groups w g)) (\<lambda>leader.
               cond (\<lambda>w. \<not> IsCreated (groups w g) \<and> (\<not> FindConnected w leader \<or> spectator c leader))
                 (RemoveAllInvites g)
                 (acts [
                    whenever (\<lambda>w. \<not> IsCreated (groups w g))
                      (acts [RemoveInvite g leader, Create e g leader, upd (AddGroup g)]),
                    load (AddMember_result g) (\<lambda>ok. acts [
                      AddMember e g p,
                      whenever (\<lambda>_. ok) (emit (BroadcastGroupUpdate g))])]))))]))"

definition UninviteFromGroup :: "genv \<Rightarrow> guid \<Rightarrow> (gworld, geff) act" where
  "UninviteFromGroup e p = load (\<lambda>w. m_groupInvite (players w p)) (\<lambda>g. case g of None \<Rightarrow> skip
   | Some g \<Rightarrow> acts [
       RemoveInvite g p,
       whenever (\<lambda>w. GetMembersCount (groups w g) \<le> 1)
         (cond (\<lambda>w. IsCreated (groups w g))
            (Disband e g True)
            (acts [RemoveAllInvites g, destroy_group g]))])"

definition HandleGroupDeclineOpcode :: "partyenv \<Rightarrow> guid \<Rightarrow> (gworld, geff) act" where
  "HandleGroupDeclineOpcode c p = load (\<lambda>w. m_groupInvite (players w p)) (\<lambda>g. case g of None \<Rightarrow> skip
   | Some g \<Rightarrow> load (\<lambda>w. (m_leaderGuid (groups w g), FindConnected w (m_leaderGuid (groups w g)))) (\<lambda>(leader, there). acts [
       UninviteFromGroup (world_env c) p,
       emit (\<lambda>w. if there then [Packet leader (SMSG_GROUP_DECLINE (p_name (players w p)))] else [])]))"

section \<open>Removing a member\<close>

definition LFG_GROUP_KICK_VOTES_NEEDED :: nat where "LFG_GROUP_KICK_VOTES_NEEDED = 3"

definition on_cooldown :: "partyenv \<Rightarrow> gworld \<Rightarrow> guid \<Rightarrow> int option" where
  "on_cooldown c w q = (if \<not> FindConnected w q then None else case cooldown_elapsed c q of None \<Rightarrow> None
     | Some t \<Rightarrow> if kick_prevention_ms c > t then Some (kick_prevention_ms c - t) else None)"

definition lfg_boot_refusal :: "partyenv \<Rightarrow> nat \<Rightarrow> guid \<Rightarrow> guid \<Rightarrow> gworld \<Rightarrow> PartyResult" where
  "lfg_boot_refusal c g p q w = (let x = groups w g; state = lfg_state (world_env c) (m_guid x) in
     if kicks_left c (m_guid x) = 0 then ERR_PARTY_LFG_BOOT_LIMIT
     else if state = 4 then ERR_PARTY_LFG_BOOT_IN_PROGRESS
     else if GetMembersCount x \<le> LFG_GROUP_KICK_VOTES_NEEDED then ERR_PARTY_LFG_BOOT_TOO_FEW_PLAYERS
     else if state = 6 then ERR_PARTY_LFG_BOOT_DUNGEON_COMPLETE
     else if isRollLootActive x then ERR_PARTY_LFG_BOOT_LOOT_ROLLS
     else if list_ex (\<lambda>(m, k). in_combat_here c p m) (m_memberMgr x) then ERR_PARTY_LFG_BOOT_IN_COMBAT
     else if on_cooldown c w q \<noteq> None then ERR_PARTY_LFG_BOOT_NOT_ELIGIBLE_S
     else ERR_PARTY_RESULT_OK)"

definition CanUninviteFromGroup :: "partyenv \<Rightarrow> guid \<Rightarrow> guid \<Rightarrow> gworld \<Rightarrow> PartyResult" where
  "CanUninviteFromGroup c p q w = (case GetGroup w p of None \<Rightarrow> ERR_NOT_IN_GROUP
   | Some g \<Rightarrow>
       if isLFGGroup True (groups w g) then lfg_boot_refusal c g p q w
       else if \<not> may_lead g p w then ERR_NOT_LEADER
       else if in_battleground c p then ERR_INVITE_RESTRICTED
       else ERR_PARTY_RESULT_OK)"

definition RemoveFromGroup :: "genv \<Rightarrow> nat option \<Rightarrow> guid \<Rightarrow> RemoveMethod \<Rightarrow> guid \<Rightarrow> string \<Rightarrow> (gworld, geff) act" where
  "RemoveFromGroup e g p method kicker reason = (case g of None \<Rightarrow> skip
     | Some g \<Rightarrow> RemoveMember e g p method kicker reason)"

text \<open>\<open>int32\<close> arithmetic in milliseconds, reported in seconds.\<close>

definition kick_answer :: "partyenv \<Rightarrow> guid \<Rightarrow> guid \<Rightarrow> string \<Rightarrow> PartyResult \<Rightarrow> (gworld, geff) act" where
  "kick_answer c p q name res =
     (if res = ERR_PARTY_LFG_BOOT_NOT_ELIGIBLE_S
      then load (\<lambda>w. on_cooldown c w q) (\<lambda>t. case t of None \<Rightarrow> skip
        | Some t \<Rightarrow> SendPartyResult p PARTY_OP_UNINVITE name res (of_int (t div 1000)))
      else refuse p PARTY_OP_UNINVITE name res)"

definition HandleGroupUninviteGuidOpcode :: "partyenv \<Rightarrow> guid \<Rightarrow> guid \<Rightarrow> string \<Rightarrow> (gworld, geff) act" where
  "HandleGroupUninviteGuidOpcode c p q reason = (let e = world_env c; name = (case cache_name e q of None \<Rightarrow> [] | Some n \<Rightarrow> n) in
     if q = p then skip
     else load (CanUninviteFromGroup c p q) (\<lambda>res.
       if res \<noteq> ERR_PARTY_RESULT_OK then kick_answer c p q name res
       else in_own_group p (\<lambda>g.
         cond (\<lambda>w. isLFGGroup True (groups w g) \<and> reason = [])
           (refuse p PARTY_OP_UNINVITE name ERR_VOTE_KICK_REASON_NEEDED)
           (cond (\<lambda>w. IsLeader q (groups w g) \<and> \<not> isLFGGroup True (groups w g))
             (refuse p PARTY_OP_UNINVITE name ERR_NOT_LEADER)
             (cond (\<lambda>w. IsMember q (groups w g))
               (RemoveFromGroup e (Some g) q REMOVE_KICK p reason)
               (cond (\<lambda>w. GetInvited q (groups w g))
                 (UninviteFromGroup e q)
                 (refuse p PARTY_OP_UNINVITE name ERR_TARGET_NOT_IN_GROUP_S)))))))"

definition HandleGroupUninviteOpcode :: "partyenv \<Rightarrow> guid \<Rightarrow> string \<Rightarrow> (gworld, geff) act" where
  "HandleGroupUninviteOpcode c p raw = (let e = world_env c in
     case normalizePlayerName (utf8_dec c) (utf8_enc c) raw of None \<Rightarrow> skip
     | Some name \<Rightarrow> unless (\<lambda>w. p_name (players w p) = name) (in_own_group p (\<lambda>g.
         load (\<lambda>w. GetMemberGUID name (groups w g)) (\<lambda>q.
         load (CanUninviteFromGroup c p q) (\<lambda>res.
           if res \<noteq> ERR_PARTY_RESULT_OK then refuse p PARTY_OP_UNINVITE [] res
           else if q \<noteq> 0 then RemoveFromGroup e (Some g) q REMOVE_KICK p []
           else load (\<lambda>w. GetInvitedByName w name (groups w g)) (\<lambda>i. case i of
             Some i \<Rightarrow> UninviteFromGroup e i
           | None \<Rightarrow> refuse p PARTY_OP_UNINVITE name ERR_TARGET_NOT_IN_GROUP_S))))))"

definition HandleGroupDisbandOpcode :: "partyenv \<Rightarrow> guid \<Rightarrow> (gworld, geff) act" where
  "HandleGroupDisbandOpcode c p = in_own_group p (\<lambda>g.
     if in_battleground c p then refuse p PARTY_OP_INVITE [] ERR_INVITE_RESTRICTED
     else acts [
       load (\<lambda>w. p_name (players w p)) (\<lambda>n. refuse p PARTY_OP_LEAVE n ERR_PARTY_RESULT_OK),
       load (\<lambda>w. GetGroup w p) (\<lambda>g. RemoveFromGroup (world_env c) g p REMOVE_LEAVE 0 [])])"

text \<open>The group part of \<open>WorldSession::LogoutPlayer\<close>, and of \<open>Player::DeleteFromDB\<close>, which looks for
  the group under the identifier of the guild of the character.\<close>

definition logout_group :: "partyenv \<Rightarrow> bool \<Rightarrow> guid \<Rightarrow> (gworld, geff) act" where
  "logout_group c socket p = acts [
     whenever (\<lambda>w. GetGroup w p = None \<or> leave_on_logout c) (UninviteFromGroup (world_env c) p),
     load (\<lambda>w. GetGroup w p) (\<lambda>g. case g of None \<Rightarrow> skip
     | Some g \<Rightarrow> whenever (\<lambda>w. \<not> isRaidGroup (groups w g) \<and> \<not> isLFGGroup False (groups w g) \<and> socket \<and> leave_on_logout c)
         (RemoveFromGroup (world_env c) (Some g) p REMOVE_DEFAULT 0 []))]"

definition delete_from_group :: "genv \<Rightarrow> (guid \<Rightarrow> u32) \<Rightarrow> guid \<Rightarrow> (gworld, geff) act" where
  "delete_from_group e guild_of p =
     (if guild_of p = 0 then skip
      else load (GetGroupByGUID (guild_of p)) (\<lambda>g. RemoveFromGroup e g p REMOVE_DEFAULT 0 []))"

section \<open>Leading the group\<close>

definition HandleGroupSetLeaderOpcode :: "partyenv \<Rightarrow> guid \<Rightarrow> guid \<Rightarrow> (gworld, geff) act" where
  "HandleGroupSetLeaderOpcode c p q = in_own_group p (\<lambda>g.
     unless (\<lambda>w. \<not> FindConnected w q \<or> \<not> IsLeader p (groups w g) \<or> GetGroup w q \<noteq> Some g \<or> q = p)
       (acts [ChangeLeader (world_env c) g q, SendUpdate (world_env c) g]))"

definition HandleLootMethodOpcode :: "partyenv \<Rightarrow> guid \<Rightarrow> u32 \<Rightarrow> guid \<Rightarrow> u32 \<Rightarrow> (gworld, geff) act" where
  "HandleLootMethodOpcode c p method master threshold = in_own_group p (\<lambda>g.
     unless (\<lambda>w. \<not> IsLeader p (groups w g) \<or> isLFGGroup True (groups w g) \<or> method > ucast NEED_BEFORE_GREED \<or>
         threshold < ITEM_QUALITY_UNCOMMON \<or> threshold > 6 \<or>
         method = ucast MASTER_LOOT \<and> \<not> IsMember master (groups w g))
       (acts [on_group g (SetLootMethod (ucast method)), on_group g (SetMasterLooterGuid master),
              on_group g (SetLootThreshold threshold), SendUpdate (world_env c) g]))"

definition HandleLootRoll :: "partyenv \<Rightarrow> guid \<Rightarrow> guid \<Rightarrow> u8 \<Rightarrow> (gworld, geff) act" where
  "HandleLootRoll c p item rollType = in_own_group p (\<lambda>g. acts [
     load (rollenv_of (world_env c)) (\<lambda>env. with_rolls g (\<lambda>s. snd (CountRollVote env p item rollType s))),
     tell (if rollType = ROLL_NEED \<or> rollType = ROLL_GREED then [RollCriteria p rollType] else [])])"

definition HandleMinimapPingOpcode :: "guid \<Rightarrow> u32 \<Rightarrow> u32 \<Rightarrow> (gworld, geff) act" where
  "HandleMinimapPingOpcode p x y = in_own_group p (\<lambda>g. emit (BroadcastPacket g (MINIMAP_PING p x y) True None p))"

definition HandleRandomRollOpcode :: "partyenv \<Rightarrow> guid \<Rightarrow> u32 \<Rightarrow> u32 \<Rightarrow> (gworld, geff) act" where
  "HandleRandomRollOpcode c p lo hi =
     (if lo > hi \<or> hi > 10000 then skip
      else let pkt = RANDOM_ROLL lo hi (rand_between c lo hi) p in
        load (\<lambda>w. GetGroup w p) (\<lambda>g. case g of
          Some g \<Rightarrow> emit (BroadcastPacket g pkt False None 0) | None \<Rightarrow> tell [Packet p pkt]))"

definition HandleRaidTargetUpdateOpcode :: "partyenv \<Rightarrow> guid \<Rightarrow> u8 \<Rightarrow> guid \<Rightarrow> (gworld, geff) act" where
  "HandleRaidTargetUpdateOpcode c p x q = in_own_group p (\<lambda>g.
     if x = 0xFF then emit (SendTargetIconList g p)
     else unless (\<lambda>w. isRaidGroup (groups w g) \<and> \<not> may_lead g p w)
       (unless (\<lambda>w. IsPlayer q \<and> (\<not> FindConnected w q \<or> hostile_to c q p)) (SetTargetIcon g x p q)))"

definition HandleGroupRaidConvertOpcode :: "partyenv \<Rightarrow> guid \<Rightarrow> (gworld, geff) act" where
  "HandleGroupRaidConvertOpcode c p = in_own_group p (\<lambda>g.
     if in_battleground c p then skip
     else cond (\<lambda>w. CheckLevelForRaid (world_env c) w (groups w g))
       (refuse p PARTY_OP_INVITE [] ERR_RAID_DISALLOWED_BY_LEVEL)
       (unless (\<lambda>w. \<not> IsLeader p (groups w g) \<or> GetMembersCount (groups w g) < 2 \<or> isLFGGroup False (groups w g))
         (acts [refuse p PARTY_OP_INVITE [] ERR_PARTY_RESULT_OK, ConvertToRaid (world_env c) g])))"

definition HandleGroupChangeSubGroupOpcode :: "partyenv \<Rightarrow> guid \<Rightarrow> string \<Rightarrow> u8 \<Rightarrow> (gworld, geff) act" where
  "HandleGroupChangeSubGroupOpcode c p name sub = in_own_group p (\<lambda>g.
     if unat sub \<ge> MAX_RAID_SUBGROUPS then skip
     else unless (\<lambda>w. \<not> may_lead g p w \<or> \<not> HasFreeSlotSubGroup sub (groups w g))
       (load (\<lambda>w. case FindPlayerByName c w name False of Some q \<Rightarrow> q | None \<Rightarrow> cached_guid c name)
         (\<lambda>q. ChangeMembersGroup (world_env c) g q sub)))"

text \<open>Both names must be members; the member's identifier is then looked up again by name.\<close>

definition swap_guid :: "partyenv \<Rightarrow> nat \<Rightarrow> string \<Rightarrow> gworld \<Rightarrow> guid" where
  "swap_guid c g name w = (if GetMemberGUID name (groups w g) = 0 then 0
     else case FindPlayerByName c w name True of Some q \<Rightarrow> q | None \<Rightarrow> cached_guid c name)"

definition swap_members :: "partyenv \<Rightarrow> nat \<Rightarrow> guid \<Rightarrow> guid \<Rightarrow> (gworld, geff) act" where
  "swap_members c g q1 q2 = load (\<lambda>w. (GetMemberGroup q1 (groups w g), GetMemberGroup q2 (groups w g))) (\<lambda>(s1, s2).
     if unat s1 = MAX_RAID_SUBGROUPS + 1 \<or> unat s2 = MAX_RAID_SUBGROUPS + 1 \<or> s1 = s2 then skip
     else acts [ChangeMembersGroup (world_env c) g q1 s2, ChangeMembersGroup (world_env c) g q2 s1])"

definition HandleGroupSwapSubGroupOpcode :: "partyenv \<Rightarrow> guid \<Rightarrow> string \<Rightarrow> string \<Rightarrow> (gworld, geff) act" where
  "HandleGroupSwapSubGroupOpcode c p raw1 raw2 = (let norm = normalizePlayerName (utf8_dec c) (utf8_enc c) in
     case norm raw1 of None \<Rightarrow> refuse p PARTY_OP_SWAP raw1 ERR_GROUP_SWAP_FAILED
     | Some n1 \<Rightarrow> (case norm raw2 of None \<Rightarrow> refuse p PARTY_OP_SWAP n1 ERR_GROUP_SWAP_FAILED
       | Some n2 \<Rightarrow> in_own_group p (\<lambda>g. unless (\<lambda>w. \<not> isRaidGroup (groups w g) \<or> \<not> may_lead g p w)
           (load (\<lambda>w. (swap_guid c g n1 w, swap_guid c g n2 w)) (\<lambda>(q1, q2).
              if q1 = 0 \<or> q2 = 0 then refuse p PARTY_OP_SWAP n1 ERR_GROUP_SWAP_FAILED
              else swap_members c g q1 q2)))))"

definition HandleGroupAssistantLeaderOpcode :: "partyenv \<Rightarrow> guid \<Rightarrow> guid \<Rightarrow> bool \<Rightarrow> (gworld, geff) act" where
  "HandleGroupAssistantLeaderOpcode c p q apply = in_own_group p (\<lambda>g.
     unless (\<lambda>w. \<not> IsLeader p (groups w g))
       (acts [SetGroupMemberFlag (world_env c) g q apply MEMBER_FLAG_ASSISTANT, SendUpdate (world_env c) g]))"

definition GROUP_ASSIGN_MAINTANK :: u8 where "GROUP_ASSIGN_MAINTANK = 0"
definition GROUP_ASSIGN_MAINASSIST :: u8 where "GROUP_ASSIGN_MAINASSIST = 1"

definition HandlePartyAssignmentOpcode :: "partyenv \<Rightarrow> guid \<Rightarrow> u8 \<Rightarrow> bool \<Rightarrow> guid \<Rightarrow> (gworld, geff) act" where
  "HandlePartyAssignmentOpcode c p assignment apply q = in_own_group p (\<lambda>g.
     unless (\<lambda>w. \<not> may_lead g p w) (acts [
       (if assignment = GROUP_ASSIGN_MAINASSIST
        then acts [on_group g (RemoveUniqueGroupMemberFlag MEMBER_FLAG_MAINASSIST),
                   SetGroupMemberFlag (world_env c) g q apply MEMBER_FLAG_MAINASSIST]
        else if assignment = GROUP_ASSIGN_MAINTANK
        then acts [on_group g (RemoveUniqueGroupMemberFlag MEMBER_FLAG_MAINTANK),
                   SetGroupMemberFlag (world_env c) g q apply MEMBER_FLAG_MAINTANK]
        else skip),
       SendUpdate (world_env c) g]))"

section \<open>Ready checks\<close>

definition HandleRaidReadyCheckOpcode :: "partyenv \<Rightarrow> guid \<Rightarrow> u8 option \<Rightarrow> (gworld, geff) act" where
  "HandleRaidReadyCheckOpcode c p answer = in_own_group p (\<lambda>g. case answer of
     None \<Rightarrow> unless (\<lambda>w. \<not> may_lead g p w)
       (if no_ready_check_in_bg c \<and> in_battleground c p then tell [Packet p BG_READY_CHECK_ERROR]
        else acts [emit (BroadcastPacket g (READY_CHECK p) False None 0), emit (OfflineReadyCheck g)])
   | Some state \<Rightarrow> emit (BroadcastReadyCheck g (READY_CHECK_CONFIRM p state)))"

definition HandleRaidReadyCheckFinishedOpcode :: "guid \<Rightarrow> (gworld, geff) act" where
  "HandleRaidReadyCheckFinishedOpcode p = in_own_group p (\<lambda>g.
     unless (\<lambda>w. \<not> may_lead g p w) (emit (BroadcastPacket g READY_CHECK_FINISHED True None 0)))"

end
