(* ===== verification/GroupInv.thy ===== *)
theory GroupInv
  imports GroupHandler
begin

text \<open>
  What holds of the groups and the players between two operations: references go both ways and
  never to a deleted group, an invitation is known to the group, and the counters of the subgroups
  are the numbers of the members in them. Most operations change nothing of this: they are
  \<open>quiet\<close>, which is settled first, once for every invariant of this kind.
\<close>

section \<open>Changing objects\<close>

lemma groups_set [simp]:
  "groups (set_group g f w) = (groups w)(g := f (groups w g))" "groups (set_player p h w) = groups w"
  by (simp_all add: set_group_def set_player_def)

lemma players_set [simp]:
  "players (set_group g f w) = players w" "players (set_player p h w) = (players w)(p := h (players w p))"
  by (simp_all add: set_group_def set_player_def)

lemma set_group_twice: "set_group g f (set_group g h w) = set_group g (\<lambda>x. f (h x)) w"
  by (simp add: set_group_def)

lemma the_ref_change [simp]:
  "the_ref k (change_ref j f q) = (if k = j then f (the_ref k q) else the_ref k q)"
  "m_groupInvite (change_ref j f q) = m_groupInvite q"
  by (cases j; cases k; simp add: the_ref_def change_ref_def)+

section \<open>Operations that change nothing of the structure\<close>

definition core :: "group \<Rightarrow> bool \<times> (guid \<times> u8) list \<times> (guid \<times> ref_kind) list \<times> guid list \<times> bool \<times> u8 list option" where
  "core x = (g_alive x, map (\<lambda>m. (ms_guid m, ms_group m)) (m_memberSlots x), m_memberMgr x, m_invitees x,
     isRaidGroup x, m_subGroupsCounts x)"

definition links :: "gplayer \<Rightarrow> nat option \<times> nat option \<times> nat option" where
  "links q = (ref_to (m_group q), ref_to (m_originalGroup q), m_groupInvite q)"

definition same_core :: "gworld \<Rightarrow> gworld \<Rightarrow> bool" where
  "same_core w v \<longleftrightarrow> (\<forall>g. core (groups w g) = core (groups v g)) \<and> (\<forall>p. links (players w p) = links (players v p))"

definition quiet :: "(gworld, geff) act \<Rightarrow> bool" where
  "quiet a \<longleftrightarrow> (\<forall>w. same_core w (fst (a w)))"

definition structural :: "(gworld \<Rightarrow> bool) \<Rightarrow> bool" where
  "structural P \<longleftrightarrow> (\<forall>w v. same_core w v \<longrightarrow> P w \<longrightarrow> P v)"

named_theorems quiet_rules \<open>operations that change nothing of the structure\<close>

lemma same_core_refl [simp]: "same_core w w"
  by (simp add: same_core_def)

lemma same_core_trans: "same_core w v \<Longrightarrow> same_core v u \<Longrightarrow> same_core w u"
  by (simp add: same_core_def)

lemma quietD: "quiet a \<Longrightarrow> same_core w (fst (a w))"
  by (simp add: quiet_def)

lemma quiet_basic [quiet_rules]: "quiet skip" "quiet (emit f)"
  by (simp_all add: quiet_def act_eval)

lemma quiet_andThen: "quiet a \<Longrightarrow> quiet b \<Longrightarrow> quiet (andThen a b)"
  by (auto simp: quiet_def act_eval intro: same_core_trans)

lemma quiet_acts [quiet_rules]: "list_all quiet xs \<Longrightarrow> quiet (acts xs)"
  by (induction xs) (auto simp: acts.simps quiet_basic intro: quiet_andThen)

lemma quiet_each [quiet_rules]: "(\<And>x. quiet (f x)) \<Longrightarrow> quiet (each f xs)"
  by (induction xs) (auto simp: each.simps quiet_basic intro: quiet_andThen)

lemma quiet_cond [quiet_rules]: "quiet a \<Longrightarrow> quiet b \<Longrightarrow> quiet (cond P a b)"
  by (simp add: quiet_def act_eval)

lemma quiet_load [quiet_rules]: "(\<And>v. quiet (k v)) \<Longrightarrow> quiet (load r k)"
  by (simp add: quiet_def act_eval)

lemma quiet_option [quiet_rules]: "quiet a \<Longrightarrow> (\<And>y. quiet (f y)) \<Longrightarrow> quiet (case m of None \<Rightarrow> a | Some y \<Rightarrow> f y)"
  by (cases m) auto

lemma quiet_pair [quiet_rules]: "(\<And>x y. quiet (f x y)) \<Longrightarrow> quiet (case m of (x, y) \<Rightarrow> f x y)"
  by (cases m) auto

lemma quiet_if [quiet_rules]: "quiet a \<Longrightarrow> quiet b \<Longrightarrow> quiet (if P then a else b)"
  by simp

lemma quiet_on_group [quiet_rules]: "(\<And>x. core (f x) = core x) \<Longrightarrow> quiet (on_group g f)"
  by (simp add: quiet_def act_eval same_core_def)

lemma quiet_on_player [quiet_rules]: "(\<And>q. links (f q) = links q) \<Longrightarrow> quiet (on_player p f)"
  by (simp add: quiet_def act_eval same_core_def)

lemma quiet_triple: "quiet a \<Longrightarrow> structural P \<Longrightarrow> triple P a P (\<lambda>_. True)"
  unfolding structural_def by (rule tripleT) (blast dest: quietD)

lemma quiet_stored [quiet_rules]: "quiet (stored g f)"
  by (simp add: stored_def quiet_rules)

lemma quiet_with_rolls [quiet_rules]: "quiet (with_rolls g a)"
  by (simp add: quiet_def with_rolls_def Let_def same_core_def set_group_def core_def isRaidGroup_def)

text \<open>Changing the fields of members but their identifiers and subgroups.\<close>

lemma core_simps:
  "core (x\<lparr>m_counter := n\<rparr>) = core x" "core (x\<lparr>m_targetIcons := i\<rparr>) = core x"
  "core (x\<lparr>m_leaderGuid := p\<rparr>) = core x" "core (x\<lparr>m_leaderName := s\<rparr>) = core x"
  "core (x\<lparr>m_maxEnchantingLevel := l\<rparr>) = core x" "core (x\<lparr>m_looterGuid := p\<rparr>) = core x"
  "core (x\<lparr>m_dungeonDifficulty := d\<rparr>) = core x" "core (x\<lparr>m_raidDifficulty := d\<rparr>) = core x"
  "core (x\<lparr>m_lootMethod := d\<rparr>) = core x" "core (x\<lparr>m_masterLooterGuid := p\<rparr>) = core x"
  "core (x\<lparr>m_lootThreshold := t\<rparr>) = core x" "core (x\<lparr>g_rolls := rs\<rparr>) = core x"
  "core (x\<lparr>m_bgGroup := b\<rparr>) = core x" "core (x\<lparr>m_bfGroup := b\<rparr>) = core x"
  "core (x\<lparr>m_guid := p\<rparr>) = core x"
  "core (x\<lparr>m_leaderGuid := p, m_leaderName := s\<rparr>) = core x"
  "core (x\<lparr>m_dungeonDifficulty := d, m_raidDifficulty := d'\<rparr>) = core x"
  "core (x\<lparr>m_guid := p, m_leaderGuid := p'\<rparr>) = core x"
  by (simp_all add: core_def isRaidGroup_def)

lemma links_simps:
  "links (q\<lparr>p_leader_flag := b\<rparr>) = links q" "links (q\<lparr>p_dungeon_difficulty := d\<rparr>) = links q"
  "links (q\<lparr>p_raid_difficulty := d\<rparr>) = links q" "links (q\<lparr>m_InstanceValid := b\<rparr>) = links q"
  "links (q\<lparr>p_dungeon_difficulty := d, p_raid_difficulty := d'\<rparr>) = links q"
  by (simp_all add: links_def)

lemma first_index_bound: "first_index P xs = Some i \<Longrightarrow> i < length xs \<and> P (xs ! i)"
  by (induction xs arbitrary: i) (auto split: if_splits)

lemma change_slot_core:
  assumes "\<And>m. ms_guid (f m) = ms_guid m \<and> ms_group (f m) = ms_group m"
  shows "core (change_slot p f x) = core x"
proof (cases "getMemberSlot p x")
  case (Some i)
  then have i: "i < length (m_memberSlots x)" using first_index_bound by (auto simp: getMemberSlot_def)
  let ?h = "\<lambda>m. (ms_guid m, ms_group m)"
  have "map ?h ((m_memberSlots x)[i := f (m_memberSlots x ! i)]) = map ?h (m_memberSlots x)"
    using i by (simp add: map_update assms list_update_id [of "map ?h (m_memberSlots x)" i, simplified nth_map [OF i]])
  then show ?thesis using Some by (simp add: change_slot_def core_def isRaidGroup_def)
qed (simp add: change_slot_def)

lemma toggle_core: "core (change_slot p (ToggleGroupMemberFlag flag b) x) = core x"
  by (rule change_slot_core) (simp add: ToggleGroupMemberFlag_def)

lemma unique_core: "core (RemoveUniqueGroupMemberFlag flag x) = core x"
  by (simp add: RemoveUniqueGroupMemberFlag_def core_def isRaidGroup_def comp_def if_distrib cong: if_cong)

lemmas quiet_simps = core_simps links_simps toggle_core unique_core

lemma quiet_SendUpdate [quiet_rules]: "quiet (SendUpdate e g)"
  unfolding SendUpdate_def SendUpdateToPlayer_def
  by (intro quiet_rules) (simp_all add: quiet_simps quiet_rules)

lemma quiet_homebind [quiet_rules]: "quiet (homebindIfInstance e p)" "quiet (cancelHomebindIfInstance e p)"
  unfolding homebindIfInstance_def cancelHomebindIfInstance_def
  by (intro quiet_rules; simp add: quiet_simps)+

lemma quiet_take_difficulties [quiet_rules]: "quiet (take_difficulties g p)"
  unfolding take_difficulties_def
  by (intro quiet_rules) (simp add: quiet_simps quiet_rules)

lemma quiet_ResetMax [quiet_rules]: "quiet (ResetMaxEnchantingLevel e g)"
  by (simp add: quiet_def ResetMaxEnchantingLevel_def act_eval same_core_def quiet_simps)

lemma quiet_ChangeLeader [quiet_rules]: "quiet (ChangeLeader e g p)"
proof -
  have "core ((change_slot p (ToggleGroupMemberFlag f False) x)\<lparr>m_leaderGuid := p, m_leaderName := n\<rparr>) = core x" for n x f
    by (simp add: quiet_simps)
  then show ?thesis unfolding ChangeLeader_def
    by (intro quiet_rules) (simp add: quiet_simps quiet_rules)
qed

lemma quiet_icons [quiet_rules]: "quiet (SetTargetIcon g i who target)"
  unfolding SetTargetIcon_def set_icon_def
  by (intro quiet_rules) (simp add: quiet_simps quiet_rules)

lemma quiet_flag [quiet_rules]: "quiet (SetGroupMemberFlag e g p apply flag)"
  unfolding SetGroupMemberFlag_def
  by (intro quiet_rules) (simp add: quiet_simps quiet_rules)

lemma quiet_roles [quiet_rules]: "quiet (SetLfgRoles e g p roles)"
  unfolding SetLfgRoles_def
  by (intro quiet_rules) (simp add: quiet_rules change_slot_core)

lemma quiet_looter [quiet_rules]: "quiet (UpdateLooterGuid e g close_by ifneed)"
  unfolding UpdateLooterGuid_def
  by (intro quiet_rules) (simp_all add: quiet_simps quiet_rules)

lemma quiet_difficulties [quiet_rules]: "quiet (SetDungeonDifficulty g d)" "quiet (SetRaidDifficulty g d)"
  unfolding SetDungeonDifficulty_def SetRaidDifficulty_def
  by (intro quiet_rules; simp add: quiet_simps quiet_rules)+

section \<open>The invariant\<close>

text \<open>References: the group a player refers to lists the reference, once; a deleted group lists none.\<close>

definition refs_ok :: "gworld \<Rightarrow> bool" where
  "refs_ok w \<longleftrightarrow> (\<forall>p k g. ref_to (the_ref k (players w p)) = Some g \<longleftrightarrow> (p, k) \<in> set (m_memberMgr (groups w g))) \<and>
     (\<forall>g. distinct (m_memberMgr (groups w g)) \<and> (\<not> g_alive (groups w g) \<longrightarrow> m_memberMgr (groups w g) = []))"

definition invites_ok :: "gworld \<Rightarrow> bool" where
  "invites_ok w \<longleftrightarrow> (\<forall>p g. m_groupInvite (players w p) = Some g \<longrightarrow> g_alive (groups w g) \<and> p \<in> set (m_invitees (groups w g)))"

definition members_in :: "u8 \<Rightarrow> group \<Rightarrow> nat" where
  "members_in s x = length (filter (\<lambda>m. ms_group m = s) (m_memberSlots x))"

definition counters_ok :: "group \<Rightarrow> bool" where
  "counters_ok x \<longleftrightarrow> (m_subGroupsCounts x \<noteq> None \<longleftrightarrow> isRaidGroup x) \<and>
     (\<forall>c. m_subGroupsCounts x = Some c \<longrightarrow>
        length c = MAX_RAID_SUBGROUPS \<and>
        (\<forall>s. unat s < MAX_RAID_SUBGROUPS \<longrightarrow> c ! unat s = of_nat (members_in s x)))"

definition group_ok :: "gworld \<Rightarrow> bool" where
  "group_ok w \<longleftrightarrow> refs_ok w \<and> invites_ok w \<and> (\<forall>g. g_alive (groups w g) \<longrightarrow> counters_ok (groups w g))"

text \<open>The invariant, with groups that are there.\<close>

definition ok_on :: "nat set \<Rightarrow> gworld \<Rightarrow> bool" where
  "ok_on S w \<longleftrightarrow> group_ok w \<and> (\<forall>g \<in> S. g_alive (groups w g))"

lemma members_in_map: "members_in s x = length (filter (\<lambda>y. snd y = s) (map (\<lambda>m. (ms_guid m, ms_group m)) (m_memberSlots x)))"
  by (simp add: members_in_def filter_map comp_def)

lemma core_fields:
  assumes "core x = core y"
  shows "g_alive x = g_alive y" "m_memberMgr x = m_memberMgr y" "m_invitees x = m_invitees y"
    "isRaidGroup x = isRaidGroup y" "m_subGroupsCounts x = m_subGroupsCounts y" "members_in s x = members_in s y"
    "counters_ok x = counters_ok y"
proof -
  show "g_alive x = g_alive y" "m_memberMgr x = m_memberMgr y" "m_invitees x = m_invitees y"
    "isRaidGroup x = isRaidGroup y" "m_subGroupsCounts x = m_subGroupsCounts y"
    using assms by (simp_all add: core_def)
  moreover have m: "members_in s x = members_in s y" for s
    using assms by (simp add: core_def members_in_map)
  ultimately show "members_in s x = members_in s y" "counters_ok x = counters_ok y"
    by (simp_all add: counters_ok_def)
qed

lemma links_fields:
  assumes "links q = links r"
  shows "ref_to (the_ref k q) = ref_to (the_ref k r)" "m_groupInvite q = m_groupInvite r"
  using assms by (cases k; simp add: links_def the_ref_def)+

lemma structural_group_ok: "structural group_ok"
proof -
  have "group_ok v" if "same_core w v" "group_ok w" for w v
  proof -
    have g: "core (groups v g) = core (groups w g)" and p: "links (players v p) = links (players w p)" for g p
      using that(1) by (simp_all add: same_core_def)
    show ?thesis
      using that(2) by (simp add: group_ok_def refs_ok_def invites_ok_def core_fields [OF g] links_fields [OF p])
  qed
  then show ?thesis by (auto simp: structural_def)
qed

lemma structural_conj: "structural P \<Longrightarrow> structural Q \<Longrightarrow> structural (\<lambda>w. P w \<and> Q w)"
  by (auto simp: structural_def)

lemma structural_alive: "structural (\<lambda>w. g_alive (groups w g))"
  by (auto simp: structural_def same_core_def core_def)

lemma structural_invitees: "structural (\<lambda>w. m_invitees (groups w g) = v)"
  by (auto simp: structural_def same_core_def core_def)

lemma structural_ok_on: "structural (ok_on S)"
proof -
  have "ok_on S v" if "same_core w v" "ok_on S w" for w v
    using that structural_group_ok unfolding ok_on_def structural_def
    by (auto simp: same_core_def core_def)
  then show ?thesis by (auto simp: structural_def)
qed

lemmas structural_rules = structural_group_ok structural_ok_on structural_alive structural_conj structural_invitees

section \<open>Operations that keep the invariant\<close>

named_theorems keeps \<open>operations that keep the invariant\<close>

abbreviation kept :: "(gworld \<Rightarrow> bool) \<Rightarrow> (gworld, geff) act \<Rightarrow> bool" where
  "kept I a \<equiv> triple I a I (\<lambda>_. True)"

lemma keep_acts [keeps]: "list_all (kept I) xs \<Longrightarrow> kept I (acts xs)"
  by (rule triple_acts_inv) (simp add: list_all_iff)

lemma keep_cond [keeps]: "kept I a \<Longrightarrow> kept I b \<Longrightarrow> kept I (cond P a b)"
  by (auto simp: triple_def act_eval)

lemma keep_load [keeps]: "(\<And>v. kept I (k v)) \<Longrightarrow> kept I (load r k)"
  by (auto simp: triple_def act_eval)

lemma keep_each [keeps]: "(\<And>x. kept I (f x)) \<Longrightarrow> kept I (each f xs)"
  by (rule triple_each) blast

lemma keep_option [keeps]: "kept I a \<Longrightarrow> (\<And>y. kept I (f y)) \<Longrightarrow> kept I (case m of None \<Rightarrow> a | Some y \<Rightarrow> f y)"
  by (cases m) auto

lemma keep_pair [keeps]: "(\<And>x y. kept I (f x y)) \<Longrightarrow> kept I (case m of (x, y) \<Rightarrow> f x y)"
  by (cases m) auto

lemma keep_if [keeps]: "kept I a \<Longrightarrow> kept I b \<Longrightarrow> kept I (if P then a else b)"
  by simp

lemma keep_quiet: "structural I \<Longrightarrow> quiet a \<Longrightarrow> kept I a"
  by (rule quiet_triple)

lemmas kq = keep_quiet [OF structural_ok_on]

lemmas keep_quiet_ops [keeps] = kq [OF quiet_basic(1)] kq [OF quiet_basic(2)] kq [OF quiet_on_group] kq [OF quiet_on_player]
  kq [OF quiet_stored] kq [OF quiet_with_rolls] kq [OF quiet_SendUpdate] kq [OF quiet_homebind(1)] kq [OF quiet_homebind(2)]
  kq [OF quiet_take_difficulties] kq [OF quiet_ResetMax] kq [OF quiet_ChangeLeader] kq [OF quiet_icons] kq [OF quiet_flag]
  kq [OF quiet_roles] kq [OF quiet_looter] kq [OF quiet_difficulties(1)] kq [OF quiet_difficulties(2)]

lemma triple_effects_any: "triple P a Q E \<Longrightarrow> triple P a Q (\<lambda>_. True)"
  by (simp add: triple_def list_all_iff)

lemma ok_on_mono: "ok_on S w \<Longrightarrow> T \<subseteq> S \<Longrightarrow> ok_on T w"
  by (auto simp: ok_on_def)

lemma acts_append: "acts (xs @ ys) = andThen (acts xs) (acts ys)"
  by (induction xs) (auto simp: acts.simps andThen_def skip_def Let_def fun_eq_iff)

lemma triple_seq: "triple P (acts xs) Q (\<lambda>_. True) \<Longrightarrow> triple Q (acts ys) R (\<lambda>_. True) \<Longrightarrow> triple P (acts (xs @ ys)) R (\<lambda>_. True)"
  by (auto simp: acts_append intro: triple_andThen)

section \<open>References\<close>

lemma refs_okD: "refs_ok w \<Longrightarrow> ref_to (the_ref k (players w p)) = Some g \<Longrightarrow> g_alive (groups w g)"
  unfolding refs_ok_def by (metis empty_iff list.set(1))

lemma unlink_refs:
  "ref_to (the_ref j (players (ref_unlink p k w) q)) = (if q = p \<and> j = k then None else ref_to (the_ref j (players w q)))"
  by (auto simp: ref_unlink_def split: option.split)

lemma unlink_mgr:
  "m_memberMgr (groups (ref_unlink p k w) g) =
     (if ref_to (the_ref k (players w p)) = Some g then filter (\<lambda>y. y \<noteq> (p, k)) (m_memberMgr (groups w g))
      else m_memberMgr (groups w g))"
  by (auto simp: ref_unlink_def split: option.split)

lemma unlink_rest:
  "g_alive (groups (ref_unlink p k w) g) = g_alive (groups w g)"
  "m_invitees (groups (ref_unlink p k w) g) = m_invitees (groups w g)"
  "counters_ok (groups (ref_unlink p k w) g) = counters_ok (groups w g)"
  "m_groupInvite (players (ref_unlink p k w) q) = m_groupInvite (players w q)"
  "m_memberSlots (groups (ref_unlink p k w) g) = m_memberSlots (groups w g)"
  by (auto simp: ref_unlink_def counters_ok_def members_in_def isRaidGroup_def split: option.split)

lemma refs_unlink: "refs_ok w \<Longrightarrow> refs_ok (ref_unlink p k w)"
  unfolding refs_ok_def unlink_refs unlink_mgr unlink_rest by auto

lemma link_refs:
  "ref_to (the_ref j (players (ref_link p k (Some g) w) q)) = (if q = p \<and> j = k then Some g else ref_to (the_ref j (players w q)))"
  by (auto simp: ref_link_def Let_def unlink_refs)

lemma link_mgr:
  "m_memberMgr (groups (ref_link p k (Some g) w) h) =
     (if h = g then [(p, k)] else []) @ m_memberMgr (groups (ref_unlink p k w) h)"
  by (simp add: ref_link_def Let_def)

lemma link_rest:
  "g_alive (groups (ref_link p k h w) g) = g_alive (groups w g)"
  "m_invitees (groups (ref_link p k h w) g) = m_invitees (groups w g)"
  "counters_ok (groups (ref_link p k h w) g) = counters_ok (groups w g)"
  "m_groupInvite (players (ref_link p k h w) q) = m_groupInvite (players w q)"
  "m_memberSlots (groups (ref_link p k h w) g) = m_memberSlots (groups w g)"
proof -
  have c: "counters_ok (x\<lparr>m_memberMgr := l\<rparr>) = counters_ok x" for x l
    by (simp add: counters_ok_def members_in_def isRaidGroup_def)
  show "g_alive (groups (ref_link p k h w) g) = g_alive (groups w g)"
    "m_invitees (groups (ref_link p k h w) g) = m_invitees (groups w g)"
    "counters_ok (groups (ref_link p k h w) g) = counters_ok (groups w g)"
    "m_groupInvite (players (ref_link p k h w) q) = m_groupInvite (players w q)"
    "m_memberSlots (groups (ref_link p k h w) g) = m_memberSlots (groups w g)"
    by (simp_all add: ref_link_def Let_def unlink_rest c split: option.split)
qed

lemma refs_link:
  assumes "refs_ok w" and "g_alive (groups w g)"
  shows "refs_ok (ref_link p k (Some g) w)"
proof -
  have u: "refs_ok (ref_unlink p k w)" using assms(1) by (rule refs_unlink)
  have m: "(q, j) \<in> set (m_memberMgr (groups (ref_unlink p k w) h)) \<longleftrightarrow>
      \<not> (q = p \<and> j = k) \<and> ref_to (the_ref j (players w q)) = Some h" for q j h
    using u unlink_refs [of j p k w q] unfolding refs_ok_def by (metis option.distinct(1))
  have "distinct (m_memberMgr (groups (ref_unlink p k w) h))"
    "\<not> g_alive (groups w h) \<Longrightarrow> m_memberMgr (groups (ref_unlink p k w) h) = []" for h
    using u by (simp_all add: refs_ok_def unlink_rest)
  with assms(2) show ?thesis
    unfolding refs_ok_def link_refs link_mgr link_rest by (auto simp: m)
qed

lemma keep_unlink [keeps]: "kept (ok_on S) (upd (ref_unlink p k))"
  by (rule triple_upd) (simp add: ok_on_def group_ok_def refs_unlink invites_ok_def unlink_rest)

lemma keep_link [keeps]: "g \<in> S \<Longrightarrow> kept (ok_on S) (upd (ref_link p k (Some g)))"
  by (rule triple_upd) (simp add: ok_on_def group_ok_def refs_link invites_ok_def link_rest)

lemma quiet_setSubGroup [quiet_rules]: "quiet (upd (setSubGroup p k sub))"
  unfolding setSubGroup_def by (rule quiet_on_player) (cases k; simp add: links_def change_ref_def)

lemmas keep_setSubGroup [keeps] = kq [OF quiet_setSubGroup]

text \<open>A group a player refers to is there.\<close>

lemma keep_load_ref:
  assumes "kept (ok_on S) (f None s)" and "\<And>h s. kept (ok_on (insert h S)) (f (Some h) s)" and "\<And>s. kept (ok_on S) (f None s)"
  shows "kept (ok_on S) (load (\<lambda>w. (ref_to (the_ref k (players w p)), iSubGroup (the_ref j (players w q)))) (\<lambda>(g, s). f g s))"
proof (rule tripleT)
  fix w assume w: "ok_on S w"
  let ?r = "ref_to (the_ref k (players w p))" and ?s = "iSubGroup (the_ref j (players w q))"
  have "ok_on S (fst (f ?r ?s w))"
  proof (cases ?r)
    case (Some h)
    then have "g_alive (groups w h)" using w refs_okD [of w k p h] by (simp add: ok_on_def group_ok_def)
    then have "ok_on (insert h S) w" using w by (simp add: ok_on_def)
    then have "ok_on (insert h S) (fst (f (Some h) ?s w))" using assms(2) [of h ?s] by (simp add: triple_def)
    then show ?thesis unfolding Some by (rule ok_on_mono) blast
  qed (use assms(3) w in \<open>simp add: triple_def\<close>)
  then show "ok_on S (fst (load (\<lambda>w. (ref_to (the_ref k (players w p)), iSubGroup (the_ref j (players w q)))) (\<lambda>(g, s). f g s) w))"
    by (simp add: act_eval)
qed

lemma get_refs:
  "GetGroup w p = ref_to (the_ref MainRef (players w p))" "GetSubGroup w p = iSubGroup (the_ref MainRef (players w p))"
  "GetOriginalGroup w p = ref_to (the_ref OriginalRef (players w p))" "GetOriginalSubGroup w p = iSubGroup (the_ref OriginalRef (players w p))"
  by (simp_all add: GetGroup_def GetSubGroup_def GetOriginalGroup_def GetOriginalSubGroup_def the_ref_def)

lemma keep_SetGroup [keeps]: "(\<And>h. g = Some h \<Longrightarrow> h \<in> S) \<Longrightarrow> kept (ok_on S) (SetGroup p g sub)"
  unfolding SetGroup_def by (cases g) (auto intro!: keeps)

lemma keep_SetOriginalGroup [keeps]: "(\<And>h. g = Some h \<Longrightarrow> h \<in> S) \<Longrightarrow> kept (ok_on S) (SetOriginalGroup p g sub)"
  unfolding SetOriginalGroup_def by (cases g) (auto intro!: keeps)

lemma keep_SetBattleRaid [keeps]:
  assumes "g \<in> S"
  shows "kept (ok_on S) (SetBattlegroundOrBattlefieldRaid p g sub)"
proof -
  have "kept (ok_on S) (load (\<lambda>w. (ref_to (the_ref MainRef (players w p)), iSubGroup (the_ref MainRef (players w p))))
     (\<lambda>(old, oldsub). SetOriginalGroup p old oldsub))"
    by (rule keep_load_ref [where f = "\<lambda>g s. SetOriginalGroup p g s"]) (auto intro!: keeps)
  then show ?thesis
    using assms unfolding SetBattlegroundOrBattlefieldRaid_def get_refs by (auto intro!: keep_acts keep_unlink keep_link keep_setSubGroup)
qed

lemma keep_LeaveBattleRaid [keeps]: "kept (ok_on S) (RemoveFromBattlegroundOrBattlefieldRaid p)"
proof -
  have "kept (ok_on S) (load (\<lambda>w. (ref_to (the_ref OriginalRef (players w p)), iSubGroup (the_ref OriginalRef (players w p))))
     (\<lambda>(g, sub). case g of None \<Rightarrow> skip
      | Some g \<Rightarrow> acts [upd (ref_link p MainRef (Some g)), upd (setSubGroup p MainRef sub)]))"
    by (rule keep_load_ref [where f = "\<lambda>g sub. case g of None \<Rightarrow> skip
      | Some g \<Rightarrow> acts [upd (ref_link p MainRef (Some g)), upd (setSubGroup p MainRef sub)]"]) (auto intro!: keeps)
  then show ?thesis
    unfolding RemoveFromBattlegroundOrBattlefieldRaid_def get_refs
    by (auto intro!: keep_acts keep_unlink keep_SetOriginalGroup)
qed

lemma keep_leave_reference [keeps]: "kept (ok_on S) (leave_reference g p)"
  unfolding leave_reference_def by (auto intro!: keeps)

section \<open>Invitations\<close>

lemma keep_RemoveInvite [keeps]: "kept (ok_on S) (RemoveInvite g p)"
  by (rule tripleT) (auto simp: RemoveInvite_def act_eval ok_on_def group_ok_def refs_ok_def invites_ok_def
      counters_ok_def members_in_def isRaidGroup_def the_ref_def split: ref_kind.splits)

lemma RemoveAllInvites_groups:
  "fst (each (\<lambda>p. on_player p (\<lambda>q. q\<lparr>m_groupInvite := None\<rparr>)) ps w) =
     w\<lparr>players := \<lambda>p. if p \<in> set ps then (players w p)\<lparr>m_groupInvite := None\<rparr> else players w p\<rparr>"
  by (induction ps arbitrary: w) (auto simp: act_eval set_player_def fun_eq_iff)

text \<open>The invariant while the members of a group are already cleared.\<close>

definition ok_but :: "nat \<Rightarrow> nat set \<Rightarrow> gworld \<Rightarrow> bool" where
  "ok_but g S w \<longleftrightarrow> refs_ok w \<and> invites_ok w \<and> (\<forall>h. h \<noteq> g \<longrightarrow> g_alive (groups w h) \<longrightarrow> counters_ok (groups w h)) \<and>
     (\<forall>h \<in> S. g_alive (groups w h))"

lemma ok_on_but: "ok_on S w \<Longrightarrow> ok_but g S w"
  by (simp add: ok_on_def ok_but_def group_ok_def)

lemma triple_RemoveAllInvites_but:
  "triple (ok_but g S) (RemoveAllInvites g) (\<lambda>w. ok_but g S w \<and> m_invitees (groups w g) = []) (\<lambda>_. True)"
  by (rule tripleT) (auto simp: RemoveAllInvites_def act_eval RemoveAllInvites_groups ok_but_def refs_ok_def
      invites_ok_def the_ref_def split: ref_kind.splits)

lemma triple_RemoveAllInvites:
  "triple (ok_on S) (RemoveAllInvites g) (\<lambda>w. ok_on S w \<and> m_invitees (groups w g) = []) (\<lambda>_. True)"
  by (rule tripleT) (auto simp: RemoveAllInvites_def act_eval RemoveAllInvites_groups ok_on_def group_ok_def refs_ok_def
      invites_ok_def counters_ok_def members_in_def isRaidGroup_def the_ref_def split: ref_kind.splits)

lemma keep_RemoveAllInvites [keeps]: "kept (ok_on S) (RemoveAllInvites g)"
  by (rule triple_conseq [OF triple_RemoveAllInvites]) auto

lemma keep_AddInvite [keeps]: "g \<in> S \<Longrightarrow> kept (ok_on S) (AddInvite g p)"
  by (rule tripleT) (auto simp: AddInvite_def RemoveInvite_def act_eval ok_on_def group_ok_def refs_ok_def invites_ok_def
      counters_ok_def members_in_def isRaidGroup_def the_ref_def split: ref_kind.splits)

lemma keep_AddLeaderInvite [keeps]: "g \<in> S \<Longrightarrow> kept (ok_on S) (AddLeaderInvite g p)"
  unfolding AddLeaderInvite_def by (auto intro!: keeps simp: quiet_simps)

section \<open>The end of a group\<close>

lemma cut_references:
  fixes l :: "(guid \<times> ref_kind) list"
  defines "unref \<equiv> each (\<lambda>(p, k). on_player p (change_ref k (\<lambda>r. r\<lparr>ref_to := None\<rparr>))) l"
  shows "groups (fst (unref w)) = groups w"
    and "ref_to (the_ref j (players (fst (unref w)) q)) = (if (q, j) \<in> set l then None else ref_to (the_ref j (players w q)))"
    and "m_groupInvite (players (fst (unref w)) q) = m_groupInvite (players w q)"
  unfolding unref_def by (induction l arbitrary: w) (auto simp: act_eval split: if_splits)

lemma triple_destroy:
  "triple (\<lambda>w. ok_but g S w \<and> m_invitees (groups w g) = []) (destroy_group g) (ok_on (S - {g})) (\<lambda>_. True)"
proof (rule tripleT)
  fix w assume w: "ok_but g S w \<and> m_invitees (groups w g) = []"
  let ?v = "fst (destroy_group g w)"
  have g: "groups ?v = (groups w)(g := (groups w g)\<lparr>g_alive := False, g_rolls := [], m_memberMgr := [], m_subGroupsCounts := None\<rparr>)"
    by (simp add: destroy_group_def act_eval cut_references split: option.split)
  have i: "m_groupInvite (players ?v q) = m_groupInvite (players w q)"
    and r: "ref_to (the_ref j (players ?v q)) = (if (q, j) \<in> set (m_memberMgr (groups w g)) then None else ref_to (the_ref j (players w q)))" for j q
    by (simp_all add: destroy_group_def act_eval cut_references split: option.split)
  have n: "m_groupInvite (players w q) \<noteq> Some g" for q
    using w unfolding ok_but_def invites_ok_def by (metis empty_iff list.set(1))
  have u: "h = h'" if "(q, j) \<in> set (m_memberMgr (groups w h))" "(q, j) \<in> set (m_memberMgr (groups w h'))" for q j h h'
    using w that unfolding ok_but_def refs_ok_def by (metis option.inject)
  show "ok_on (S - {g}) ?v"
    using w n u [of _ _ _ g] unfolding ok_but_def ok_on_def group_ok_def refs_ok_def invites_ok_def r i g by auto
qed

end
