(* ===== verification/GroupKeep.thy ===== *)
theory GroupKeep
  imports GroupInv
begin

text \<open>
  Every operation on a group and every packet of a client keeps the invariant of \<open>GroupInv\<close>.
\<close>

section \<open>Counters\<close>

lemma length_bumps [simp]: "length (fold (\<lambda>m. bump 1 (ms_group m)) ms c) = length c"
  by (induction ms arbitrary: c) (auto simp: bump_def)

lemma length_bump [simp]: "length (bump d t c) = length c"
  by (simp add: bump_def)

lemma bump_nth: "unat s < length c \<Longrightarrow> bump d t c ! unat s = c ! unat s + (if t = s then d else 0)"
  by (auto simp: bump_def nth_list_update word_unat_eq_iff)

lemma bumps:
  "unat s < length c \<Longrightarrow> fold (\<lambda>m. bump 1 (ms_group m)) ms c ! unat s = c ! unat s + of_nat (length (filter (\<lambda>m. ms_group m = s) ms))"
  by (induction ms arbitrary: c) (auto simp: bump_nth)

lemma counters_init: "isRaidGroup x \<Longrightarrow> counters_ok (initRaidSubGroupsCounter x)"
proof -
  assume r: "isRaidGroup x"
  have "length (fold (\<lambda>m. bump 1 (ms_group m)) (m_memberSlots x) (replicate MAX_RAID_SUBGROUPS 0)) = MAX_RAID_SUBGROUPS"
    by simp
  moreover have "isRaidGroup (initRaidSubGroupsCounter x)" using r by (simp add: initRaidSubGroupsCounter_def isRaidGroup_def)
  ultimately show ?thesis
    by (simp add: counters_ok_def initRaidSubGroupsCounter_def members_in_def bumps)
qed

text \<open>A member comes with its count, moves with both counts, and goes with its count.\<close>

lemma counters_push:
  assumes "counters_ok x"
  shows "counters_ok (x\<lparr>m_memberSlots := m_memberSlots x @ [m], m_subGroupsCounts := map_option (bump 1 (ms_group m)) (m_subGroupsCounts x)\<rparr>)"
  using assms by (auto simp: counters_ok_def members_in_def isRaidGroup_def bump_nth)

lemma members_in_remove:
  assumes "i < length xs"
  shows "length (filter P xs) = length (filter P (take i xs @ drop (Suc i) xs)) + (if P (xs ! i) then 1 else 0)"
proof -
  have "filter P xs = filter P (take i xs) @ (if P (xs ! i) then [xs ! i] else []) @ filter P (drop (Suc i) xs)"
    by (subst id_take_nth_drop [OF assms]) simp
  then show ?thesis by simp
qed

lemma members_in_counts [simp]:
  "members_in s (x\<lparr>m_subGroupsCounts := c\<rparr>) = members_in s x"
  "members_in s (x\<lparr>m_subGroupsCounts := c, m_memberSlots := l\<rparr>) = members_in s (x\<lparr>m_memberSlots := l\<rparr>)"
  "members_in s (x\<lparr>m_memberSlots := l, m_subGroupsCounts := c\<rparr>) = members_in s (x\<lparr>m_memberSlots := l\<rparr>)"
  by (simp_all add: members_in_def)

lemma counters_drop:
  assumes "counters_ok x" and "i < length (m_memberSlots x)"
  shows "counters_ok (x\<lparr>m_subGroupsCounts := map_option (bump (- 1) (ms_group (m_memberSlots x ! i))) (m_subGroupsCounts x),
    m_memberSlots := take i (m_memberSlots x) @ drop (Suc i) (m_memberSlots x)\<rparr>)"
proof -
  have m: "of_nat (members_in s (x\<lparr>m_memberSlots := take i (m_memberSlots x) @ drop (Suc i) (m_memberSlots x)\<rparr>)) =
      (of_nat (members_in s x) :: u8) - (if ms_group (m_memberSlots x ! i) = s then 1 else 0)" for s
    using members_in_remove [OF assms(2), of "\<lambda>m. ms_group m = s"] by (simp add: members_in_def)
  show ?thesis
    using assms by (auto simp: counters_ok_def isRaidGroup_def bump_nth m)
qed

lemma counters_move:
  assumes "counters_ok x" and "i < length (m_memberSlots x)"
  shows "counters_ok (x\<lparr>m_memberSlots := (m_memberSlots x)[i := (m_memberSlots x ! i)\<lparr>ms_group := s\<rparr>],
    m_subGroupsCounts := map_option (bump (- 1) (ms_group (m_memberSlots x ! i))) (map_option (bump 1 s) (m_subGroupsCounts x))\<rparr>)"
proof -
  have m: "of_nat (members_in t (x\<lparr>m_memberSlots := (m_memberSlots x)[i := (m_memberSlots x ! i)\<lparr>ms_group := s\<rparr>]\<rparr>)) =
      (of_nat (members_in t x) :: u8) + (if s = t then 1 else 0) - (if ms_group (m_memberSlots x ! i) = t then 1 else 0)" for t
  proof -
    let ?xs = "m_memberSlots x" and ?P = "\<lambda>m. ms_group m = t"
    have e: "take i (?xs[i := m]) @ drop (Suc i) (?xs[i := m]) = take i ?xs @ drop (Suc i) ?xs" for m by simp
    show ?thesis
      using members_in_remove [OF assms(2), of ?P]
        members_in_remove [of i "?xs[i := (?xs ! i)\<lparr>ms_group := s\<rparr>]" ?P] assms(2)
      by (simp add: members_in_def e)
  qed
  show ?thesis
    using assms(1) by (auto simp: counters_ok_def isRaidGroup_def bump_nth m)
qed

text \<open>Changing one group.\<close>

lemma keep_change:
  assumes "\<And>x. counters_ok x \<Longrightarrow> counters_ok (f x)"
    and "\<And>x. g_alive (f x) = g_alive x \<and> m_memberMgr (f x) = m_memberMgr x \<and> m_invitees (f x) = m_invitees x"
  shows "kept (ok_on S) (on_group g f)"
  by (rule tripleT) (use assms in \<open>auto simp: act_eval ok_on_def group_ok_def refs_ok_def invites_ok_def\<close>)

section \<open>Members\<close>

lemma count_subgroup_state: "fst (count_subgroup d g sub w) = set_group g (\<lambda>x. x\<lparr>m_subGroupsCounts := map_option (bump d sub) (m_subGroupsCounts x)\<rparr>) w"
  by (cases "m_subGroupsCounts (groups w g)") (auto simp: count_subgroup_def act_eval set_group_def fun_upd_idem)

lemma kept_iff: "kept I a \<longleftrightarrow> (\<forall>w. I w \<longrightarrow> I (fst (a w)))"
  by (simp add: triple_def list_all_iff)

lemma keep_push:
  assumes "\<And>w. ms_group (m w) = sub"
  shows "kept (ok_on S) (acts [load m (\<lambda>m. on_group g (\<lambda>x. x\<lparr>m_memberSlots := m_memberSlots x @ [m]\<rparr>)),
     stored g f, SubGroupCounterIncrease g sub])"
proof -
  let ?f = "\<lambda>m x. x\<lparr>m_memberSlots := m_memberSlots x @ [m], m_subGroupsCounts := map_option (bump 1 (ms_group m)) (m_subGroupsCounts x)\<rparr>"
  have k: "kept (ok_on S) (on_group g (?f m))" for m
    using counters_push by (intro keep_change) auto
  have "fst (acts [load m (\<lambda>m. on_group g (\<lambda>x. x\<lparr>m_memberSlots := m_memberSlots x @ [m]\<rparr>)),
     stored g f, SubGroupCounterIncrease g sub] w) = fst (on_group g (?f (m w)) w)" for w
    by (simp add: act_eval SubGroupCounterIncrease_def count_subgroup_state stored_def set_group_twice assms)
  with k show ?thesis by (simp add: kept_iff)
qed

lemma keep_drop_slot [keeps]: "kept (ok_on S) (drop_slot g p)"
proof -
  let ?f = "\<lambda>i s x. x\<lparr>m_subGroupsCounts := map_option (bump (- 1) s) (m_subGroupsCounts x),
    m_memberSlots := take i (m_memberSlots x) @ drop (Suc i) (m_memberSlots x)\<rparr>"
  have "ok_on S (fst (drop_slot g p w))" if w: "ok_on S w" for w
  proof (cases "getMemberSlot p (groups w g)")
    case (Some i)
    then have i: "i < length (m_memberSlots (groups w g))" using first_index_bound by (auto simp: getMemberSlot_def)
    have "fst (drop_slot g p w) = set_group g (?f i (ms_group (m_memberSlots (groups w g) ! i))) w"
      using Some by (simp add: drop_slot_def act_eval SubGroupCounterDecrease_def count_subgroup_state stored_def set_group_twice)
    then show ?thesis
      using w counters_drop [OF _ i] by (auto simp: ok_on_def group_ok_def refs_ok_def invites_ok_def)
  qed (use w in \<open>simp add: drop_slot_def act_eval\<close>)
  then show ?thesis by (simp add: kept_iff)
qed

lemma quiet_when_connected [quiet_rules]:
  "quiet (whenever (\<lambda>w. FindConnected w p) (cond c (upd (setSubGroup p MainRef s)) (upd (setSubGroup p OriginalRef s))))"
  by (intro quiet_rules)

lemma keep_ChangeMembersGroup [keeps]: "kept (ok_on S) (ChangeMembersGroup e g p sub)"
proof -
  have "kept (ok_on S) (acts [stored g (\<lambda>_. [Statement (CHAR_UPD_GROUP_MEMBER_SUBGROUP sub (GetCounter p))]),
        whenever (\<lambda>w. FindConnected w p) (cond (\<lambda>w. GetGroup w p = Some g)
          (upd (setSubGroup p MainRef sub)) (upd (setSubGroup p OriginalRef sub))),
        SendUpdate e g])" (is "kept _ (acts ?rest)")
    by (auto intro!: keeps)
  moreover have "ok_on S (fst (acts [on_group g (change_slot p (\<lambda>m. m\<lparr>ms_group := sub\<rparr>)),
        SubGroupCounterIncrease g sub, SubGroupCounterDecrease g (GetMemberGroup p (groups w g))] w))"
    if w: "ok_on S w" and p: "IsMember p (groups w g)" for w
  proof -
    from p obtain i where i': "getMemberSlot p (groups w g) = Some i" by (auto simp: IsMember_def)
    then have i: "i < length (m_memberSlots (groups w g))" using first_index_bound by (auto simp: getMemberSlot_def)
    let ?s = "ms_group (m_memberSlots (groups w g) ! i)"
    note c = counters_move [OF _ i]
    show ?thesis
      using w c i' by (auto simp: act_eval SubGroupCounterIncrease_def SubGroupCounterDecrease_def count_subgroup_state
          change_slot_def GetMemberGroup_def ok_on_def group_ok_def refs_ok_def invites_ok_def)
  qed
  ultimately have "ok_on S (fst (acts ([on_group g (change_slot p (\<lambda>m. m\<lparr>ms_group := sub\<rparr>)),
        SubGroupCounterIncrease g sub, SubGroupCounterDecrease g (GetMemberGroup p (groups w g))] @ ?rest) w))"
    if "ok_on S w" "IsMember p (groups w g)" for w
    using that unfolding acts_append kept_iff by (simp add: andThen_eval)
  then show ?thesis by (simp add: kept_iff ChangeMembersGroup_def cond_eval load_eval skip_eval)
qed

lemma keep_enter_group [keeps]: "g \<in> S \<Longrightarrow> kept (ok_on S) (enter_group g p sub)"
  unfolding enter_group_def by (auto intro!: keeps)

lemma keep_clear_invite:
  "kept (ok_on S) (on_player p (\<lambda>q. q\<lparr>m_groupInvite := None\<rparr>))"
  by (rule tripleT) (auto simp: act_eval ok_on_def group_ok_def refs_ok_def invites_ok_def the_ref_def split: ref_kind.splits)

lemma keep_AddMember_body [keeps]:
  assumes "g \<in> S"
  shows "kept (ok_on S) (AddMember_body e g p sub)"
proof -
  have "kept (ok_on S) (acts ([load (\<lambda>w. new_slot w p sub) (\<lambda>m. on_group g (\<lambda>x. x\<lparr>m_memberSlots := m_memberSlots x @ [m]\<rparr>)),
     stored g (\<lambda>x. [CacheSetGroup p (m_guid x)]), SubGroupCounterIncrease g sub] @ drop 3 xs))" if "list_all (kept (ok_on S)) (drop 3 xs)" for xs
    by (rule triple_seq, rule keep_push, simp add: new_slot_def, rule keep_acts, rule that)
  note k = this [of "[a, b, c] @ ys" for a b c ys, simplified]
  show ?thesis
    using assms unfolding AddMember_body_def
    by (intro k) (auto intro!: keeps keep_clear_invite simp: quiet_simps)
qed

lemma keep_AddMember [keeps]: "g \<in> S \<Longrightarrow> kept (ok_on S) (AddMember e g p)"
  unfolding AddMember_def by (auto intro!: keeps)

section \<open>Disbanding and leaving\<close>

lemma keep_disband_member [keeps]: "kept (ok_on S) (disband_member e g hide p)"
  unfolding disband_member_def by (auto intro!: keeps)

lemma structural_but: "structural (\<lambda>w. ok_but g S w \<and> m_invitees (groups w g) = [])"
proof -
  have "ok_but g S v" if "same_core w v" "ok_but g S w" for w v
  proof -
    have c: "core (groups v h) = core (groups w h)" and p: "links (players v p) = links (players w p)" for h p
      using that(1) by (simp_all add: same_core_def)
    show ?thesis
      using that(2) by (simp add: ok_but_def refs_ok_def invites_ok_def core_fields [OF c] links_fields [OF p])
  qed
  then show ?thesis using structural_invitees [of g "[]"] by (auto simp: structural_def)
qed

lemma quiet_RemoveGroup [quiet_rules]: "quiet (upd (RemoveGroup g))" "quiet (upd (AddGroup g))"
  by (simp_all add: quiet_def act_eval RemoveGroup_def AddGroup_def same_core_def)

lemmas keep_store [keeps] = kq [OF quiet_RemoveGroup(1)] kq [OF quiet_RemoveGroup(2)]

lemma triple_Disband: "triple (ok_on S) (Disband e g hide) (ok_on (S - {g})) (\<lambda>_. True)"
proof -
  have clear: "triple (ok_on S) (on_group g (\<lambda>x. x\<lparr>g_rolls := [], m_memberSlots := []\<rparr>)) (ok_but g S) (\<lambda>_. True)"
    by (rule tripleT) (auto simp: act_eval ok_on_def ok_but_def group_ok_def refs_ok_def invites_ok_def)
  have q: "kept (\<lambda>w. ok_but g S w \<and> m_invitees (groups w g) = []) a" if "quiet a" for a
    by (rule keep_quiet [OF structural_but that])
  show ?thesis
    unfolding Disband_def
    by (rule triple_load, rule triple_pre [where P' = "ok_on S"],
        (rule triple_acts_Cons keep_quiet_ops clear triple_RemoveAllInvites_but q quiet_stored quiet_basic quiet_RemoveGroup
          triple_destroy triple_acts_Nil keep_load keep_each keep_disband_member)+) auto
qed

lemma triple_RemoveMember:
  "triple (ok_on S) (RemoveMember e g p method kicker reason) (ok_on (S - {g})) (\<lambda>_. True)"
proof -
  have w: "triple (ok_on S) a (ok_on (S - {g})) (\<lambda>_. True)" if "kept (ok_on S) a" for a
    by (rule triple_conseq [OF that]) (auto intro: ok_on_mono)
  have c: "triple P (cond b x y) Q (\<lambda>_. True)" if "triple P x Q (\<lambda>_. True)" "triple P y Q (\<lambda>_. True)"
    for P Q :: "gworld \<Rightarrow> bool" and b and x y :: "(gworld, geff) act"
    using that by (auto simp: triple_def act_eval)
  have last: "triple (ok_on S) (cond (lone_lfg_member e g) (Disband e g False)
       (whenever (\<lambda>w. length (m_memberMgr (groups w g)) < min_size (groups w g)) (Disband e g False))) (ok_on (S - {g})) (\<lambda>_. True)"
    by (intro c triple_Disband w keep_quiet_ops)
  have body: "triple (ok_on S) (RemoveMember_body e g p method kicker reason) (ok_on (S - {g})) (\<lambda>_. True)"
  proof -
    have "triple (ok_on S) (acts (xs @ [a])) (ok_on (S - {g})) (\<lambda>_. True)"
      if "list_all (kept (ok_on S)) xs" "triple (ok_on S) a (ok_on (S - {g})) (\<lambda>_. True)" for xs a
      by (rule triple_seq [OF keep_acts [OF that(1)]]) (rule triple_acts_Cons [OF that(2) triple_acts_Nil])
    note r = this [of "[x1, x2, x3, x4, x5, x6, x7, x8, x9, x10]" for x1 x2 x3 x4 x5 x6 x7 x8 x9 x10, simplified]
    show ?thesis unfolding RemoveMember_body_def by (rule r) (auto intro!: keeps last)
  qed
  have "triple (ok_on S) (acts [tell [Hook g (OnGroupRemoveMember p method kicker reason)], Disband e g False]) (ok_on (S - {g})) (\<lambda>_. True)"
    by (rule triple_acts_Cons [OF keep_quiet_ops(2) triple_acts_Cons [OF triple_Disband triple_acts_Nil]])
  note k = c [OF w [OF keep_quiet_ops(2)] c [OF body this]]
  show ?thesis
    unfolding RemoveMember_def by (rule triple_acts_Cons [OF keep_quiet_ops(2) triple_acts_Cons [OF k triple_acts_Nil]])
qed

lemma removed: "triple (ok_on (insert g S)) a (ok_on (S - {g})) (\<lambda>_. True) \<Longrightarrow> triple (ok_on (insert g S)) a (ok_on {}) (\<lambda>_. True)"
  by (erule triple_conseq) (auto intro: ok_on_mono)

lemma drop_to_empty: "triple P a (ok_on S) (\<lambda>_. True) \<Longrightarrow> triple P a (ok_on {}) (\<lambda>_. True)"
  by (erule triple_conseq) (auto intro: ok_on_mono)

section \<open>Founding, loading, kind\<close>

lemma counters_field [simp]:
  "counters_ok (x\<lparr>m_lootMethod := a, m_lootThreshold := b, m_looterGuid := c, m_masterLooterGuid := d,
     m_dungeonDifficulty := e, m_raidDifficulty := f\<rparr>) = counters_ok x"
  "counters_ok (x\<lparr>m_guid := c, m_leaderGuid := d, m_leaderName := n\<rparr>) = counters_ok x"
  by (simp_all add: counters_ok_def members_in_def isRaidGroup_def)

lemma counters_found: "counters_ok x \<Longrightarrow> counters_ok (found_group p low name x)"
proof -
  assume x: "counters_ok x"
  let ?t = "if in_battle x then GROUPTYPE_BGRAID else m_groupType x"
  let ?y = "x\<lparr>m_guid := guid_plain HG_Group low, m_leaderGuid := p, m_leaderName := name, m_groupType := ?t\<rparr>"
  have "counters_ok (if ?t AND GROUPTYPE_RAID \<noteq> 0 then initRaidSubGroupsCounter ?y else ?y)"
  proof (cases "?t AND GROUPTYPE_RAID \<noteq> 0")
    case True
    then show ?thesis by (simp add: counters_init isRaidGroup_def)
  next
    case False
    then have "\<not> in_battle x" by (auto simp: group_types split: if_splits)
    then show ?thesis using False x by (simp add: counters_ok_def isRaidGroup_def members_in_def)
  qed
  then show ?thesis unfolding found_group_def Let_def by simp
qed

lemma keep_found [keeps]: "kept (ok_on S) (on_group g (found_group p low name))"
  by (rule keep_change [OF counters_found]) (auto simp: found_group_def Let_def initRaidSubGroupsCounter_def)

lemma quiet_ids [quiet_rules]: "quiet GenerateGroupId" "quiet (upd (RegisterGroupId i))" "quiet (upd (InitGroupIds m))"
  by (simp_all add: quiet_def act_eval GenerateGroupId_def RegisterGroupId_def InitGroupIds_def Let_def same_core_def)

lemmas keep_ids [keeps] = kq [OF quiet_ids(1)] kq [OF quiet_ids(2)] kq [OF quiet_ids(3)]

lemma keep_Create [keeps]: "g \<in> S \<Longrightarrow> kept (ok_on S) (Create e g p)"
  unfolding Create_def by (auto intro!: keep_load keep_acts keep_cond keep_ids keep_found keep_AddMember keep_quiet_ops
      simp: quiet_simps)

definition just_built :: "nat \<Rightarrow> nat set \<Rightarrow> gworld \<Rightarrow> bool" where
  "just_built g S w \<longleftrightarrow> ok_on (insert g S) w \<and> m_invitees (groups w g) = [] \<and> m_subGroupsCounts (groups w g) = None"

lemma triple_construct:
  "triple (\<lambda>w. ok_on S w \<and> \<not> g_alive (groups w g)) (construct_group g lfg) (just_built g S) (\<lambda>_. True)"
proof (rule tripleT)
  fix w assume w: "ok_on S w \<and> \<not> g_alive (groups w g)"
  have "counters_ok (new_group lfg)" by (simp add: counters_ok_def new_group_def isRaidGroup_def group_types)
  moreover have "m_memberMgr (groups w g) = []" using w by (simp add: ok_on_def group_ok_def refs_ok_def)
  ultimately show "just_built g S (fst (construct_group g lfg w))"
    using w unfolding just_built_def ok_on_def group_ok_def refs_ok_def invites_ok_def
    by (auto simp: construct_group_def act_eval new_group_def)
qed

lemma built_ok: "triple (ok_on (insert g S)) a Q (\<lambda>_. True) \<Longrightarrow> triple (just_built g S) a Q (\<lambda>_. True)"
  by (erule triple_pre) (simp add: just_built_def)

lemma counters_raid: "counters_ok x \<Longrightarrow> counters_ok (initRaidSubGroupsCounter (x\<lparr>m_groupType := m_groupType x OR GROUPTYPE_RAID\<rparr>))"
  by (rule counters_init) (simp add: isRaidGroup_def flag_set_set GROUPTYPE_RAID_def)

lemma keep_ConvertToRaid [keeps]: "kept (ok_on S) (ConvertToRaid e g)"
proof -
  have "kept (ok_on S) (on_group g (\<lambda>x. initRaidSubGroupsCounter (x\<lparr>m_groupType := m_groupType x OR GROUPTYPE_RAID\<rparr>)))"
    by (rule keep_change [OF counters_raid]) (auto simp: initRaidSubGroupsCounter_def)
  then show ?thesis unfolding ConvertToRaid_def by (intro keep_acts) (simp add: keep_quiet_ops)
qed

lemma lfg_core: "core (x\<lparr>m_groupType := m_groupType x OR GROUPTYPE_LFG\<rparr>) = core x"
  "core (x\<lparr>m_groupType := (m_groupType x OR GROUPTYPE_LFG) OR GROUPTYPE_LFG_RESTRICTED, m_lootMethod := l\<rparr>) = core x"
  by (simp_all add: core_def isRaidGroup_def flag_set_other group_types)

lemma quiet_ConvertToLFG [quiet_rules]: "quiet (ConvertToLFG e g restricted)"
  unfolding ConvertToLFG_def by (intro quiet_rules) (cases restricted; simp add: quiet_rules lfg_core Let_def)

lemmas keep_ConvertToLFG [keeps] = kq [OF quiet_ConvertToLFG]

lemma counters_load:
  assumes "m_subGroupsCounts x = None"
  shows "counters_ok (load_group row name x)"
proof -
  let ?y = "x\<lparr>m_leaderName := name, m_lootMethod := row_lootMethod row,
          m_looterGuid := guid_plain HG_Player (row_looter row), m_lootThreshold := ucast (row_threshold row),
          m_targetIcons := row_icons row, m_groupType := row_type row\<rparr>"
  have "counters_ok (if row_type row AND GROUPTYPE_RAID \<noteq> 0 then initRaidSubGroupsCounter ?y else ?y)"
  proof (cases "row_type row AND GROUPTYPE_RAID \<noteq> 0")
    case True
    then show ?thesis by (simp add: counters_init isRaidGroup_def)
  next
    case False
    then show ?thesis using assms by (simp add: counters_ok_def isRaidGroup_def members_in_def)
  qed
  then show ?thesis
    unfolding load_group_def Let_def by (auto simp: counters_ok_def members_in_def isRaidGroup_def)
qed

lemma triple_LoadGroup:
  "triple (just_built g S) (LoadGroupFromDB e g row)
     (\<lambda>w. ok_on (insert g S) w \<and> m_invitees (groups w g) = []) (\<lambda>_. True)"
proof (rule tripleT)
  fix w assume w: "just_built g S w"
  show "ok_on (insert g S) (fst (LoadGroupFromDB e g row w)) \<and> m_invitees (groups (fst (LoadGroupFromDB e g row w)) g) = []"
  proof (cases "cache_name e (guid_plain HG_Player (row_leader row))")
    case None
    have "kept (ok_on (insert g S)) (on_group g (\<lambda>x. x\<lparr>m_guid := guid_plain HG_Group (row_guid row),
        m_leaderGuid := guid_plain HG_Player (row_leader row)\<rparr>))" by (auto intro!: keep_quiet_ops simp: quiet_simps)
    with w None show ?thesis
      by (auto simp: LoadGroupFromDB_def act_eval just_built_def kept_iff)
  next
    case (Some name)
    let ?f = "\<lambda>x. load_group row name (x\<lparr>m_guid := guid_plain HG_Group (row_guid row),
        m_leaderGuid := guid_plain HG_Player (row_leader row)\<rparr>)"
    have f: "g_alive (?f x) = g_alive x" "m_memberMgr (?f x) = m_memberMgr x" "m_invitees (?f x) = m_invitees x" for x
      by (simp_all add: load_group_def Let_def initRaidSubGroupsCounter_def)
    have n: "m_groupInvite (players w p) \<noteq> Some g" for p
      using w unfolding just_built_def ok_on_def group_ok_def invites_ok_def by (metis empty_iff list.set(1))
    have "counters_ok (?f (groups w g))" using w by (intro counters_load) (simp add: just_built_def)
    with w Some show ?thesis
      by (auto simp: LoadGroupFromDB_def act_eval just_built_def ok_on_def group_ok_def refs_ok_def invites_ok_def f n)
  qed
qed

lemma triple_load_row:
  "triple (\<lambda>w. ok_on S w \<and> \<not> g_alive (groups w g)) (load_group_row e g lfg row) (ok_on S) (\<lambda>_. True)"
proof -
  have "triple (\<lambda>w. ok_on (insert g S) w \<and> m_invitees (groups w g) = [])
     (if LoadGroupFromDB_result e row
      then acts [upd (AddGroup g), load (\<lambda>w. low_guid (groups w g)) (\<lambda>i. upd (RegisterGroupId i))]
      else destroy_group g) (ok_on (S - {g})) (\<lambda>_. True)"
  proof (cases "LoadGroupFromDB_result e row")
    case True
    have "kept (ok_on (insert g S)) (acts [upd (AddGroup g), load (\<lambda>w. low_guid (groups w g)) (\<lambda>i. upd (RegisterGroupId i))])"
      by (auto intro!: keeps)
    then have "triple (\<lambda>w. ok_on (insert g S) w \<and> m_invitees (groups w g) = []) (acts [upd (AddGroup g), load (\<lambda>w. low_guid (groups w g)) (\<lambda>i. upd (RegisterGroupId i))])
        (ok_on (S - {g})) (\<lambda>_ :: geff. True)"
      by (rule triple_conseq) (auto intro: ok_on_mono)
    with True show ?thesis by simp
  next
    case False
    have "triple (\<lambda>w. ok_on (insert g S) w \<and> m_invitees (groups w g) = []) (destroy_group g) (ok_on (S - {g})) (\<lambda>_. True)"
      by (rule triple_conseq [OF triple_destroy [where S = "insert g S" and g = g]]) (auto intro: ok_on_but ok_on_mono)
    with False show ?thesis by simp
  qed
  then have t: "triple (\<lambda>w. ok_on S w \<and> \<not> g_alive (groups w g)) (load_group_row e g lfg row) (ok_on (S - {g})) (\<lambda>_. True)"
    unfolding load_group_row_def
    by (rule triple_acts_Cons [OF triple_construct triple_acts_Cons [OF triple_LoadGroup triple_acts_Cons [OF _ triple_acts_Nil]]])
  show ?thesis
  proof (rule tripleT)
    fix w assume w: "ok_on S w \<and> \<not> g_alive (groups w g)"
    then have "S - {g} = S" by (auto simp: ok_on_def)
    with triple_state [OF t w] show "ok_on S (fst (load_group_row e g lfg row w))" by simp
  qed
qed

lemma load_const: "load (\<lambda>_. v) k = k v"
  by (simp add: load_def fun_eq_iff)

lemma keep_LoadMember [keeps]: "kept (ok_on S) (LoadMemberFromDB e g low flags sub roles)"
proof -
  let ?m = "\<lambda>name. \<lparr>ms_guid = guid_plain HG_Player low, ms_name = name, ms_group = sub, ms_flags = flags, ms_roles = roles\<rparr>"
  have "kept (ok_on S) (acts ([load (\<lambda>_. ?m name) (\<lambda>m. on_group g (\<lambda>x. x\<lparr>m_memberSlots := m_memberSlots x @ [m]\<rparr>)),
     stored g (\<lambda>x. [CacheSetGroup (guid_plain HG_Player low) (m_guid x)]), SubGroupCounterIncrease g sub] @
     [emit (\<lambda>w. [LfgSetupMember (guid_plain HG_Player low) (m_guid (groups w g))])]))" for name
    by (rule triple_seq, rule keep_push, simp, rule keep_acts) (simp add: keep_quiet_ops)
  then show ?thesis
    unfolding LoadMemberFromDB_def Let_def load_const append.simps by (auto intro!: keep_option keep_quiet_ops)
qed

end
