(* ===== verification/GroupServer.thy ===== *)
theory GroupServer
  imports GroupKeep
begin

text \<open>
  The packets, and the server as a whole: the operations other systems and the clients run on the
  groups, in any order, keep the invariant of \<open>GroupInv\<close>.
\<close>

section \<open>Packets keep the invariant\<close>

text \<open>A handler that may delete a group ends in the invariant without naming groups.\<close>

abbreviation safe :: "(gworld \<Rightarrow> bool) \<Rightarrow> (gworld, geff) act \<Rightarrow> bool" where
  "safe P a \<equiv> triple P a (ok_on {}) (\<lambda>_. True)"

named_theorems safes \<open>handlers end in the invariant\<close>

lemma safe_iff: "safe P a \<longleftrightarrow> (\<forall>w. P w \<longrightarrow> ok_on {} (fst (a w)))"
  by (simp add: triple_def list_all_iff)

lemma safe_cond [safes]: "safe P a \<Longrightarrow> safe P b \<Longrightarrow> safe P (cond c a b)"
  by (auto simp: triple_def act_eval)

lemma safe_load [safes]: "(\<And>v. safe P (k v)) \<Longrightarrow> safe P (load r k)"
  by (auto simp: triple_def act_eval)

lemma safe_option [safes]: "safe P a \<Longrightarrow> (\<And>y. safe P (f y)) \<Longrightarrow> safe P (case m of None \<Rightarrow> a | Some y \<Rightarrow> f y)"
  by (cases m) auto

lemma safe_pair [safes]: "(\<And>x y. safe P (f x y)) \<Longrightarrow> safe P (case m of (x, y) \<Rightarrow> f x y)"
  by (cases m) auto

lemma safe_if [safes]: "(b \<Longrightarrow> safe P x) \<Longrightarrow> (\<not> b \<Longrightarrow> safe P y) \<Longrightarrow> safe P (if b then x else y)"
  by simp

lemma safe_kept: "kept (ok_on S) a \<Longrightarrow> safe (ok_on S) a"
  by (rule drop_to_empty)

lemma safe_quiet: "quiet a \<Longrightarrow> safe (ok_on S) a"
  by (rule safe_kept) (rule kq)

lemma safe_Cons: "kept (ok_on S) a \<Longrightarrow> safe (ok_on S) (acts xs) \<Longrightarrow> safe (ok_on S) (acts (a # xs))"
  by (rule triple_acts_Cons)

lemma safe_one: "safe P a \<Longrightarrow> safe P (acts [a])"
  by (rule triple_acts_Cons [OF _ triple_acts_Nil])

lemma safe_nil: "safe (ok_on S) (acts [])"
  by (rule safe_kept) (rule triple_acts_Nil)

lemma in_own_group_safe:
  assumes "\<And>g. safe (ok_on {g}) (a g)"
  shows "safe (ok_on {}) (in_own_group p a)"
proof (rule tripleT)
  fix w assume w: "ok_on {} w"
  show "ok_on {} (fst (in_own_group p a w))"
  proof (cases "GetGroup w p")
    case (Some g)
    then have "ok_on {g} w"
      using w refs_okD [of w MainRef p g] by (simp add: ok_on_def group_ok_def get_refs)
    then show ?thesis using assms [of g] Some by (simp add: in_own_group_def act_eval triple_def)
  qed (use w in \<open>simp add: in_own_group_def act_eval\<close>)
qed

lemma invited_safe:
  assumes "\<And>g. safe (ok_on {g}) (a g)"
  shows "safe (ok_on {}) (load (\<lambda>w. m_groupInvite (players w p)) (\<lambda>g. case g of None \<Rightarrow> skip | Some g \<Rightarrow> a g))"
proof (rule tripleT)
  fix w assume w: "ok_on {} w"
  show "ok_on {} (fst (load (\<lambda>w. m_groupInvite (players w p)) (\<lambda>g. case g of None \<Rightarrow> skip | Some g \<Rightarrow> a g) w))"
  proof (cases "m_groupInvite (players w p)")
    case (Some g)
    then have "ok_on {g} w" using w by (simp add: ok_on_def group_ok_def invites_ok_def)
    then show ?thesis using assms [of g] Some by (simp add: act_eval triple_def)
  qed (use w in \<open>simp add: act_eval\<close>)
qed

lemma quiet_result [quiet_rules]: "quiet (SendPartyResult p op name res val)"
  unfolding SendPartyResult_def by (rule quiet_basic)

lemma safe_Disband: "safe (ok_on S) (Disband e g hide)"
  by (rule drop_to_empty) (rule triple_Disband)

lemma safe_RemoveMember: "safe (ok_on S) (RemoveMember e g p method kicker reason)"
  by (rule drop_to_empty) (rule triple_RemoveMember)

lemma safe_RemoveFromGroup: "safe (ok_on S) (RemoveFromGroup e g p method kicker reason)"
  unfolding RemoveFromGroup_def by (cases g) (simp_all add: safe_RemoveMember safe_quiet quiet_basic)

lemmas safe_leaf = safe_Disband safe_RemoveMember safe_RemoveFromGroup safe_quiet

lemma safe_UninviteFromGroup: "safe (ok_on {}) (UninviteFromGroup e p)"
  unfolding UninviteFromGroup_def
proof (rule invited_safe)
  fix g
  have d: "safe (ok_on {g}) (acts [RemoveAllInvites g, destroy_group g])"
    by (rule triple_acts_Cons [OF triple_RemoveAllInvites], rule triple_acts_Cons [OF _ triple_acts_Nil],
        rule triple_conseq [OF triple_destroy [where S = "{g}" and g = g]]) (auto intro: ok_on_but ok_on_mono)
  show "safe (ok_on {g}) (acts [RemoveInvite g p, whenever (\<lambda>w. GetMembersCount (groups w g) \<le> 1)
         (cond (\<lambda>w. IsCreated (groups w g)) (Disband e g True) (acts [RemoveAllInvites g, destroy_group g]))])"
    by (rule safe_Cons [OF keep_RemoveInvite safe_one]) (intro safe_cond safe_Disband safe_quiet quiet_basic d)
qed

lemma weaken: "safe (ok_on {}) a \<Longrightarrow> safe (ok_on S) a"
  by (erule triple_pre) (auto intro: ok_on_mono)

lemma safe_seq: "safe P a \<Longrightarrow> safe (ok_on {}) (acts xs) \<Longrightarrow> safe P (acts (a # xs))"
  by (rule triple_acts_Cons)

section \<open>Inviting\<close>

lemma invitable_construct:
  "triple (\<lambda>w. (ok_on S w \<and> \<not> g_alive (groups w a)) \<and> can_be_invited w q) (construct_group a lfg)
     (\<lambda>w. just_built a S w \<and> can_be_invited w q) (\<lambda>_. True)"
proof (rule tripleT)
  fix w assume w: "(ok_on S w \<and> \<not> g_alive (groups w a)) \<and> can_be_invited w q"
  have "GetGroup w q \<noteq> Some a"
    using w refs_okD [of w MainRef q a] by (auto simp: ok_on_def group_ok_def get_refs)
  then have "can_be_invited (fst (construct_group a lfg w)) q"
    using w by (auto simp: can_be_invited_def social_group_def construct_group_def act_eval GetGroup_def GetOriginalGroup_def
        split: option.splits if_splits)
  with w triple_construct [of S a lfg] show "just_built a S (fst (construct_group a lfg w)) \<and> can_be_invited (fst (construct_group a lfg w)) q"
    by (simp add: triple_def)
qed

lemma invitable_other:
  assumes "q \<noteq> p"
  shows "can_be_invited (fst (AddLeaderInvite a p w)) q = can_be_invited w q"
  using assms by (auto simp: AddLeaderInvite_def AddInvite_def RemoveInvite_def act_eval can_be_invited_def social_group_def
      GetGroup_def GetOriginalGroup_def isBGGroup_def isBFGroup_def split: option.splits if_splits)

text \<open>The second deletion of the code cannot happen: who could be invited before still can.\<close>

lemma safe_new_group:
  assumes "q \<noteq> p"
  shows "safe (\<lambda>w. (ok_on {} w \<and> \<not> g_alive (groups w a)) \<and> can_be_invited w q) (invite_to_new_group a lfg p q name)"
proof -
  have d: "safe (\<lambda>w. just_built a {} w \<and> can_be_invited w q) (destroy_group a)"
    by (rule triple_conseq [OF triple_destroy [where S = "{a}" and g = a]]) (auto simp: just_built_def intro: ok_on_but ok_on_mono)
  have l: "triple (\<lambda>w. just_built a {} w \<and> can_be_invited w q) (AddLeaderInvite a p) (\<lambda>w. ok_on {a} w \<and> can_be_invited w q) (\<lambda>_. True)"
    using keep_AddLeaderInvite [of a "{a}" p] by (auto simp: triple_def list_all_iff just_built_def invitable_other [OF assms])
  have s: "safe (\<lambda>w. ok_on {a} w \<and> can_be_invited w q) (cond (\<lambda>w. can_be_invited w q)
      (acts [AddInvite a q, send_invite p q name]) (destroy_group a))"
  proof -
    have "safe (ok_on {a}) (acts [AddInvite a q, send_invite p q name])"
      unfolding send_invite_def by (intro safe_Cons keep_AddInvite safe_one safe_quiet quiet_rules) (simp_all add: quiet_rules)
    then show ?thesis by (auto simp: triple_def act_eval)
  qed
  show ?thesis
    unfolding invite_to_new_group_def
    by (intro triple_acts_Cons [OF invitable_construct] safe_one safe_cond d triple_acts_Cons [OF l] s)
qed

lemma safe_invite_player:
  assumes "q \<noteq> p"
  shows "safe (\<lambda>w. ok_on {} w \<and> \<not> g_alive (groups w a)) (invite_player a lfg p q name)"
proof -
  let ?P = "\<lambda>w. ok_on {} w \<and> \<not> g_alive (groups w a)"
  let ?body = "load (\<lambda>w. inviting_group w p) (\<lambda>g. case g of None \<Rightarrow> invite_to_new_group a lfg p q name
         | Some g \<Rightarrow> whenever (\<lambda>w. can_be_invited w q) (acts [AddInvite g q, send_invite p q name]))"
  have s: "safe (\<lambda>w. ?P w \<and> R w) x" if "quiet x" for x R
    by (rule triple_pre [OF safe_quiet [where S = "{}", OF that]]) simp
  have i: "safe (\<lambda>w. ?P w \<and> can_be_invited w q) ?body"
  proof (rule tripleT)
    fix w assume w: "?P w \<and> can_be_invited w q"
    show "ok_on {} (fst (?body w))"
    proof (cases "inviting_group w p")
      case None
      then show ?thesis using triple_state [OF safe_new_group [OF assms] w] by (simp add: act_eval)
    next
      case (Some g)
      have "g_alive (groups w g)"
        using w Some refs_okD [of w MainRef p g] refs_okD [of w OriginalRef p g]
        by (auto simp: inviting_group_def social_group_def ok_on_def group_ok_def invites_ok_def get_refs
            split: option.splits if_splits)
      then have "ok_on {g} w" using w by (simp add: ok_on_def)
      moreover have "kept (ok_on {g}) (acts [AddInvite g q, send_invite p q name])"
        unfolding send_invite_def by (intro keep_acts) (simp add: keep_AddInvite kq quiet_rules)
      ultimately have "ok_on {} (fst (acts [AddInvite g q, send_invite p q name] w))"
        by (auto simp: kept_iff intro: ok_on_mono)
      with w Some show ?thesis by (simp add: act_eval)
    qed
  qed
  have m: "safe (\<lambda>w. ?P w \<and> \<not> \<not> can_be_invited w q) (cond b (refuse p op n res) (cond b' (refuse p op' n' res') ?body))" for b b' op op' n n' res res'
    using i s [OF quiet_result, of "\<lambda>w. can_be_invited w q"] by (auto simp: triple_def act_eval)
  have t: "quiet (acts [refuse p op n res, emit f])" for op n res f
    by (intro quiet_acts) (simp add: quiet_result quiet_basic)
  show ?thesis
    unfolding invite_player_def by (rule triple_cond [OF s [OF t] m])
qed

lemma safe_HandleGroupInvite:
  "safe (\<lambda>w. ok_on {} w \<and> \<not> g_alive (groups w a)) (HandleGroupInviteOpcode c a lfg p raw)"
proof -
  have s: "safe (\<lambda>w. ok_on {} w \<and> \<not> g_alive (groups w a)) x" if "quiet x" for x
    by (rule triple_pre [OF safe_quiet [where S = "{}", OF that]]) simp
  show ?thesis
    unfolding HandleGroupInviteOpcode_def
    by (intro safes safe_invite_player) (auto intro!: s quiet_rules)
qed

section \<open>The other packets\<close>

lemma safe_HandleGroupAccept: "safe (ok_on {}) (HandleGroupAcceptOpcode c p)"
proof -
  have k: "kept (ok_on {g}) (load (AddMember_result g) (\<lambda>ok. acts [AddMember e g p, whenever (\<lambda>_. ok) (emit (BroadcastGroupUpdate g))]))"
    "kept (ok_on {g}) (whenever (\<lambda>w. \<not> IsCreated (groups w g)) (acts [RemoveInvite g q, Create e g q, upd (AddGroup g)]))" for g e q
    by (auto intro!: keeps)
  have "kept (ok_on {g}) (acts [RemoveInvite g p,
         if spectator c p then refuse p PARTY_OP_INVITE [] ERR_INVITE_RESTRICTED
         else if \<not> hook_accept c p g then skip
         else unless (\<lambda>w. m_leaderGuid (groups w g) = p)
           (cond (\<lambda>w. IsFull (groups w g)) (refuse p PARTY_OP_INVITE [] ERR_GROUP_FULL)
             (load (\<lambda>w. m_leaderGuid (groups w g)) (\<lambda>leader.
               cond (\<lambda>w. \<not> IsCreated (groups w g) \<and> (\<not> FindConnected w leader \<or> spectator c leader))
                 (RemoveAllInvites g)
                 (acts [whenever (\<lambda>w. \<not> IsCreated (groups w g))
                      (acts [RemoveInvite g leader, Create e g leader, upd (AddGroup g)]),
                    load (AddMember_result g) (\<lambda>ok. acts [
                      AddMember e g p, whenever (\<lambda>_. ok) (emit (BroadcastGroupUpdate g))])]))))])" for g e
    using k by (auto intro!: keep_acts keep_if keep_cond keep_load keep_RemoveInvite keep_RemoveAllInvites kq [OF quiet_result] keep_quiet_ops(1))
  then show ?thesis
    unfolding HandleGroupAcceptOpcode_def Let_def by (rule invited_safe [OF safe_kept])
qed

lemmas keep_result [keeps] = kq [OF quiet_result]

lemma safe_HandleGroupDecline: "safe (ok_on {}) (HandleGroupDeclineOpcode c p)"
  unfolding HandleGroupDeclineOpcode_def
  by (intro safe_load safe_option safe_pair safe_seq [OF weaken [OF safe_UninviteFromGroup]] safe_one safe_quiet quiet_basic
      safe_UninviteFromGroup)

lemma safe_kick_answer: "safe (ok_on S) (kick_answer c p q name res)"
  unfolding kick_answer_def by (intro safe_if safe_load safe_option safe_quiet quiet_result quiet_basic)

lemma safe_HandleGroupUninviteGuid: "safe (ok_on {}) (HandleGroupUninviteGuidOpcode c p q reason)"
  unfolding HandleGroupUninviteGuidOpcode_def Let_def
  by (intro safe_if safe_load safe_kick_answer in_own_group_safe safe_cond safe_RemoveFromGroup
      weaken [OF safe_UninviteFromGroup] safe_quiet quiet_result quiet_basic)

lemma safe_HandleGroupUninvite: "safe (ok_on {}) (HandleGroupUninviteOpcode c p raw)"
  unfolding HandleGroupUninviteOpcode_def Let_def
  by (intro safe_if safe_load in_own_group_safe safe_cond safe_RemoveFromGroup safe_option
      weaken [OF safe_UninviteFromGroup] safe_quiet quiet_result quiet_basic)

lemma safe_HandleGroupDisband: "safe (ok_on {}) (HandleGroupDisbandOpcode c p)"
  unfolding HandleGroupDisbandOpcode_def
  by (intro in_own_group_safe safe_if safe_quiet quiet_result safe_Cons [OF keep_load [OF keep_result]] safe_one safe_load
      safe_RemoveFromGroup)

lemma safe_logout: "safe (ok_on {}) (logout_group c socket p)"
  unfolding logout_group_def
  by (intro safe_seq [where P = "ok_on {}"] safe_one safe_cond safe_load safe_option safe_UninviteFromGroup safe_RemoveFromGroup
      safe_quiet quiet_basic)

lemma safe_delete: "safe (ok_on {}) (delete_from_group e guild_of p)"
  unfolding delete_from_group_def by (intro safe_if safe_load safe_RemoveFromGroup safe_quiet quiet_basic)

lemma setter_core: "core (SetLootMethod m x) = core x" "core (SetMasterLooterGuid p x) = core x"
  "core (SetLootThreshold t x) = core x" "core (SetBattlegroundGroup b x) = core x" "core (SetBattlefieldGroup b x) = core x"
  "core (SetDifficultyChangePrevention e d x) = core x" "core (AddLfgFlag f x) = core x"
  by (simp_all add: SetLootMethod_def SetMasterLooterGuid_def SetLootThreshold_def SetBattlegroundGroup_def
      SetBattlefieldGroup_def SetDifficultyChangePrevention_def AddLfgFlag_def core_def isRaidGroup_def)

lemma quiet_own_group: "(\<And>g. quiet (a g)) \<Longrightarrow> quiet (in_own_group p a)"
  unfolding in_own_group_def by (intro quiet_rules)

lemmas quiet_setters = quiet_on_group [OF setter_core(1)] quiet_on_group [OF setter_core(2)] quiet_on_group [OF setter_core(3)]
  quiet_on_group [OF unique_core]

lemma quiet_SetLeader: "quiet (HandleGroupSetLeaderOpcode c p q)"
  unfolding HandleGroupSetLeaderOpcode_def
  by (intro quiet_own_group quiet_cond quiet_basic quiet_acts) (simp add: quiet_ChangeLeader quiet_SendUpdate)

lemma quiet_LootMethod: "quiet (HandleLootMethodOpcode c p method master threshold)"
  unfolding HandleLootMethodOpcode_def
  by (intro quiet_own_group quiet_cond quiet_basic quiet_acts) (simp add: quiet_setters quiet_SendUpdate)

lemma quiet_LootRoll: "quiet (HandleLootRoll c p item rollType)"
  unfolding HandleLootRoll_def
  by (intro quiet_own_group quiet_acts) (simp add: quiet_load quiet_with_rolls quiet_basic)

lemma quiet_Broadcasts:
  "quiet (HandleMinimapPingOpcode p x y)" "quiet (HandleRandomRollOpcode c p lo hi)"
  "quiet (HandleRaidReadyCheckFinishedOpcode p)"
  unfolding HandleMinimapPingOpcode_def HandleRandomRollOpcode_def HandleRaidReadyCheckFinishedOpcode_def Let_def
  by (intro quiet_own_group quiet_if quiet_load quiet_option quiet_cond quiet_basic)+

lemma quiet_RaidTarget: "quiet (HandleRaidTargetUpdateOpcode c p i q)"
  unfolding HandleRaidTargetUpdateOpcode_def
  by (intro quiet_own_group quiet_if quiet_cond quiet_basic quiet_icons)

lemma quiet_Assistant: "quiet (HandleGroupAssistantLeaderOpcode c p q apply)"
  unfolding HandleGroupAssistantLeaderOpcode_def
  by (intro quiet_own_group quiet_cond quiet_basic quiet_acts) (simp add: quiet_flag quiet_SendUpdate)

lemma quiet_Assignment: "quiet (HandlePartyAssignmentOpcode c p assignment apply q)"
  unfolding HandlePartyAssignmentOpcode_def
  by (intro quiet_own_group quiet_cond quiet_basic quiet_acts)
     (simp add: quiet_flag quiet_SendUpdate quiet_acts quiet_setters quiet_basic)

lemma quiet_ReadyCheck: "quiet (HandleRaidReadyCheckOpcode c p answer)"
  unfolding HandleRaidReadyCheckOpcode_def
  by (intro quiet_own_group quiet_option quiet_cond quiet_if quiet_basic quiet_acts) (simp add: quiet_basic)

lemmas quiet_packets = quiet_SetLeader quiet_LootMethod quiet_LootRoll quiet_Broadcasts quiet_RaidTarget quiet_Assistant
  quiet_Assignment quiet_ReadyCheck

lemma safe_HandleGroupRaidConvert: "safe (ok_on {}) (HandleGroupRaidConvertOpcode c p)"
  unfolding HandleGroupRaidConvertOpcode_def
  by (intro in_own_group_safe safe_kept keep_if keep_cond keep_acts keep_result keep_quiet_ops(1))
     (simp add: keep_result keep_ConvertToRaid)

lemma safe_HandleGroupChangeSubGroup: "safe (ok_on {}) (HandleGroupChangeSubGroupOpcode c p name sub)"
  unfolding HandleGroupChangeSubGroupOpcode_def
  by (intro in_own_group_safe safe_kept keep_if keep_cond keep_load keep_ChangeMembersGroup keep_quiet_ops(1))

lemma keep_swap_members: "kept (ok_on S) (swap_members c g q1 q2)"
  unfolding swap_members_def
  by (intro keep_load keep_pair keep_if keep_quiet_ops(1) keep_acts) (simp add: keep_ChangeMembersGroup)

lemma safe_swap: "safe (ok_on S) (unless b (load r (\<lambda>(q1, q2). if q1 = 0 \<or> q2 = 0 then refuse p op n res else swap_members c g q1 q2)))"
  by (intro safe_cond safe_load safe_pair safe_if safe_quiet [OF quiet_basic(1)] safe_quiet [OF quiet_result]
      safe_kept [OF keep_swap_members])

lemma safe_HandleGroupSwapSubGroup: "safe (ok_on {}) (HandleGroupSwapSubGroupOpcode c p raw1 raw2)"
  unfolding HandleGroupSwapSubGroupOpcode_def Let_def
  by (intro safe_option in_own_group_safe safe_swap safe_quiet [OF quiet_result])

section \<open>Battles, loading and login\<close>

lemma safe_new_battle_group:
  assumes "quiet b" and "quiet d"
  shows "safe (\<lambda>w. ok_on {} w \<and> \<not> g_alive (groups w a)) (acts [construct_group a lfg, b, Create e a p, upd (AddGroup a), d])"
proof -
  have "kept (ok_on {a}) (acts [b, Create e a p, upd (AddGroup a), d])"
    by (intro keep_acts) (simp add: kq assms keep_Create keep_store)
  then show ?thesis
    by (intro triple_acts_Cons [OF triple_construct] built_ok safe_kept)
qed

lemma acts_empty: "acts [x, acts xs, y] = acts (x # xs @ [y])" "acts [skip] = acts []"
  by (simp_all add: acts_append acts.simps fun_eq_iff andThen_def skip_def Let_def)

lemma safe_BgGroup:
  "safe (\<lambda>w. ok_on (set_option raid) w \<and> \<not> g_alive (groups w a)) (AddOrSetPlayerToCorrectBgGroup e a lfg b raid p)"
proof (cases raid)
  case None
  let ?new = "acts [construct_group a lfg, tell [SetBgRaid b a], on_group a (SetBattlegroundGroup (Some b)), Create e a p, upd (AddGroup a)]"
  have "safe (\<lambda>w. ok_on {} w \<and> \<not> g_alive (groups w a)) ?new"
  proof -
    have "kept (ok_on {a}) (acts [tell [SetBgRaid b a], on_group a (SetBattlegroundGroup (Some b)), Create e a p, upd (AddGroup a)])"
      by (intro keep_acts) (simp add: keep_quiet_ops keep_Create keep_store setter_core)
    then show ?thesis by (intro triple_acts_Cons [OF triple_construct] built_ok safe_kept)
  qed
  then show ?thesis
    unfolding AddOrSetPlayerToCorrectBgGroup_def None by (auto simp: triple_def act_eval)
next
  case (Some g)
  have "safe (ok_on {g}) (AddOrSetPlayerToCorrectBgGroup e a lfg b raid p)"
    unfolding AddOrSetPlayerToCorrectBgGroup_def Some option.case
    by (intro safe_kept keep_cond keep_load keep_quiet_ops(1) keep_SetBattleRaid keep_acts)
       (simp_all add: keep_AddMember keep_cond keep_acts keep_quiet_ops)
  then show ?thesis by (rule triple_pre) (simp add: Some)
qed

lemma safe_BfGroup:
  "safe (\<lambda>w. ok_on (set_option raid) w \<and> \<not> g_alive (groups w a)) (AddOrSetPlayerToCorrectBfGroup e a lfg b raid p)"
proof (cases raid)
  case None
  let ?new = "acts [construct_group a lfg, on_group a (SetBattlefieldGroup (Some b)), Create e a p, upd (AddGroup a), emit (\<lambda>w. [SetBfRaid b (m_guid (groups w a))])]"
  have "safe (\<lambda>w. ok_on {} w \<and> \<not> g_alive (groups w a)) ?new"
    by (rule safe_new_battle_group) (simp_all add: quiet_on_group setter_core quiet_basic)
  then show ?thesis
    unfolding AddOrSetPlayerToCorrectBfGroup_def None by (auto simp: triple_def act_eval)
next
  case (Some g)
  have "safe (ok_on {g}) (AddOrSetPlayerToCorrectBfGroup e a lfg b raid p)"
    unfolding AddOrSetPlayerToCorrectBfGroup_def Some option.case
    by (intro safe_kept keep_cond keep_load keep_quiet_ops(1) keep_SetBattleRaid keep_AddMember) simp_all
  then show ?thesis by (rule triple_pre) (simp add: Some)
qed

lemma safe_load_member_row: "safe (ok_on S) (load_member_row e row)"
  unfolding load_member_row_def by (cases row) (simp add: safe_load safe_option safe_kept keep_LoadMember safe_quiet quiet_basic)

lemma safe_LoadGroup_login:
  assumes "\<And>g. GetGroupByGUID gid w = Some g \<Longrightarrow> g_alive (groups w g)" and "ok_on {} w"
  shows "ok_on {} (fst (LoadGroup_login gid p w))"
proof -
  let ?rest = "whenever (\<lambda>w. case GetGroup w p of None \<Rightarrow> True | Some g \<Rightarrow> \<not> IsLeader p (groups w g))
       (on_player p (\<lambda>q. q\<lparr>p_leader_flag := False\<rparr>))"
  let ?take = "\<lambda>g. load (\<lambda>w. GetMemberGroup p (groups w g)) (\<lambda>sub.
          whenever (\<lambda>_. unat sub \<le> MAX_RAID_SUBGROUPS) (acts [
            whenever (\<lambda>w. IsLeader p (groups w g)) (on_player p (\<lambda>q. q\<lparr>p_leader_flag := True\<rparr>)),
            SetGroup p (Some g) sub,
            load (\<lambda>w. (m_dungeonDifficulty (groups w g), m_raidDifficulty (groups w g))) (\<lambda>(d, r).
              on_player p (\<lambda>q. q\<lparr>p_dungeon_difficulty := d, p_raid_difficulty := r\<rparr>))]))"
  have t: "kept (ok_on {g}) (?take g)" for g by (auto intro!: keeps simp: quiet_simps)
  have "ok_on {} (fst ((case (if gid = 0 then None else GetGroupByGUID gid w) of None \<Rightarrow> skip | Some g \<Rightarrow> ?take g) w))"
  proof (cases "if gid = 0 then None else GetGroupByGUID gid w")
    case (Some g)
    then have "ok_on {g} w" using assms by (simp add: ok_on_def split: if_splits)
    then have "ok_on {g} (fst (?take g w))" using t unfolding kept_iff by blast
    with Some show ?thesis by (auto intro: ok_on_mono)
  qed (use assms(2) in \<open>simp add: act_eval\<close>)
  moreover have "quiet ?rest" by (intro quiet_rules) (simp add: quiet_simps)
  then have "safe (ok_on {}) ?rest" by (rule safe_quiet)
  ultimately show ?thesis
    unfolding LoadGroup_login_def safe_iff acts.simps andThen_eval load_eval skip_eval fst_conv by blast
qed

section \<open>The server\<close>

text \<open>What runs on the groups: the packets of a player, what other systems do, loading.\<close>

datatype group_op =
    InviteOp partyenv nat u8 guid string | AcceptOp partyenv guid | DeclineOp partyenv guid
  | KickGuidOp partyenv guid guid string | KickNameOp partyenv guid string | LeaveOp partyenv guid
  | LogoutOp partyenv bool guid | DeleteOp genv "guid \<Rightarrow> u32" guid
  | SetLeaderOp partyenv guid guid | LootMethodOp partyenv guid u32 guid u32 | RollOp partyenv guid guid u8
  | PingOp guid u32 u32 | RandomOp partyenv guid u32 u32 | IconOp partyenv guid u8 guid
  | RaidConvertOp partyenv guid | SubGroupOp partyenv guid string u8 | SwapOp partyenv guid string string
  | AssistantOp partyenv guid guid bool | AssignOp partyenv guid u8 bool guid
  | ReadyOp partyenv guid "u8 option" | ReadyFinishedOp guid
  | BgOp genv nat u8 nat "nat option" guid | BfOp genv nat u8 nat "nat option" guid
  | GroupRowOp genv nat u8 group_row | MemberRowOp genv "u32 \<times> u32 \<times> u8 \<times> u8 \<times> u8" | LoginOp u32 guid
  | DisbandOp genv nat bool | RemoveOp genv nat guid RemoveMethod guid string
  | LfgOp genv nat bool | RolesOp genv nat guid u8 | LooterOp genv nat "guid \<Rightarrow> bool" bool
  | DungeonDifficultyOp nat u8 | RaidDifficultyOp nat u8 | BgNullOp nat | BfNullOp nat

fun run_op :: "group_op \<Rightarrow> (gworld, geff) act" where
  "run_op (InviteOp c a lfg p n) = HandleGroupInviteOpcode c a lfg p n"
| "run_op (AcceptOp c p) = HandleGroupAcceptOpcode c p"
| "run_op (DeclineOp c p) = HandleGroupDeclineOpcode c p"
| "run_op (KickGuidOp c p q r) = HandleGroupUninviteGuidOpcode c p q r"
| "run_op (KickNameOp c p n) = HandleGroupUninviteOpcode c p n"
| "run_op (LeaveOp c p) = HandleGroupDisbandOpcode c p"
| "run_op (LogoutOp c b p) = logout_group c b p"
| "run_op (DeleteOp e f p) = delete_from_group e f p"
| "run_op (SetLeaderOp c p q) = HandleGroupSetLeaderOpcode c p q"
| "run_op (LootMethodOp c p m q t) = HandleLootMethodOpcode c p m q t"
| "run_op (RollOp c p i t) = HandleLootRoll c p i t"
| "run_op (PingOp p x y) = HandleMinimapPingOpcode p x y"
| "run_op (RandomOp c p lo hi) = HandleRandomRollOpcode c p lo hi"
| "run_op (IconOp c p i q) = HandleRaidTargetUpdateOpcode c p i q"
| "run_op (RaidConvertOp c p) = HandleGroupRaidConvertOpcode c p"
| "run_op (SubGroupOp c p n s) = HandleGroupChangeSubGroupOpcode c p n s"
| "run_op (SwapOp c p n m) = HandleGroupSwapSubGroupOpcode c p n m"
| "run_op (AssistantOp c p q b) = HandleGroupAssistantLeaderOpcode c p q b"
| "run_op (AssignOp c p a b q) = HandlePartyAssignmentOpcode c p a b q"
| "run_op (ReadyOp c p a) = HandleRaidReadyCheckOpcode c p a"
| "run_op (ReadyFinishedOp p) = HandleRaidReadyCheckFinishedOpcode p"
| "run_op (BgOp e a lfg b raid p) = AddOrSetPlayerToCorrectBgGroup e a lfg b raid p"
| "run_op (BfOp e a lfg b raid p) = AddOrSetPlayerToCorrectBfGroup e a lfg b raid p"
| "run_op (GroupRowOp e g lfg row) = load_group_row e g lfg row"
| "run_op (MemberRowOp e row) = load_member_row e row"
| "run_op (LoginOp gid p) = LoadGroup_login gid p"
| "run_op (DisbandOp e g h) = Disband e g h"
| "run_op (RemoveOp e g p m k r) = RemoveMember e g p m k r"
| "run_op (LfgOp e g b) = ConvertToLFG e g b"
| "run_op (RolesOp e g p r) = SetLfgRoles e g p r"
| "run_op (LooterOp e g near_by b) = UpdateLooterGuid e g near_by b"
| "run_op (DungeonDifficultyOp g d) = SetDungeonDifficulty g d"
| "run_op (RaidDifficultyOp g d) = SetRaidDifficulty g d"
| "run_op (BgNullOp g) = on_group g (SetBattlegroundGroup None)"
| "run_op (BfNullOp g) = on_group g (SetBattlefieldGroup None)"

text \<open>What the caller of an operation grants: the address of a new object is free, the raid of a
  battle is there and a raid, the group a player logs into is there.\<close>

fun granted :: "group_op \<Rightarrow> gworld \<Rightarrow> bool" where
  "granted (InviteOp c a lfg p n) w \<longleftrightarrow> \<not> g_alive (groups w a)"
| "granted (BgOp e a lfg b raid p) w \<longleftrightarrow> \<not> g_alive (groups w a) \<and> (\<forall>g \<in> set_option raid. g_alive (groups w g) \<and> isRaidGroup (groups w g))"
| "granted (BfOp e a lfg b raid p) w \<longleftrightarrow> \<not> g_alive (groups w a) \<and> (\<forall>g \<in> set_option raid. g_alive (groups w g) \<and> isRaidGroup (groups w g))"
| "granted (GroupRowOp e g lfg row) w \<longleftrightarrow> \<not> g_alive (groups w g)"
| "granted (LoginOp gid p) w \<longleftrightarrow> (\<forall>g \<in> set_option (GetGroupByGUID gid w). g_alive (groups w g))"
| "granted _ w \<longleftrightarrow> True"

inductive group_step :: "gworld \<Rightarrow> gworld \<Rightarrow> bool" where
  "granted op w \<Longrightarrow> group_step w (fst (run_op op w))"

text \<open>At the start there is no group, and nobody refers to one.\<close>

definition no_groups :: "gworld \<Rightarrow> bool" where
  "no_groups w \<longleftrightarrow> (\<forall>g. \<not> g_alive (groups w g) \<and> m_memberMgr (groups w g) = []) \<and> (\<forall>p. links (players w p) = (None, None, None))"

lemma ok_on_empty: "ok_on {} w = group_ok w"
  by (simp add: ok_on_def)

lemma op_keeps:
  assumes "group_ok w" and "granted op w"
  shows "group_ok (fst (run_op op w))"
proof -
  have w: "ok_on {} w" using assms(1) by (simp add: ok_on_empty)
  have s: "group_ok (fst (x w))" if "safe (ok_on {}) x" for x
    using triple_state [OF that w] by (simp add: ok_on_empty)
  have q: "group_ok (fst (x w))" if "quiet x" for x
    using s [OF safe_quiet [OF that]] .
  note all = safe_HandleGroupAccept safe_HandleGroupDecline safe_HandleGroupUninviteGuid safe_HandleGroupUninvite
    safe_HandleGroupDisband safe_logout safe_delete safe_HandleGroupRaidConvert safe_HandleGroupChangeSubGroup
    safe_HandleGroupSwapSubGroup safe_load_member_row safe_Disband safe_RemoveMember
  show ?thesis
  proof (cases op)
    case (InviteOp c a lfg p n)
    then show ?thesis using w assms(2) triple_state [OF safe_HandleGroupInvite] by (simp add: ok_on_empty)
  next
    case (BgOp e a lfg b raid p)
    then show ?thesis using assms triple_state [OF safe_BgGroup [of raid a]] by (simp add: ok_on_def)
  next
    case (BfOp e a lfg b raid p)
    then show ?thesis using assms triple_state [OF safe_BfGroup [of raid a]] by (simp add: ok_on_def)
  next
    case (GroupRowOp e g lfg row)
    then show ?thesis using w assms(2) triple_state [OF triple_load_row [where S = "{}"]] by (simp add: ok_on_empty)
  next
    case (LoginOp gid p)
    then show ?thesis using w assms(2) safe_LoadGroup_login by (simp add: ok_on_empty)
  qed (simp_all add: s all q quiet_packets quiet_ConvertToLFG quiet_roles quiet_looter quiet_difficulties
      quiet_on_group setter_core)
qed

lemma no_groups_ok: "no_groups w \<Longrightarrow> group_ok w"
  by (auto simp: no_groups_def group_ok_def refs_ok_def invites_ok_def links_def the_ref_def split: ref_kind.splits)

interpretation grps: component no_groups group_step group_ok
  by unfold_locales (auto elim!: group_step.cases intro: no_groups_ok op_keeps)

end
