(* ===== verification/GroupCapacity.thy ===== *)
theory GroupCapacity
  imports GroupServer
begin

text \<open>
  No group is overfull: at most five members in a subgroup, a group that is no raid has only the
  first subgroup, a raid eight. Most operations only \<open>shrink\<close> the member lists; those that add or
  move members look at the counters first, which are right by \<open>GroupInv\<close>.
\<close>

section \<open>Operations that add nobody\<close>

abbreviation subgroups :: "group \<Rightarrow> u8 multiset" where
  "subgroups x \<equiv> image_mset ms_group (mset (m_memberSlots x))"

definition shrinks :: "gworld \<Rightarrow> gworld \<Rightarrow> bool" where
  "shrinks w v \<longleftrightarrow> (\<forall>g. g_alive (groups v g) \<longrightarrow> g_alive (groups w g) \<and> isRaidGroup (groups v g) = isRaidGroup (groups w g) \<and>
     subgroups (groups v g) \<subseteq># subgroups (groups w g))"

definition shrinking :: "(gworld, geff) act \<Rightarrow> bool" where
  "shrinking a \<longleftrightarrow> (\<forall>w. shrinks w (fst (a w)))"

named_theorems shrink_rules \<open>operations that add nobody\<close>

lemma shrinks_refl [simp]: "shrinks w w"
  by (simp add: shrinks_def)

lemma shrinks_trans: "shrinks w v \<Longrightarrow> shrinks v u \<Longrightarrow> shrinks w u"
  unfolding shrinks_def by (meson subset_mset.order_trans)

lemma subgroups_core: "core x = core y \<Longrightarrow> subgroups x = subgroups y"
proof -
  assume "core x = core y"
  then have "image_mset snd (mset (map (\<lambda>m. (ms_guid m, ms_group m)) (m_memberSlots x))) =
      image_mset snd (mset (map (\<lambda>m. (ms_guid m, ms_group m)) (m_memberSlots y)))" by (simp add: core_def)
  then show ?thesis by (simp add: comp_def image_mset.compositionality)
qed

lemma shrinks_same_core: "same_core w v \<Longrightarrow> shrinks w v"
  unfolding same_core_def shrinks_def by (metis core_fields(1,4) subgroups_core subset_mset.order_refl)

lemma shrink_quiet: "quiet a \<Longrightarrow> shrinking a"
  by (auto simp: quiet_def shrinking_def intro: shrinks_same_core)

lemmas shrink_quiet_ops [shrink_rules] = shrink_quiet [OF quiet_stored] shrink_quiet [OF quiet_homebind(1)]
  shrink_quiet [OF quiet_homebind(2)] shrink_quiet [OF quiet_SendUpdate] shrink_quiet [OF quiet_RemoveGroup(1)]
  shrink_quiet [OF quiet_RemoveGroup(2)] shrink_quiet [OF quiet_with_rolls] shrink_quiet [OF quiet_ResetMax]
  shrink_quiet [OF quiet_ChangeLeader] shrink_quiet [OF quiet_result] shrink_quiet [OF quiet_take_difficulties]

lemma shrink_andThen: "shrinking a \<Longrightarrow> shrinking b \<Longrightarrow> shrinking (andThen a b)"
  by (auto simp: shrinking_def act_eval intro: shrinks_trans)

lemma shrink_skip [shrink_rules]: "shrinking skip" "shrinking (emit f)"
  by (simp_all add: shrinking_def act_eval)

lemma shrink_acts [shrink_rules]: "list_all shrinking xs \<Longrightarrow> shrinking (acts xs)"
  by (induction xs) (auto simp: acts.simps shrink_skip intro: shrink_andThen)

lemma shrink_each [shrink_rules]: "(\<And>x. shrinking (f x)) \<Longrightarrow> shrinking (each f xs)"
  by (induction xs) (auto simp: each.simps shrink_skip intro: shrink_andThen)

lemma shrink_cond [shrink_rules]: "shrinking a \<Longrightarrow> shrinking b \<Longrightarrow> shrinking (cond P a b)"
  by (simp add: shrinking_def act_eval)

lemma shrink_load [shrink_rules]: "(\<And>v. shrinking (k v)) \<Longrightarrow> shrinking (load r k)"
  by (simp add: shrinking_def act_eval)

lemma shrink_option [shrink_rules]: "shrinking a \<Longrightarrow> (\<And>y. shrinking (f y)) \<Longrightarrow> shrinking (case m of None \<Rightarrow> a | Some y \<Rightarrow> f y)"
  by (cases m) auto

lemma shrink_pair [shrink_rules]: "(\<And>x y. shrinking (f x y)) \<Longrightarrow> shrinking (case m of (x, y) \<Rightarrow> f x y)"
  by (cases m) auto

lemma shrink_if [shrink_rules]: "(b \<Longrightarrow> shrinking x) \<Longrightarrow> (\<not> b \<Longrightarrow> shrinking y) \<Longrightarrow> shrinking (if b then x else y)"
  by simp

lemma shrink_player [shrink_rules]: "shrinking (on_player p f)"
  by (simp add: shrinking_def act_eval shrinks_def)

lemma shrink_group:
  assumes "\<And>x. g_alive (f x) \<Longrightarrow> g_alive x \<and> isRaidGroup (f x) = isRaidGroup x \<and> subgroups (f x) \<subseteq># subgroups x"
  shows "shrinking (on_group g f)"
  using assms by (simp add: shrinking_def act_eval shrinks_def)

lemma shrink_unlink [shrink_rules]: "shrinking (upd (ref_unlink p k))"
  by (auto simp: shrinking_def act_eval shrinks_def ref_unlink_def isRaidGroup_def split: option.split)

lemma shrink_link [shrink_rules]: "shrinking (upd (ref_link p k g))"
proof -
  have "shrinks w (ref_unlink p k w)" for w using shrink_unlink [of p k] by (simp add: shrinking_def act_eval)
  then have "shrinks w (ref_link p k g w)" for w
    by (auto simp: ref_link_def Let_def shrinks_def isRaidGroup_def split: option.split)
  then show ?thesis by (simp add: shrinking_def act_eval)
qed

lemma shrink_setSubGroup [shrink_rules]: "shrinking (upd (setSubGroup p k s))"
  by (rule shrink_quiet) (rule quiet_setSubGroup)

lemma shrink_refs [shrink_rules]:
  "shrinking (SetGroup p g s)" "shrinking (SetOriginalGroup p g s)"
  "shrinking (SetBattlegroundOrBattlefieldRaid p h s)" "shrinking (RemoveFromBattlegroundOrBattlefieldRaid p)"
  unfolding SetGroup_def SetOriginalGroup_def SetBattlegroundOrBattlefieldRaid_def RemoveFromBattlegroundOrBattlefieldRaid_def
  by (auto intro!: shrink_rules)

lemma shrink_leave_reference [shrink_rules]: "shrinking (leave_reference g p)"
  unfolding leave_reference_def by (intro shrink_rules)

lemma shrink_invites [shrink_rules]:
  "shrinking (RemoveInvite g p)" "shrinking (RemoveAllInvites g)" "shrinking (AddInvite g p)" "shrinking (AddLeaderInvite g p)"
proof -
  show r: "shrinking (RemoveInvite g p)" "shrinking (RemoveAllInvites g)"
    unfolding RemoveInvite_def RemoveAllInvites_def
    by (auto intro!: shrink_rules shrink_group simp: isRaidGroup_def)
  show a: "shrinking (AddInvite g p)"
    unfolding AddInvite_def by (auto intro!: shrink_rules shrink_group r simp: isRaidGroup_def)
  show "shrinking (AddLeaderInvite g p)"
    unfolding AddLeaderInvite_def by (auto intro!: shrink_rules shrink_group a simp: isRaidGroup_def)
qed

lemma shrink_destroy [shrink_rules]: "shrinking (destroy_group g)"
  unfolding destroy_group_def by (auto intro!: shrink_rules shrink_group split: option.splits)

lemma subgroups_drop: "image_mset f (mset (take i xs @ drop (Suc i) xs)) \<subseteq># image_mset f (mset xs)"
proof (cases "i < length xs")
  case True
  then have "mset xs = mset (take i xs @ drop (Suc i) xs) + {# xs ! i #}"
    by (subst id_take_nth_drop [OF True]) simp
  then show ?thesis by simp
qed simp

lemma shrink_drop_slot [shrink_rules]: "shrinking (drop_slot g p)"
proof -
  have "shrinking (count_subgroup d g s)" for d s
    unfolding count_subgroup_def by (auto intro!: shrink_rules shrink_group simp: isRaidGroup_def)
  moreover have "shrinking (on_group g (\<lambda>x. x\<lparr>m_memberSlots := take i (m_memberSlots x) @ drop (Suc i) (m_memberSlots x)\<rparr>))" for i
    by (rule shrink_group) (use subgroups_drop in \<open>simp add: isRaidGroup_def\<close>)
  ultimately show ?thesis
    unfolding drop_slot_def SubGroupCounterDecrease_def
    by (auto intro!: shrink_load shrink_option shrink_acts shrink_skip shrink_quiet_ops)
qed

lemma shrink_disband_member [shrink_rules]: "shrinking (disband_member e g hide p)"
  unfolding disband_member_def
  by (auto intro!: shrink_rules)

lemma shrink_Disband [shrink_rules]: "shrinking (Disband e g hide)"
proof -
  have "shrinking (on_group g (\<lambda>x. x\<lparr>g_rolls := [], m_memberSlots := []\<rparr>))"
    by (rule shrink_group) (simp add: isRaidGroup_def)
  then show ?thesis
    unfolding Disband_def by (intro shrink_load shrink_acts) (simp add: shrink_rules)
qed

lemma shrink_RemoveMember [shrink_rules]: "shrinking (RemoveMember e g p method kicker reason)"
proof -
  have "shrinking (RemoveMember_body e g p method kicker reason)"
    unfolding RemoveMember_body_def
    by (intro shrink_acts) (simp add: shrink_rules)
  then show ?thesis unfolding RemoveMember_def by (intro shrink_acts) (simp add: shrink_rules)
qed

lemma shrinks_length:
  assumes "shrinks w v" and "g_alive (groups v g)"
  shows "length (m_memberSlots (groups v g)) \<le> length (m_memberSlots (groups w g))"
proof -
  have "subgroups (groups v g) \<subseteq># subgroups (groups w g)" using assms by (simp add: shrinks_def)
  from size_mset_mono [OF this] show ?thesis by simp
qed

section \<open>Room\<close>

definition fits :: "group \<Rightarrow> bool" where
  "fits x \<longleftrightarrow> (\<forall>m \<in> set (m_memberSlots x). unat (ms_group m) < (if isRaidGroup x then MAX_RAID_SUBGROUPS else 1)) \<and>
     (\<forall>s. members_in s x \<le> MAXGROUPSIZE)"

definition roomy :: "gworld \<Rightarrow> bool" where
  "roomy w \<longleftrightarrow> (\<forall>g. g_alive (groups w g) \<longrightarrow> fits (groups w g))"

definition full_on :: "nat set \<Rightarrow> gworld \<Rightarrow> bool" where
  "full_on S w \<longleftrightarrow> ok_on S w \<and> roomy w"

lemma members_in_count: "members_in s x = count (subgroups x) s"
proof -
  have "length (filter (\<lambda>m. ms_group m = s) ms) = count (image_mset ms_group (mset ms)) s" for ms
    by (induction ms) auto
  then show ?thesis by (simp add: members_in_def)
qed

lemma fits_subgroups: "fits x \<longleftrightarrow> (\<forall>s \<in># subgroups x. unat s < (if isRaidGroup x then MAX_RAID_SUBGROUPS else 1)) \<and>
     (\<forall>s. count (subgroups x) s \<le> MAXGROUPSIZE)"
  by (simp add: fits_def members_in_count)

lemma sub_bounds:
  assumes "N \<subseteq># M" and "\<forall>s \<in># M. P s" and "\<forall>s. count M s \<le> n"
  shows "(\<forall>s \<in># N. P s) \<and> (\<forall>s. count N s \<le> n)"
  using assms by (meson mset_subset_eqD mset_subset_eq_count order_trans)

lemma fits_mono:
  assumes "fits x" and "isRaidGroup y = isRaidGroup x" and "subgroups y \<subseteq># subgroups x"
  shows "fits y"
  using assms(1) sub_bounds [OF assms(3)] unfolding fits_subgroups assms(2) by blast

lemma roomy_shrinks: "shrinks w v \<Longrightarrow> roomy w \<Longrightarrow> roomy v"
  unfolding roomy_def shrinks_def by (blast intro: fits_mono)

lemma roomy_shrinking: "shrinking a \<Longrightarrow> roomy w \<Longrightarrow> roomy (fst (a w))"
  by (auto simp: shrinking_def intro: roomy_shrinks)

lemma roomy_set: "roomy w \<Longrightarrow> (g_alive (f (groups w g)) \<Longrightarrow> fits (f (groups w g))) \<Longrightarrow> roomy (set_group g f w)"
  by (simp add: roomy_def)

text \<open>How many members a group that fits has.\<close>

lemma subgroup_sizes:
  assumes "finite A" and "set_mset M \<subseteq> A" and "\<And>s. count M s \<le> n"
  shows "size M \<le> card A * n"
proof -
  have "size M = (\<Sum>s \<in> set_mset M. count M s)" by (rule size_multiset_overloaded_eq)
  also have "\<dots> \<le> (\<Sum>s \<in> A. count M s)" using assms(1,2) by (rule sum_mono2) simp
  also have "\<dots> \<le> (\<Sum>s \<in> A. n)" by (rule sum_mono) (rule assms(3))
  finally show ?thesis by simp
qed

lemma fits_size: "fits x \<Longrightarrow> length (m_memberSlots x) \<le> (if isRaidGroup x then MAXRAIDSIZE else MAXGROUPSIZE)"
proof -
  assume x: "fits x"
  let ?n = "if isRaidGroup x then MAX_RAID_SUBGROUPS else 1" and ?A = "(of_nat :: nat \<Rightarrow> u8) ` {..<if isRaidGroup x then MAX_RAID_SUBGROUPS else 1}"
  have "set_mset (subgroups x) \<subseteq> ?A"
  proof
    fix s assume "s \<in># subgroups x"
    then have "unat s < ?n" using x unfolding fits_subgroups by blast
    then show "s \<in> ?A" by (intro image_eqI [of _ _ "unat s"]) auto
  qed
  then have "size (subgroups x) \<le> card ?A * MAXGROUPSIZE"
    using x by (intro subgroup_sizes) (auto simp: fits_subgroups)
  also have "\<dots> \<le> ?n * MAXGROUPSIZE" using card_image_le [of "{..<?n}" "of_nat :: nat \<Rightarrow> u8"] by (intro mult_le_mono1) auto
  finally show ?thesis by (simp add: group_sizes split: if_splits)
qed

section \<open>Adding a member\<close>

lemma first_free_spec:
  "first_free cs n = Some s \<Longrightarrow> n + length cs \<le> 256 \<Longrightarrow>
     n \<le> unat s \<and> unat s < n + length cs \<and> unat (cs ! (unat s - n)) < MAXGROUPSIZE \<and>
     (\<forall>i < unat s - n. unat (cs ! i) \<ge> MAXGROUPSIZE)"
proof (induction cs n rule: first_free.induct)
  case (2 c cs n)
  show ?case
  proof (cases "unat c < MAXGROUPSIZE")
    case True
    then have "s = of_nat n" "n < 256" using "2.prems" by auto
    then have "unat s = n" by (simp add: unat_of_nat)
    with True show ?thesis by simp
  next
    case False
    then have i: "Suc n \<le> unat s \<and> unat s < Suc n + length cs \<and> unat (cs ! (unat s - Suc n)) < MAXGROUPSIZE \<and>
        (\<forall>i < unat s - Suc n. unat (cs ! i) \<ge> MAXGROUPSIZE)"
      using "2.IH" "2.prems" by simp
    then obtain d where d: "unat s - n = Suc d" "unat s - Suc n = d" by (metis Suc_diff_Suc Suc_le_lessD)
    have "unat ((c # cs) ! i) \<ge> MAXGROUPSIZE" if "i < unat s - n" for i
      using that i d False by (cases i) auto
    with i d show ?thesis by auto
  qed
qed simp

lemma exact_count:
  assumes "fits x" and "counters_ok x" and "m_subGroupsCounts x = Some c" and "unat s < MAX_RAID_SUBGROUPS"
  shows "unat (c ! unat s) = members_in s x"
proof -
  have "c ! unat s = of_nat (members_in s x)" using assms by (simp add: counters_ok_def)
  moreover have "members_in s x \<le> 5" using assms(1) by (simp add: fits_def group_sizes)
  ultimately show ?thesis by (simp add: unat_of_nat)
qed

text \<open>The subgroup a new member is put into.\<close>

lemma free_subgroup_raid:
  assumes "fits x" and "counters_ok x" and "isRaidGroup x" and "free_subgroup x = Some s"
  shows "unat s < MAX_RAID_SUBGROUPS" and "members_in s x < MAXGROUPSIZE" and "\<And>t. t < s \<Longrightarrow> members_in t x = MAXGROUPSIZE"
proof -
  obtain c where c: "m_subGroupsCounts x = Some c" "length c = MAX_RAID_SUBGROUPS"
    using assms(2,3) by (auto simp: counters_ok_def)
  then have f: "first_free c 0 = Some s" using assms(4) by (simp add: free_subgroup_def)
  have s: "unat s < MAX_RAID_SUBGROUPS" "unat (c ! unat s) < MAXGROUPSIZE" "\<forall>i < unat s. unat (c ! i) \<ge> MAXGROUPSIZE"
    using first_free_spec [OF f] c(2) by (auto simp: group_sizes)
  then show "unat s < MAX_RAID_SUBGROUPS" "members_in s x < MAXGROUPSIZE"
    using exact_count [OF assms(1,2) c(1), of s] by simp_all
  fix t :: u8 assume t: "t < s"
  then have "unat t < unat s" by (simp add: word_less_nat_alt)
  then have "members_in t x \<ge> MAXGROUPSIZE"
    using s exact_count [OF assms(1,2) c(1), of t] by (metis order.strict_trans)
  then show "members_in t x = MAXGROUPSIZE" using assms(1) by (simp add: fits_def antisym)
qed

lemma fits_push:
  assumes "fits x" and "counters_ok x" and "free_subgroup x = Some s" and "isRaidGroup x \<or> length (m_memberSlots x) < MAXGROUPSIZE"
    and "ms_group m = s"
  shows "fits (x\<lparr>m_memberSlots := m_memberSlots x @ [m], m_subGroupsCounts := c\<rparr>)" (is "fits ?y")
proof -
  have r: "isRaidGroup ?y = isRaidGroup x" by (simp add: isRaidGroup_def)
  have n: "members_in t ?y = members_in t x + (if s = t then 1 else 0)" for t
    using assms(5) by (simp add: members_in_def)
  show ?thesis
  proof (cases "isRaidGroup x")
    case True
    note f = free_subgroup_raid [OF assms(1,2) True assms(3)]
    show ?thesis using assms(1,5) f True n r by (auto simp: fits_def intro: Suc_leI)
  next
    case False
    then have "m_subGroupsCounts x = None" using assms(2) by (simp add: counters_ok_def)
    then have s: "s = 0" using assms(3) by (simp add: free_subgroup_def)
    have "members_in s x < MAXGROUPSIZE"
      using False assms(4) le_less_trans [OF length_filter_le] by (auto simp: members_in_def)
    then show ?thesis using assms(1,5) s False n r by (auto simp: fits_def intro: Suc_leI)
  qed
qed

lemma push_state:
  assumes "\<And>w. ms_group (m w) = sub"
  shows "fst (acts [load m (\<lambda>m. on_group g (\<lambda>x. x\<lparr>m_memberSlots := m_memberSlots x @ [m]\<rparr>)),
     stored g f, SubGroupCounterIncrease g sub] w) =
     set_group g (\<lambda>x. x\<lparr>m_memberSlots := m_memberSlots x @ [m w], m_subGroupsCounts := map_option (bump 1 sub) (m_subGroupsCounts x)\<rparr>) w"
  by (simp add: act_eval SubGroupCounterIncrease_def count_subgroup_state stored_def set_group_twice assms)

lemma shrink_enter_group [shrink_rules]: "shrinking (enter_group g p sub)"
  unfolding enter_group_def by (intro shrink_rules)

lemma shrink_icons_reset: "shrinking (on_group g (\<lambda>x. x\<lparr>m_targetIcons := l\<rparr>))" "shrinking (on_group g (\<lambda>x. x\<lparr>m_maxEnchantingLevel := n\<rparr>))"
  by (rule shrink_group; simp add: isRaidGroup_def)+

lemma room_AddMember_body:
  assumes w: "full_on S w" and g: "g \<in> S" and s: "free_subgroup (groups w g) = Some sub"
    and r: "isRaidGroup (groups w g) \<or> length (m_memberSlots (groups w g)) < MAXGROUPSIZE"
  shows "full_on S (fst (AddMember_body e g p sub w))"
    and "length (m_memberSlots (groups (fst (AddMember_body e g p sub w)) g)) \<le> Suc (length (m_memberSlots (groups w g)))"
proof -
  let ?push = "[load (\<lambda>w. new_slot w p sub) (\<lambda>m. on_group g (\<lambda>x. x\<lparr>m_memberSlots := m_memberSlots x @ [m]\<rparr>)),
     stored g (\<lambda>x. [CacheSetGroup p (m_guid x)]), SubGroupCounterIncrease g sub]"
  have ok: "ok_on S (fst (AddMember_body e g p sub w))"
    using keep_AddMember_body [OF g] w unfolding kept_iff full_on_def by blast
  have "\<exists>rest. AddMember_body e g p sub = acts (?push @ rest) \<and> list_all shrinking rest"
    unfolding AddMember_body_def append_Cons append_Nil
    by (rule exI, rule conjI, rule refl) (simp add: shrink_rules shrink_icons_reset)
  then obtain rest where rest: "AddMember_body e g p sub = acts (?push @ rest)" "list_all shrinking rest" by blast
  let ?v = "fst (acts ?push w)"
  have m: "ms_group (new_slot w p sub) = sub" for w by (simp add: new_slot_def)
  note v = push_state [of "\<lambda>w. new_slot w p sub" sub g "\<lambda>x. [CacheSetGroup p (m_guid x)]" w, OF m]
  have al: "g_alive (groups w g)" using w g by (auto simp: full_on_def ok_on_def)
  then have "fits (groups w g)" "counters_ok (groups w g)"
    using w by (simp_all add: full_on_def roomy_def ok_on_def group_ok_def)
  then have "roomy ?v"
    unfolding v using w r s m by (intro roomy_set) (simp_all add: full_on_def fits_push)
  moreover have sh: "shrinks ?v (fst (AddMember_body e g p sub w))"
    using shrink_acts [OF rest(2)] unfolding rest(1) acts_append andThen_eval shrinking_def by simp
  ultimately show "full_on S (fst (AddMember_body e g p sub w))"
    using ok roomy_shrinks by (simp add: full_on_def)
  have "g_alive (groups (fst (AddMember_body e g p sub w)) g)" using ok g by (simp add: ok_on_def)
  from shrinks_length [OF sh this] show "length (m_memberSlots (groups (fst (AddMember_body e g p sub w)) g)) \<le> Suc (length (m_memberSlots (groups w g)))"
    unfolding v by simp
qed

lemma room_AddMember:
  assumes "full_on S w" and "g \<in> S"
    and "isRaidGroup (groups w g) \<or> length (m_memberSlots (groups w g)) < MAXGROUPSIZE"
  shows "full_on S (fst (AddMember e g p w))"
    and "length (m_memberSlots (groups (fst (AddMember e g p w)) g)) \<le> Suc (length (m_memberSlots (groups w g)))"
  using room_AddMember_body [OF assms(1,2) _ assms(3)] assms(1)
  by (cases "free_subgroup (groups w g)"; simp add: AddMember_def act_eval)+

section \<open>Founding, moving\<close>

lemma fits_empty: "m_memberSlots x = [] \<Longrightarrow> fits x"
  by (simp add: fits_def members_in_def)

lemma members_other [simp]: "m_memberSlots (initRaidSubGroupsCounter x) = m_memberSlots x" "m_memberSlots (found_group p low name x) = m_memberSlots x"
  "m_memberSlots (load_group row name x) = m_memberSlots x"
  by (simp_all add: initRaidSubGroupsCounter_def found_group_def load_group_def Let_def)

lemma room_Create:
  assumes w: "full_on S w" and g: "g \<in> S" and e: "m_memberSlots (groups w g) = []"
  shows "full_on S (fst (Create e g p w))" and "length (m_memberSlots (groups (fst (Create e g p w)) g)) \<le> 1"
proof -
  let ?low = "nextGroupId w" and ?name = "p_name (players w p)"
  let ?first = "[GenerateGroupId, on_player p (\<lambda>q. q\<lparr>p_leader_flag := True\<rparr>), on_group g (found_group p ?low ?name),
     whenever (\<lambda>w. \<not> in_battle (groups w g))
       (load (\<lambda>w. (p_dungeon_difficulty (players w p), p_raid_difficulty (players w p))) (\<lambda>(d, r).
          on_group g (\<lambda>x. x\<lparr>m_dungeonDifficulty := d, m_raidDifficulty := r\<rparr>))),
     stored g (\<lambda>x. [Statement (insert_statement x)])]"
  let ?u = "fst (acts ?first w)"
  have k: "kept (ok_on S) (acts ?first)"
    by (auto intro!: keep_load keep_acts keep_cond keep_ids keep_found keep_quiet_ops simp: quiet_simps)
  have m: "m_memberSlots (groups ?u h) = m_memberSlots (groups w h)" "g_alive (groups ?u h) = g_alive (groups w h)"
    "h \<noteq> g \<Longrightarrow> isRaidGroup (groups ?u h) = isRaidGroup (groups w h)" for h
    by (auto simp: act_eval GenerateGroupId_def Let_def stored_def found_group_def initRaidSubGroupsCounter_def)
  have "fits (groups ?u h)" if "g_alive (groups ?u h)" for h
  proof (cases "h = g")
    case True
    then show ?thesis using e m(1) by (simp add: fits_empty)
  next
    case False
    have "fits (groups w h)" using that w m(2) by (simp add: full_on_def roomy_def)
    then show ?thesis using m(1,3) False by (auto simp: fits_def members_in_def)
  qed
  then have u: "full_on S ?u" using w k by (simp add: full_on_def roomy_def kept_iff)
  have l: "m_memberSlots (groups ?u g) = []" using e m(1) by simp
  have c: "fst (Create e g p w) = fst (AddMember e g p ?u)"
    unfolding Create_def by (simp add: load_eval acts.simps andThen_eval skip_eval stored_def cond_eval emit_eval)
  show "full_on S (fst (Create e g p w))" "length (m_memberSlots (groups (fst (Create e g p w)) g)) \<le> 1"
    unfolding c using room_AddMember [OF u g] l by (simp_all add: group_sizes)
qed

lemma room_construct:
  assumes "roomy w"
  shows "roomy (fst (construct_group a lfg w))" and "m_memberSlots (groups (fst (construct_group a lfg w)) a) = []"
  using assms by (auto simp: construct_group_def act_eval roomy_def new_group_def fits_empty)

lemma room_ConvertToRaid:
  assumes "roomy w"
  shows "roomy (fst (ConvertToRaid e g w))"
proof -
  let ?f = "\<lambda>x. initRaidSubGroupsCounter (x\<lparr>m_groupType := m_groupType x OR GROUPTYPE_RAID\<rparr>)"
  have r: "isRaidGroup (?f x)" "g_alive (?f x) = g_alive x" "m_memberSlots (?f x) = m_memberSlots x" for x
    by (simp_all add: initRaidSubGroupsCounter_def isRaidGroup_def flag_set_set GROUPTYPE_RAID_def)
  have "fits (?f x)" if "fits x" for x
    using that r(1,3) [of x] by (auto simp: fits_def members_in_def group_sizes split: if_splits)
  then have "roomy (set_group g ?f w)" using assms r(2) by (simp add: roomy_def)
  then have r1: "roomy (fst (x (set_group g ?f w)))" if "shrinking x" for x
    using that by (blast intro: roomy_shrinking)
  have sh: "shrinking (acts [stored g (\<lambda>x. [Statement (CHAR_UPD_GROUP_TYPE (m_groupType x) (low_guid x))]),
     SendUpdate e g,
     emit (\<lambda>w. [QuestObjects (ms_guid m). m \<leftarrow> m_memberSlots (groups w g), FindInWorld w (ms_guid m)]),
     emit (\<lambda>w. if lfg_state e (m_leaderGuid (groups w g)) = 7 then [LfgLeave (m_leaderGuid (groups w g))] else [])])"
    (is "shrinking ?rest") by (intro shrink_acts) (simp add: shrink_rules)
  have "fst (ConvertToRaid e g w) = fst (?rest (set_group g ?f w))"
    unfolding ConvertToRaid_def by (simp only: acts.simps(2) [of "upd _"] andThen_eval upd_eval fst_conv)
  with r1 [OF sh] show ?thesis by simp
qed

section \<open>Moving members between subgroups\<close>

text \<open>The member list after a move.\<close>

definition move_slot :: "nat \<Rightarrow> u8 \<Rightarrow> MemberSlot list \<Rightarrow> MemberSlot list" where
  "move_slot i s ms = ms[i := (ms ! i)\<lparr>ms_group := s\<rparr>]"

lemma ChangeMembersGroup_state:
  assumes "isRaidGroup (groups w g)" and i: "getMemberSlot p (groups w g) = Some i"
    and "ms_group (m_memberSlots (groups w g) ! i) \<noteq> s"
  shows "\<exists>v. same_core v (fst (ChangeMembersGroup e g p s w)) \<and> (\<forall>h. h \<noteq> g \<longrightarrow> groups v h = groups w h) \<and>
    m_memberSlots (groups v g) = move_slot i s (m_memberSlots (groups w g)) \<and>
    isRaidGroup (groups v g) = isRaidGroup (groups w g) \<and> g_alive (groups v g) = g_alive (groups w g)"
proof -
  let ?old = "ms_group (m_memberSlots (groups w g) ! i)"
  let ?first = "[on_group g (change_slot p (\<lambda>m. m\<lparr>ms_group := s\<rparr>)), SubGroupCounterIncrease g s, SubGroupCounterDecrease g ?old]"
  let ?rest = "[stored g (\<lambda>_. [Statement (CHAR_UPD_GROUP_MEMBER_SUBGROUP s (GetCounter p))]),
        whenever (\<lambda>w. FindConnected w p) (cond (\<lambda>w. GetGroup w p = Some g)
          (upd (setSubGroup p MainRef s)) (upd (setSubGroup p OriginalRef s))),
        SendUpdate e g]"
  let ?v = "fst (acts ?first w)"
  have q: "quiet (acts ?rest)" by (intro quiet_acts) (simp add: quiet_rules)
  have c: "fst (ChangeMembersGroup e g p s w) = fst (acts ?rest ?v)"
    using assms unfolding ChangeMembersGroup_def
    by (simp add: cond_eval load_eval IsMember_def GetMemberGroup_def acts.simps andThen_eval skip_eval)
  have "(\<forall>h. h \<noteq> g \<longrightarrow> groups ?v h = groups w h) \<and> m_memberSlots (groups ?v g) = move_slot i s (m_memberSlots (groups w g)) \<and>
    isRaidGroup (groups ?v g) = isRaidGroup (groups w g) \<and> g_alive (groups ?v g) = g_alive (groups w g)"
    using i by (simp add: act_eval SubGroupCounterIncrease_def SubGroupCounterDecrease_def count_subgroup_state change_slot_def
        move_slot_def isRaidGroup_def)
  with quietD [OF q, of ?v] c show ?thesis by (intro exI [of _ ?v] conjI) simp_all
qed

lemma getMemberSlot_nth:
  assumes "getMemberSlot p x = Some i"
  shows "i < length (m_memberSlots x)" and "GetMemberGroup p x = ms_group (m_memberSlots x ! i)"
  using assms first_index_bound by (auto simp: getMemberSlot_def GetMemberGroup_def)

lemma roomy_core: "same_core v w \<Longrightarrow> roomy v \<Longrightarrow> roomy w"
  by (blast intro: roomy_shrinks shrinks_same_core)

lemma room_move:
  assumes w: "roomy w" and g: "counters_ok (groups w g)" and f: "HasFreeSlotSubGroup s (groups w g)" and s: "unat s < MAX_RAID_SUBGROUPS"
  shows "roomy (fst (ChangeMembersGroup e g p s w))"
proof (cases "isRaidGroup (groups w g) \<and> IsMember p (groups w g) \<and> GetMemberGroup p (groups w g) \<noteq> s")
  case True
  then obtain i where i: "getMemberSlot p (groups w g) = Some i" by (auto simp: IsMember_def)
  note n = getMemberSlot_nth [OF i]
  obtain v where v: "same_core v (fst (ChangeMembersGroup e g p s w))" "\<forall>h. h \<noteq> g \<longrightarrow> groups v h = groups w h"
    "m_memberSlots (groups v g) = move_slot i s (m_memberSlots (groups w g))"
    "isRaidGroup (groups v g) = isRaidGroup (groups w g)" "g_alive (groups v g) = g_alive (groups w g)"
    using ChangeMembersGroup_state [of w g p i s e] True i n(2) by auto
  let ?x = "groups w g"
  have "fits (groups v g)" if "g_alive ?x"
  proof -
    have x: "fits ?x" using w that by (simp add: roomy_def)
    have "members_in s ?x < MAXGROUPSIZE"
      using f exact_count [OF x g _ s] by (auto simp: HasFreeSlotSubGroup_def split: option.splits)
    moreover have n: "members_in t (groups v g) \<le> members_in t ?x + (if s = t then 1 else 0)" for t
    proof -
      let ?y = "(m_memberSlots ?x ! i)\<lparr>ms_group := s\<rparr>"
      have "mset (move_slot i s (m_memberSlots ?x)) \<subseteq># add_mset ?y (mset (m_memberSlots ?x))"
        using n(1) by (simp add: move_slot_def mset_update)
      then have "size (filter_mset (\<lambda>m. ms_group m = t) (mset (move_slot i s (m_memberSlots ?x)))) \<le>
          size (filter_mset (\<lambda>m. ms_group m = t) (add_mset ?y (mset (m_memberSlots ?x))))"
        by (intro size_mset_mono multiset_filter_mono)
      then show ?thesis by (simp add: members_in_def v(3) flip: mset_filter split: if_splits)
    qed
    ultimately have "members_in t (groups v g) \<le> MAXGROUPSIZE" for t
      using n [of t] x unfolding fits_def by (cases "s = t") (auto intro: order_trans)
    moreover have "\<forall>m \<in> set (m_memberSlots (groups v g)). unat (ms_group m) < MAX_RAID_SUBGROUPS"
      using x s True set_update_subset_insert [of "m_memberSlots ?x" i] unfolding v(3) move_slot_def fits_def by fastforce
    ultimately show ?thesis using True v(4) by (simp add: fits_def)
  qed
  then have "roomy v" using w v(2,5) by (metis roomy_def)
  with v(1) show ?thesis by (rule roomy_core)
qed (use w in \<open>auto simp: ChangeMembersGroup_def act_eval\<close>)

text \<open>Two members change places: the sizes stay.\<close>

lemma room_swap:
  assumes w: "roomy w" and r: "isRaidGroup (groups w g)"
  shows "roomy (fst (swap_members c g q1 q2 w))"
proof -
  let ?x = "groups w g"
  let ?s1 = "GetMemberGroup q1 ?x" and ?s2 = "GetMemberGroup q2 ?x"
  let ?b = "\<lambda>s. unat s = MAX_RAID_SUBGROUPS + 1"
  show ?thesis
  proof (cases "?b ?s1 \<or> ?b ?s2 \<or> ?s1 = ?s2")
    case False
    then obtain i j where i: "getMemberSlot q1 ?x = Some i" and j: "getMemberSlot q2 ?x = Some j"
      by (auto simp: GetMemberGroup_def group_sizes split: option.splits)
    note ni = getMemberSlot_nth [OF i] and nj = getMemberSlot_nth [OF j]
    have ij: "i \<noteq> j" using False ni nj by auto
    let ?e = "world_env c" and ?ms = "m_memberSlots ?x"
    let ?u = "fst (ChangeMembersGroup ?e g q1 ?s2 w)"
    obtain v where v: "same_core v ?u" "\<forall>h. h \<noteq> g \<longrightarrow> groups v h = groups w h"
      "m_memberSlots (groups v g) = move_slot i ?s2 ?ms"
      "isRaidGroup (groups v g) = isRaidGroup ?x" "g_alive (groups v g) = g_alive ?x"
      using ChangeMembersGroup_state [OF r i, of ?s2 ?e] False ni(2) by auto
    have cu: "core (groups v h) = core (groups ?u h)" for h using v(1) by (simp add: same_core_def)
    have mu: "map (\<lambda>m. (ms_guid m, ms_group m)) (m_memberSlots (groups ?u g)) = map (\<lambda>m. (ms_guid m, ms_group m)) (move_slot i ?s2 ?ms)"
      using cu [of g] v(3) by (simp add: core_def)
    have guids: "map ms_guid (m_memberSlots (groups ?u g)) = map ms_guid ?ms"
    proof -
      have "map fst (map (\<lambda>m. (ms_guid m, ms_group m)) (m_memberSlots (groups ?u g))) = map fst (map (\<lambda>m. (ms_guid m, ms_group m)) (move_slot i ?s2 ?ms))"
        by (simp only: mu)
      then show ?thesis using ni(1) by (simp add: comp_def move_slot_def map_update list_update_same_conv)
    qed
    have grps: "map ms_group (m_memberSlots (groups ?u g)) = (map ms_group ?ms)[i := ?s2]"
    proof -
      have "map snd (map (\<lambda>m. (ms_guid m, ms_group m)) (m_memberSlots (groups ?u g))) = map snd (map (\<lambda>m. (ms_guid m, ms_group m)) (move_slot i ?s2 ?ms))"
        by (simp only: mu)
      then show ?thesis by (simp add: comp_def move_slot_def map_update)
    qed
    have slot: "getMemberSlot p y = first_index (\<lambda>q. q = p) (map ms_guid (m_memberSlots y))" for p y
    proof -
      have "first_index (\<lambda>m. ms_guid m = p) ms = first_index (\<lambda>q. q = p) (map ms_guid ms)" for ms
        by (induction ms) auto
      then show ?thesis by (simp add: getMemberSlot_def)
    qed
    have j': "getMemberSlot q2 (groups ?u g) = Some j" using j guids by (simp add: slot)
    have gj: "ms_group (m_memberSlots (groups ?u g) ! j) = ?s2"
      using arg_cong [OF grps, of "\<lambda>l. l ! j"] getMemberSlot_nth(1) [OF j'] nj ij by simp
    have ru: "isRaidGroup (groups ?u g)" using core_fields(4) [OF cu] v(4) r by simp
    obtain v' where v': "same_core v' (fst (ChangeMembersGroup ?e g q2 ?s1 ?u))" "\<forall>h. h \<noteq> g \<longrightarrow> groups v' h = groups ?u h"
      "m_memberSlots (groups v' g) = move_slot j ?s1 (m_memberSlots (groups ?u g))"
      "isRaidGroup (groups v' g) = isRaidGroup (groups ?u g)" "g_alive (groups v' g) = g_alive (groups ?u g)"
      using ChangeMembersGroup_state [OF ru j', of ?s1 ?e] gj False by auto
    have "map ms_group (m_memberSlots (groups v' g)) = (map ms_group ?ms)[i := ?s2, j := ?s1]"
      by (simp add: v'(3) move_slot_def map_update grps)
    also have "\<dots> = (map ms_group ?ms)[i := map ms_group ?ms ! j, j := map ms_group ?ms ! i]"
      using ni nj by simp
    finally have "mset (map ms_group (m_memberSlots (groups v' g))) = mset (map ms_group ?ms)"
      using ni(1) nj(1) mset_swap [of j "map ms_group ?ms" i] by simp
    then have sg: "subgroups (groups v' g) = subgroups ?x" by simp
    have "shrinks w v'"
      unfolding shrinks_def
    proof (intro allI impI)
      fix h assume h: "g_alive (groups v' h)"
      show "g_alive (groups w h) \<and> isRaidGroup (groups v' h) = isRaidGroup (groups w h) \<and> subgroups (groups v' h) \<subseteq># subgroups (groups w h)"
      proof (cases "h = g")
        case True
        then show ?thesis using h sg v' v core_fields(1,4) [OF cu [of g]] by simp
      next
        case False
        then have "groups v h = groups w h" "groups v' h = groups ?u h" using v v' by auto
        then show ?thesis using h core_fields(1,4) [OF cu [of h]] subgroups_core [OF cu [of h]] by simp
      qed
    qed
    then have "roomy v'" using w by (rule roomy_shrinks)
    then have "roomy (fst (ChangeMembersGroup ?e g q2 ?s1 ?u))" using v'(1) roomy_core by blast
    then show ?thesis using False by (simp add: swap_members_def act_eval)
  qed (use w in \<open>auto simp: swap_members_def act_eval\<close>)
qed

section \<open>The server\<close>

lemma room_own_group:
  assumes "\<And>g. GetGroup w p = Some g \<Longrightarrow> roomy (fst (a g w))" and "roomy w"
  shows "roomy (fst (in_own_group p a w))"
  using assms by (cases "GetGroup w p") (simp_all add: in_own_group_def act_eval)

text \<open>Up to the first statement the state is the one before.\<close>

lemma at_rules:
  "roomy (fst (x w)) \<Longrightarrow> roomy (fst (y w)) \<Longrightarrow> roomy (fst (cond b x y w))"
  "roomy (fst (k (r w) w)) \<Longrightarrow> roomy (fst (load r k w))"
  "roomy (fst (x w)) \<Longrightarrow> (\<And>v. roomy (fst (f v w))) \<Longrightarrow> roomy (fst ((case m of None \<Rightarrow> x | Some v \<Rightarrow> f v) w))"
  "roomy (fst (x w)) \<Longrightarrow> roomy (fst (y w)) \<Longrightarrow> roomy (fst ((if c then x else y) w))"
  by (auto simp: act_eval split: option.split)

lemma shrink_send_invite [shrink_rules]: "shrinking (send_invite p q name)"
  unfolding send_invite_def by (intro shrink_acts) (simp add: shrink_rules)

lemma room_HandleGroupInvite: "roomy w \<Longrightarrow> roomy (fst (HandleGroupInviteOpcode c a lfg p raw w))"
proof -
  assume w: "roomy w"
  have new: "roomy (fst (invite_to_new_group a lfg p q name w))" for q name
  proof -
    let ?rest = "[cond (\<lambda>w. can_be_invited w p)
       (acts [AddLeaderInvite a p, cond (\<lambda>w. can_be_invited w q) (acts [AddInvite a q, send_invite p q name]) (destroy_group a)])
       (destroy_group a)]"
    have "shrinking (acts ?rest)" by (intro shrink_acts) (simp add: shrink_rules)
    then show ?thesis
      using room_construct(1) [OF w] unfolding invite_to_new_group_def acts.simps(2) [of "construct_group _ _"] andThen_eval fst_conv
      by (rule roomy_shrinking)
  qed
  have leaf: "roomy (fst (x w))" if "shrinking x" for x
    using that w by (rule roomy_shrinking)
  have i: "roomy (fst (invite_player a lfg p q name w))" for q name
    unfolding invite_player_def
    by (intro at_rules new leaf shrink_rules) (simp_all add: shrink_rules)
  show "roomy (fst (HandleGroupInviteOpcode c a lfg p raw w))"
    unfolding HandleGroupInviteOpcode_def
    by (intro at_rules i leaf shrink_quiet_ops shrink_skip)
qed

lemma room_AcceptMember:
  assumes w: "full_on {g} w" and f: "\<not> IsFull (groups w g)"
  shows "roomy (fst (acts [whenever (\<lambda>w. \<not> IsCreated (groups w g))
        (acts [RemoveInvite g q, Create e g q, upd (AddGroup g)]),
      load (AddMember_result g) (\<lambda>ok. acts [AddMember e g p, whenever (\<lambda>_. ok) (emit (BroadcastGroupUpdate g))])] w))"
proof -
  let ?u = "fst (whenever (\<lambda>w. \<not> IsCreated (groups w g)) (acts [RemoveInvite g q, Create e g q, upd (AddGroup g)]) w)"
  have u: "full_on {g} ?u \<and> (isRaidGroup (groups ?u g) \<or> length (m_memberSlots (groups ?u g)) < MAXGROUPSIZE)"
  proof (cases "IsCreated (groups w g)")
    case True
    then show ?thesis using w f by (auto simp: act_eval IsFull_def split: if_splits)
  next
    case False
    let ?v = "fst (RemoveInvite g q w)"
    have "full_on {g} ?v"
      using w keep_RemoveInvite [of "{g}" g q] roomy_shrinking [OF shrink_invites(1)] by (auto simp: full_on_def kept_iff)
    moreover have "m_memberSlots (groups ?v g) = []"
      using False by (simp add: RemoveInvite_def act_eval IsCreated_def GetMembersCount_def)
    ultimately have c: "full_on {g} (fst (Create e g q ?v))" "length (m_memberSlots (groups (fst (Create e g q ?v)) g)) \<le> 1"
      using room_Create [of "{g}" ?v g] by auto
    have "full_on S (AddGroup g v) = full_on S v" for S v
      by (simp add: AddGroup_def full_on_def ok_on_def group_ok_def refs_ok_def invites_ok_def roomy_def)
    moreover have "groups (AddGroup g v) = groups v" for v by (simp add: AddGroup_def)
    ultimately show ?thesis using False c by (simp add: act_eval group_sizes)
  qed
  then have "roomy (fst (AddMember e g p ?u))" using room_AddMember(1) [of "{g}" ?u g e p] by (simp add: full_on_def)
  then show ?thesis by (simp add: acts.simps andThen_eval load_eval skip_eval cond_eval emit_eval)
qed

lemma room_HandleGroupAccept:
  assumes w: "full_on {} w"
  shows "roomy (fst (HandleGroupAcceptOpcode c p w))"
proof (cases "m_groupInvite (players w p)")
  case (Some g)
  let ?e = "world_env c" and ?v = "fst (RemoveInvite g p w)"
  have r: "roomy w" using w by (simp add: full_on_def)
  have "g_alive (groups w g)" using w Some by (simp add: full_on_def ok_on_def group_ok_def invites_ok_def)
  then have "full_on {g} w" using w by (simp add: full_on_def ok_on_def)
  then have v: "full_on {g} ?v" "roomy ?v"
    using keep_RemoveInvite [of "{g}" g p] roomy_shrinking [OF shrink_invites(1) r] by (auto simp: full_on_def kept_iff)
  have "roomy (fst (RemoveAllInvites g ?v))" using v(2) by (rule roomy_shrinking [OF shrink_invites(2)])
  have l: "roomy (fst (x ?v))" if "shrinking x" for x
    using that v(2) by (rule roomy_shrinking)
  let ?join = "\<lambda>leader. acts [whenever (\<lambda>w. \<not> IsCreated (groups w g)) (acts [RemoveInvite g leader, Create ?e g leader, upd (AddGroup g)]),
      load (AddMember_result g) (\<lambda>ok. acts [AddMember ?e g p, whenever (\<lambda>_. ok) (emit (BroadcastGroupUpdate g))])]"
  have j: "roomy (fst (cond (\<lambda>w. IsFull (groups w g)) (refuse p PARTY_OP_INVITE [] ERR_GROUP_FULL)
      (load (\<lambda>w. m_leaderGuid (groups w g)) (\<lambda>leader. cond (b leader) (RemoveAllInvites g) (?join leader))) ?v))" for b
  proof (cases "IsFull (groups ?v g)")
    case False
    have "roomy (fst (load (\<lambda>w. m_leaderGuid (groups w g)) (\<lambda>leader. cond (b leader) (RemoveAllInvites g) (?join leader)) ?v))"
      by (intro at_rules(1,2) l shrink_invites(2) room_AcceptMember [OF v(1) False])
    with False show ?thesis by (simp only: cond_eval if_False)
  qed (simp add: cond_eval l shrink_quiet_ops)
  have "fst (HandleGroupAcceptOpcode c p w) = fst ((if spectator c p then refuse p PARTY_OP_INVITE [] ERR_INVITE_RESTRICTED
         else if \<not> hook_accept c p g then skip
         else unless (\<lambda>w. m_leaderGuid (groups w g) = p) (cond (\<lambda>w. IsFull (groups w g)) (refuse p PARTY_OP_INVITE [] ERR_GROUP_FULL)
      (load (\<lambda>w. m_leaderGuid (groups w g)) (\<lambda>leader. cond (\<lambda>w. \<not> IsCreated (groups w g) \<and> (\<not> FindConnected w leader \<or> spectator c leader))
         (RemoveAllInvites g) (?join leader))))) ?v)"
    unfolding HandleGroupAcceptOpcode_def Let_def load_eval [of "\<lambda>w. m_groupInvite (players w p)"] Some option.case
    by (simp only: acts.simps(2) [of "RemoveInvite g p"] acts.simps(2) [of _ "[]"] acts.simps(1) andThen_eval fst_conv skip_eval)
  also have "roomy \<dots>" by (intro at_rules(1,4) l shrink_quiet_ops shrink_skip j)
  finally show ?thesis .
qed (use w in \<open>simp add: HandleGroupAcceptOpcode_def act_eval full_on_def Let_def\<close>)

lemma shrink_own_group: "(\<And>g. shrinking (a g)) \<Longrightarrow> shrinking (in_own_group p a)"
  unfolding in_own_group_def by (intro shrink_rules)

lemma shrink_Uninvite [shrink_rules]: "shrinking (UninviteFromGroup e p)"
  unfolding UninviteFromGroup_def by (intro shrink_rules) (simp add: shrink_rules)

lemma shrink_RemoveFromGroup [shrink_rules]: "shrinking (RemoveFromGroup e g p m k r)"
  unfolding RemoveFromGroup_def by (intro shrink_rules)

lemma shrink_packets:
  "shrinking (HandleGroupDeclineOpcode c p)"
  "shrinking (HandleGroupUninviteGuidOpcode c p q reason)"
  "shrinking (HandleGroupUninviteOpcode c p raw)"
  "shrinking (HandleGroupDisbandOpcode c p)"
  "shrinking (logout_group c socket p)"
  "shrinking (delete_from_group e guild_of p)"
proof -
  show "shrinking (HandleGroupDeclineOpcode c p)"
    unfolding HandleGroupDeclineOpcode_def by (intro shrink_rules) (simp add: shrink_rules)
  have k: "shrinking (kick_answer c p q name res)" for q name res
    unfolding kick_answer_def by (intro shrink_rules)
  show "shrinking (HandleGroupUninviteGuidOpcode c p q reason)"
    unfolding HandleGroupUninviteGuidOpcode_def Let_def by (intro shrink_own_group shrink_rules k)
  show "shrinking (HandleGroupUninviteOpcode c p raw)"
    unfolding HandleGroupUninviteOpcode_def Let_def by (intro shrink_own_group shrink_rules)
  show "shrinking (HandleGroupDisbandOpcode c p)"
    unfolding HandleGroupDisbandOpcode_def by (intro shrink_own_group shrink_rules) (simp add: shrink_rules)
  show "shrinking (logout_group c socket p)"
    unfolding logout_group_def by (intro shrink_rules) (simp add: shrink_rules)
  show "shrinking (delete_from_group e guild_of p)"
    unfolding delete_from_group_def by (intro shrink_rules)
qed

lemma room_RaidConvert: "roomy w \<Longrightarrow> roomy (fst (HandleGroupRaidConvertOpcode c p w))"
  unfolding HandleGroupRaidConvertOpcode_def
  by (rule room_own_group)
     (auto simp: cond_eval skip_eval SendPartyResult_def emit_eval acts.simps andThen_eval room_ConvertToRaid)

lemma room_ChangeSubGroup: "full_on {} w \<Longrightarrow> roomy (fst (HandleGroupChangeSubGroupOpcode c p name sub w))"
  unfolding HandleGroupChangeSubGroupOpcode_def
proof (rule room_own_group)
  fix g assume w: "full_on {} w" and g: "GetGroup w p = Some g"
  then have "g_alive (groups w g)" using refs_okD [of w MainRef p g] by (simp add: full_on_def ok_on_def group_ok_def get_refs)
  then have "counters_ok (groups w g)" using w by (simp add: full_on_def ok_on_def group_ok_def)
  then show "roomy (fst ((if unat sub \<ge> MAX_RAID_SUBGROUPS then skip
     else unless (\<lambda>w. \<not> may_lead g p w \<or> \<not> HasFreeSlotSubGroup sub (groups w g))
       (load (\<lambda>w. case FindPlayerByName c w name False of Some q \<Rightarrow> q | None \<Rightarrow> cached_guid c name)
         (\<lambda>q. ChangeMembersGroup (world_env c) g q sub))) w))"
    using w room_move [of w g sub] by (simp add: full_on_def cond_eval load_eval skip_eval)
qed (simp add: full_on_def)

lemma room_SwapSubGroup: "roomy w \<Longrightarrow> roomy (fst (HandleGroupSwapSubGroupOpcode c p raw1 raw2 w))"
proof -
  assume w: "roomy w"
  have "roomy (fst (in_own_group p (\<lambda>g. unless (\<lambda>w. \<not> isRaidGroup (groups w g) \<or> \<not> may_lead g p w)
           (load (\<lambda>w. (swap_guid c g n1 w, swap_guid c g n2 w)) (\<lambda>(q1, q2).
              if q1 = 0 \<or> q2 = 0 then refuse p PARTY_OP_SWAP n1 ERR_GROUP_SWAP_FAILED
              else swap_members c g q1 q2))) w))" for n1 n2
    using w room_swap by (intro room_own_group) (auto simp: cond_eval load_eval skip_eval SendPartyResult_def emit_eval)
  then show "roomy (fst (HandleGroupSwapSubGroupOpcode c p raw1 raw2 w))"
    using w by (simp add: HandleGroupSwapSubGroupOpcode_def Let_def SendPartyResult_def emit_eval split: option.split)
qed

text \<open>Groups of a battle, and groups read from the database, start empty.\<close>

lemma room_new_battle_group:
  assumes "full_on {} w" and "\<not> g_alive (groups w a)" and q: "quiet b" "quiet d"
    and m: "\<And>w. m_memberSlots (groups (fst (b w)) a) = m_memberSlots (groups w a)"
  shows "roomy (fst (acts [construct_group a lfg, b, Create e a p, upd (AddGroup a), d] w))"
proof -
  let ?u = "fst (construct_group a lfg w)"
  have "just_built a {} ?u" using assms(1,2) triple_state [OF triple_construct] by (simp add: full_on_def)
  then have u: "full_on {a} ?u" "m_memberSlots (groups ?u a) = []"
    using room_construct assms(1) by (auto simp: full_on_def just_built_def)
  then have b: "full_on {a} (fst (b ?u))"
    using kq [OF q(1), of "{a}"] roomy_shrinking [OF shrink_quiet [OF q(1)]] by (auto simp: full_on_def kept_iff)
  then have "roomy (fst (Create e a p (fst (b ?u))))" using room_Create(1) [of "{a}"] m u(2) by (simp add: full_on_def)
  moreover have "shrinking (acts [upd (AddGroup a), d])"
    by (intro shrink_acts) (simp add: shrink_rules shrink_quiet q)
  ultimately have "roomy (fst (acts [upd (AddGroup a), d] (fst (Create e a p (fst (b ?u))))))"
    using roomy_shrinking by blast
  then show ?thesis by (simp only: acts.simps(2) [of "construct_group _ _"] acts.simps(2) [of b] acts.simps(2) [of "Create _ _ _"] andThen_eval fst_conv)
qed

lemma room_BgGroup:
  assumes w: "full_on {} w" and n: "\<not> g_alive (groups w a)"
    and r: "\<And>g. raid = Some g \<Longrightarrow> g_alive (groups w g) \<and> isRaidGroup (groups w g)"
  shows "roomy (fst (AddOrSetPlayerToCorrectBgGroup e a lfg b raid p w))"
    and "roomy (fst (AddOrSetPlayerToCorrectBfGroup e a lfg b raid p w))"
proof -
  have l: "roomy (fst (x w))" if "shrinking x" for x
    using that w by (auto simp: full_on_def intro: roomy_shrinking)
  have add: "roomy (fst (AddMember e g p w))" if "raid = Some g" for g
    using w r [OF that] room_AddMember(1) [of "{g}" w g e p] by (simp add: full_on_def ok_on_def)
  have q: "quiet (acts [tell [SetBgRaid b a], on_group a (SetBattlegroundGroup (Some b))])"
    by (intro quiet_acts) (simp add: quiet_on_group setter_core quiet_basic)
  have new: "roomy (fst (acts [construct_group a lfg, tell [SetBgRaid b a], on_group a (SetBattlegroundGroup (Some b)), Create e a p, upd (AddGroup a)] w))"
  proof -
    have "acts [construct_group a lfg, acts [tell [SetBgRaid b a], on_group a (SetBattlegroundGroup (Some b))], Create e a p, upd (AddGroup a), skip] =
        acts [construct_group a lfg, tell [SetBgRaid b a], on_group a (SetBattlegroundGroup (Some b)), Create e a p, upd (AddGroup a)]"
      by (simp add: acts.simps andThen_def skip_def Let_def fun_eq_iff)
    moreover have "roomy (fst (acts [construct_group a lfg, acts [tell [SetBgRaid b a], on_group a (SetBattlegroundGroup (Some b))],
        Create e a p, upd (AddGroup a), skip] w))"
      by (rule room_new_battle_group [OF w n q quiet_basic(1)]) (simp add: act_eval SetBattlegroundGroup_def)
    ultimately show ?thesis by simp
  qed
  have lead: "shrinking (whenever c (acts [ChangeLeader e g p, SendUpdate e g]))" for c g
    by (intro shrink_rules) (simp add: shrink_rules)
  have "roomy (fst (acts [AddMember e g p, whenever c (acts [ChangeLeader e g p, SendUpdate e g])] w))" if "raid = Some g" for g c
    using roomy_shrinking [OF lead add [OF that]] by (simp only: acts.simps andThen_eval skip_eval fst_conv)
  then show "roomy (fst (AddOrSetPlayerToCorrectBgGroup e a lfg b raid p w))"
    unfolding AddOrSetPlayerToCorrectBgGroup_def
    using new by (cases raid) (simp_all add: cond_eval load_eval l shrink_skip shrink_refs)
  have "roomy (fst (acts [construct_group a lfg, on_group a (SetBattlefieldGroup (Some b)), Create e a p, upd (AddGroup a), emit (\<lambda>w. [SetBfRaid b (m_guid (groups w a))])] w))"
    by (rule room_new_battle_group [OF w n quiet_on_group [OF setter_core(5)] quiet_basic(2)]) (simp add: upd_eval SetBattlefieldGroup_def)
  then show "roomy (fst (AddOrSetPlayerToCorrectBfGroup e a lfg b raid p w))"
    unfolding AddOrSetPlayerToCorrectBfGroup_def
    using add by (cases raid) (simp_all add: cond_eval load_eval l shrink_skip shrink_refs)
qed

lemma room_load_row:
  assumes "roomy w"
  shows "roomy (fst (load_group_row e g lfg row w))"
proof -
  let ?P = "\<lambda>w. roomy w \<and> m_memberSlots (groups w g) = []"
  have s: "?P (set_group g f v)" if "?P v" "m_memberSlots (f (groups v g)) = []" for f v
    using that by (simp add: roomy_set fits_empty)
  have "?P (fst (LoadGroupFromDB e g row v))" if "?P v" for v
    using that s by (simp add: LoadGroupFromDB_def act_eval split: option.split)
  then have "?P (fst (LoadGroupFromDB e g row (fst (construct_group g lfg w))))"
    using room_construct [OF assms, of g lfg] by blast
  moreover have "shrinking (if LoadGroupFromDB_result e row
      then acts [upd (AddGroup g), load (\<lambda>w. low_guid (groups w g)) (\<lambda>i. upd (RegisterGroupId i))] else destroy_group g)"
    by (intro shrink_rules) (simp add: shrink_rules shrink_quiet quiet_ids)
  ultimately show ?thesis
    unfolding load_group_row_def acts.simps andThen_eval skip_eval fst_conv using roomy_shrinking by blast
qed

text \<open>The server while it runs: the members of the stored groups are loaded before.\<close>

inductive play_step :: "gworld \<Rightarrow> gworld \<Rightarrow> bool" where
  "granted op w \<Longrightarrow> \<forall>e row. op \<noteq> MemberRowOp e row \<Longrightarrow> play_step w (fst (run_op op w))"

lemma op_room:
  assumes w: "group_ok w" "roomy w" and gr: "granted op w" and m: "\<forall>e row. op \<noteq> MemberRowOp e row"
  shows "roomy (fst (run_op op w))"
proof -
  have f: "full_on {} w" using w by (simp add: full_on_def ok_on_empty)
  have l: "roomy (fst (x w))" if "shrinking x" for x
    using that w(2) by (rule roomy_shrinking)
  have q: "roomy (fst (x w))" if "quiet x" for x
    using l [OF shrink_quiet [OF that]] .
  show ?thesis
  proof (cases op)
    case (LoginOp gid p)
    have "shrinking (LoadGroup_login gid p)"
      unfolding LoadGroup_login_def by (intro shrink_acts) (simp add: shrink_rules)
    then show ?thesis using LoginOp by (simp add: l)
  next
    case (MemberRowOp e row)
    then show ?thesis using m by simp
  next
    case (BgOp e a lfg b raid p)
    then show ?thesis using gr room_BgGroup(1) [OF f, of a raid] by simp
  next
    case (BfOp e a lfg b raid p)
    then show ?thesis using gr room_BgGroup(2) [OF f, of a raid] by simp
  qed (use w f in \<open>simp_all add: l q shrink_packets shrink_Disband shrink_RemoveMember quiet_packets quiet_ConvertToLFG quiet_roles
      quiet_looter quiet_difficulties quiet_on_group setter_core room_HandleGroupInvite room_HandleGroupAccept room_RaidConvert
      room_ChangeSubGroup room_SwapSubGroup room_load_row\<close>)
qed

lemma no_groups_roomy: "no_groups w \<Longrightarrow> roomy w"
  by (simp add: no_groups_def roomy_def)

interpretation room: component no_groups play_step "\<lambda>w. group_ok w \<and> roomy w"
proof
  show "group_ok w \<and> roomy w" if "no_groups w" for w
    using that by (simp add: no_groups_ok no_groups_roomy)
  show "group_ok v \<and> roomy v" if "group_ok w \<and> roomy w" "play_step w v" for w v
    using that(2,1) by (cases rule: play_step.cases) (simp add: op_keeps op_room)
qed

end
