(* ===== verification/GroupExamples.thy ===== *)
theory GroupExamples
  imports GroupCapacity
begin

text \<open>Small concrete worlds the properties of groups are applied to.\<close>

definition ex_rolls :: rollenv where
  "ex_rolls = \<lparr>connected = (\<lambda>_. True), in_map = (\<lambda>_. Some 0), dice = (\<lambda>_ _. 1), can_store = (\<lambda>_ _. 0),
     item_made = (\<lambda>_ _. True), item_template = (\<lambda>_. None), disenchant_loot = (\<lambda>_ _. [])\<rparr>"

definition ex_genv :: genv where
  "ex_genv = \<lparr>lfg_state = (\<lambda>_. 0), lfg_dungeon = (\<lambda>_. 0), lfg_map = (\<lambda>_. 0), cache_name = (\<lambda>_. None),
     enchanting = (\<lambda>_. 0), logging_out = (\<lambda>_. False), socket_closed = (\<lambda>_. False), game_master = (\<lambda>_. False),
     in_dungeon = (\<lambda>_. False), bound_here = (\<lambda>_. False), instance_id = (\<lambda>_. 0), map_of_player = (\<lambda>_. 0),
     player_alive = (\<lambda>_. True), player_level = (\<lambda>_. 80), out_of_range = (\<lambda>_ _. False), at_client = (\<lambda>_ _. True),
     raid_level = 10, game_time = 1000, roll_env = ex_rolls\<rparr>"

definition ex_party :: partyenv where
  "ex_party = \<lparr>world_env = ex_genv, utf8_dec = (\<lambda>s. Some (map (\<lambda>c. of_char c) s)),
     utf8_enc = (\<lambda>s. Some (map (\<lambda>c. char_of c) s)), online_by_name = (\<lambda>_. None), cached_guid = (\<lambda>_. 0),
     hook_invite = (\<lambda>_ _. True), hook_accept = (\<lambda>_ _. True), spectator = (\<lambda>_. False), team_of = (\<lambda>_. 0),
     has_ignored = (\<lambda>_ _. False), has_friend = (\<lambda>_ _. False), gm_allow_invite = False, two_side_group = False,
     party_level_req = 1, kicks_left = (\<lambda>_. 3), in_combat_here = (\<lambda>_ _. False), cooldown_elapsed = (\<lambda>_. None),
     kick_prevention_ms = 0, in_battleground = (\<lambda>_. False), no_ready_check_in_bg = False, leave_on_logout = True,
     hostile_to = (\<lambda>_ _. False), rand_between = (\<lambda>lo _. lo)\<rparr>"

definition ex_player :: gplayer where
  "ex_player = \<lparr>p_name = ''Ann'', p_connected = True, p_in_world = True,
     m_group = \<lparr>ref_to = None, iSubGroup = 0\<rparr>, m_originalGroup = \<lparr>ref_to = None, iSubGroup = 0\<rparr>,
     m_groupInvite = None, p_leader_flag = False, p_dungeon_difficulty = 0, p_raid_difficulty = 0, m_InstanceValid = True\<rparr>"

definition ex_loots :: "nat \<Rightarrow> Loot" where
  "ex_loots = (\<lambda>_. \<lparr>items = [], quest_items = [], gold = 0, unlootedCount = 0, PlayersLooting = [], source_chest = None\<rparr>)"

text \<open>Nobody is in a group.\<close>

definition ex_start :: gworld where
  "ex_start = \<lparr>groups = (\<lambda>_. (new_group 0)\<lparr>g_alive := False\<rparr>), players = (\<lambda>_. ex_player), g_loots = ex_loots,
     g_item_counter = 1, group_ids = [], nextGroupId = 1, GroupStore = []\<rparr>"

text \<open>The members 1, 2 and so on of the group 7, who may not all be connected, and its kind.\<close>

definition ex_slot :: "guid \<Rightarrow> MemberSlot" where
  "ex_slot p = \<lparr>ms_guid = p, ms_name = ''Ann'', ms_group = 0, ms_flags = 0, ms_roles = 0\<rparr>"

definition ex_world :: "guid list \<Rightarrow> guid list \<Rightarrow> u8 \<Rightarrow> gworld" where
  "ex_world ms away kind = ex_start
     \<lparr>groups := (\<lambda>g. if g = 7 then (new_group 0)\<lparr>m_memberSlots := map ex_slot ms, m_memberMgr := map (\<lambda>p. (p, MainRef)) ms,
          m_leaderGuid := hd ms, m_looterGuid := hd ms, m_lootMethod := GROUP_LOOT, m_groupType := kind,
          m_guid := guid_plain HG_Group 1\<rparr> else groups ex_start g),
      players := (\<lambda>p. if p \<in> set ms then ex_player\<lparr>m_group := \<lparr>ref_to = Some 7, iSubGroup = 0\<rparr>, p_connected := p \<notin> set away\<rparr> else ex_player),
      GroupStore := [(1, 7)], nextGroupId := 2\<rparr>"

text \<open>A player enters a battleground, and another one joins his raid.\<close>

definition ex_battle :: "nat \<Rightarrow> gworld" where
  "ex_battle n = fold (\<lambda>op w. fst (run_op op w)) (take n
     [BgOp ex_genv 7 0 30 None 1, BgOp ex_genv 8 0 30 (Some 7) 2]) ex_start"

lemma ex_start_empty: "no_groups ex_start"
  by (simp add: no_groups_def ex_start_def ex_player_def new_group_def links_def)

lemma ex_battle_reached: "play_step\<^sup>*\<^sup>* ex_start (ex_battle 2)" "group_step\<^sup>*\<^sup>* ex_start (ex_battle 2)"
proof -
  have g: "granted (BgOp ex_genv 7 0 30 None 1) ex_start" "granted (BgOp ex_genv 8 0 30 (Some 7) 2) (fst (run_op (BgOp ex_genv 7 0 30 None 1) ex_start))"
    by code_simp+
  have e: "ex_battle 2 = fst (run_op (BgOp ex_genv 8 0 30 (Some 7) 2) (fst (run_op (BgOp ex_genv 7 0 30 None 1) ex_start)))"
    by (simp add: ex_battle_def numeral_2_eq_2)
  have "play_step ex_start (fst (run_op (BgOp ex_genv 7 0 30 None 1) ex_start))"
    "play_step (fst (run_op (BgOp ex_genv 7 0 30 None 1) ex_start)) (ex_battle 2)"
    unfolding e by (rule play_step.intros [OF g(1)], simp) (rule play_step.intros [OF g(2)], simp)
  then show "play_step\<^sup>*\<^sup>* ex_start (ex_battle 2)"
    by (meson converse_rtranclp_into_rtranclp rtranclp.rtrancl_refl)
  have "group_step ex_start (fst (run_op (BgOp ex_genv 7 0 30 None 1) ex_start))"
    "group_step (fst (run_op (BgOp ex_genv 7 0 30 None 1) ex_start)) (ex_battle 2)"
    unfolding e by (rule group_step.intros [OF g(1)]) (rule group_step.intros [OF g(2)])
  then show "group_step\<^sup>*\<^sup>* ex_start (ex_battle 2)"
    by (meson converse_rtranclp_into_rtranclp rtranclp.rtrancl_refl)
qed

end
