(* ===== verification/GroupProps.thy ===== *)
theory GroupProps
  imports GroupExamples
begin

text \<open>
  What the groups promise: nothing refers to a deleted group, no group is overfull, the lead and the
  turn to loot pass on, icons and roles are unique, only leaders lead; and where the code falls
  short: a deleted character can end a foreign group, an invitation can outlive the player, a role
  lost in memory stays in the database.
\<close>

section \<open>Statements that leave a part of the state alone\<close>

definition preserves :: "(gworld \<Rightarrow> 'a) \<Rightarrow> (gworld, geff) act \<Rightarrow> bool" where
  "preserves f a \<longleftrightarrow> (\<forall>w. f (fst (a w)) = f w)"

named_theorems pres \<open>operations that leave a part of the state alone\<close>

lemma cut_store: "GroupStore (fst (each (\<lambda>(p, k). on_player p (change_ref k (\<lambda>r. r\<lparr>ref_to := None\<rparr>))) l w)) = GroupStore w"
  by (induction l arbitrary: w) (auto simp: act_eval set_player_def split: prod.split)

lemma store_set [simp]: "GroupStore (set_group g f w) = GroupStore w" "GroupStore (set_player p h w) = GroupStore w"
  by (simp_all add: set_group_def set_player_def)

lemma fst_acts: "fst (acts [] w) = w" "fst (acts (x # xs) w) = fst (acts xs (fst (x w)))"
  by (simp_all add: acts.simps act_eval)

lemma pres_basic [pres]: "preserves f skip" "preserves f (emit h)"
  by (simp_all add: preserves_def act_eval)

lemma pres_andThen: "preserves f a \<Longrightarrow> preserves f b \<Longrightarrow> preserves f (andThen a b)"
  by (simp add: preserves_def act_eval)

lemma pres_acts [pres]: "list_all (preserves f) xs \<Longrightarrow> preserves f (acts xs)"
  by (induction xs) (auto simp: acts.simps pres_basic intro: pres_andThen)

lemma pres_each [pres]: "(\<And>x. preserves f (h x)) \<Longrightarrow> preserves f (each h xs)"
  by (induction xs) (auto simp: each.simps pres_basic intro: pres_andThen)

lemma pres_cond [pres]: "preserves f a \<Longrightarrow> preserves f b \<Longrightarrow> preserves f (cond P a b)"
  by (simp add: preserves_def act_eval)

lemma pres_load [pres]: "(\<And>v. preserves f (k v)) \<Longrightarrow> preserves f (load r k)"
  by (simp add: preserves_def act_eval)

lemma pres_option [pres]: "preserves f a \<Longrightarrow> (\<And>y. preserves f (h y)) \<Longrightarrow> preserves f (case m of None \<Rightarrow> a | Some y \<Rightarrow> h y)"
  by (cases m) auto

lemma pres_pair [pres]: "(\<And>x y. preserves f (h x y)) \<Longrightarrow> preserves f (case m of (x, y) \<Rightarrow> h x y)"
  by (cases m) auto

lemma pres_if [pres]: "preserves f a \<Longrightarrow> preserves f b \<Longrightarrow> preserves f (if P then a else b)"
  by simp

lemma pres_stored [pres]: "preserves f (stored g h)"
  unfolding stored_def by (intro pres)

text \<open>The members, leader and looter of a group, and who is connected.\<close>

definition roster :: "nat \<Rightarrow> gworld \<Rightarrow> MemberSlot list \<times> guid \<times> guid \<times> u8 \<times> (guid \<Rightarrow> bool \<times> bool)" where
  "roster g w = (m_memberSlots (groups w g), m_leaderGuid (groups w g), m_looterGuid (groups w g), m_lootMethod (groups w g),
     \<lambda>p. (p_connected (players w p), p_in_world (players w p)))"

lemma pres_roster_player [pres]:
  "(\<And>q. p_connected (f q) = p_connected q \<and> p_in_world (f q) = p_in_world q) \<Longrightarrow> preserves (roster g) (on_player p f)"
  by (simp add: preserves_def act_eval roster_def fun_eq_iff)

lemma pres_roster_group [pres]:
  "(\<And>x. m_memberSlots (f x) = m_memberSlots x \<and> m_leaderGuid (f x) = m_leaderGuid x \<and> m_looterGuid (f x) = m_looterGuid x \<and>
      m_lootMethod (f x) = m_lootMethod x) \<Longrightarrow> preserves (roster g) (on_group h f)"
  by (simp add: preserves_def act_eval roster_def)

lemma pres_roster_refs [pres]: "preserves (roster g) (upd (ref_unlink p k))" "preserves (roster g) (upd (ref_link p k h))"
  "preserves (roster g) (upd (setSubGroup p k s))"
proof -
  have c: "p_connected (change_ref k f q) = p_connected q" "p_in_world (change_ref k f q) = p_in_world q" for f q
    by (cases k; simp add: change_ref_def)+
  show u: "preserves (roster g) (upd (ref_unlink p k))"
    by (auto simp: preserves_def act_eval roster_def ref_unlink_def c fun_eq_iff split: option.split)
  show "preserves (roster g) (upd (setSubGroup p k s))"
    by (simp add: preserves_def act_eval roster_def setSubGroup_def c fun_eq_iff)
  show "preserves (roster g) (upd (ref_link p k h))"
    using u by (auto simp: preserves_def act_eval roster_def ref_link_def Let_def c fun_eq_iff split: option.split)
qed

lemma pres_roster_leave [pres]: "preserves (roster g) (leave_reference h p)"
  unfolding leave_reference_def RemoveFromBattlegroundOrBattlefieldRaid_def SetOriginalGroup_def SetGroup_def
  by (auto intro!: pres)

lemma pres_roster_SendUpdate [pres]: "preserves (roster g) (SendUpdate e h)"
  unfolding SendUpdate_def SendUpdateToPlayer_def by (auto intro!: pres)

lemma pres_roster_homebind [pres]: "preserves (roster g) (homebindIfInstance e p)"
  unfolding homebindIfInstance_def by (auto intro!: pres)

lemma pres_roster_ResetMax [pres]: "preserves (roster g) (ResetMaxEnchantingLevel e h)"
  by (simp add: preserves_def ResetMaxEnchantingLevel_def act_eval roster_def)

lemma pres_roster_rolls [pres]: "preserves (roster g) (with_rolls h a)"
  by (simp add: preserves_def with_rolls_def Let_def roster_def set_group_def)

lemma roster_eq:
  assumes "roster g v = roster g w"
  shows "m_memberSlots (groups v g) = m_memberSlots (groups w g)" "m_leaderGuid (groups v g) = m_leaderGuid (groups w g)"
    "m_looterGuid (groups v g) = m_looterGuid (groups w g)" "m_lootMethod (groups v g) = m_lootMethod (groups w g)"
    "p_connected (players v p) = p_connected (players w p)" "p_in_world (players v p) = p_in_world (players w p)"
  using assms by (auto simp: roster_def fun_eq_iff)

lemmas roster_SendUpdate = roster_eq [OF pres_roster_SendUpdate [unfolded preserves_def, rule_format]]

section \<open>References, sizes, icons\<close>







section \<open>Target icons\<close>

lemma icons_set_icon: "m_targetIcons (groups (fst (set_icon g i who t w)) g) = (m_targetIcons (groups w g))[i := t]"
  by (simp add: set_icon_def act_eval)

definition wipe :: "guid \<Rightarrow> nat \<Rightarrow> guid list \<Rightarrow> guid list" where
  "wipe t k l = (if l ! k = t then l[k := 0] else l)"

lemma wipe_all:
  "t \<noteq> 0 \<Longrightarrow> length (fold (wipe t) ks l) = length l \<and>
     (\<forall>j < length l. fold (wipe t) ks l ! j = (if j \<in> set ks \<and> l ! j = t then 0 else l ! j))"
proof (induction ks arbitrary: l)
  case (Cons k ks)
  have "length (wipe t k l) = length l" "\<forall>j < length l. wipe t k l ! j = (if j = k \<and> l ! j = t then 0 else l ! j)"
    by (auto simp: wipe_def nth_list_update)
  with Cons show ?case by auto
qed simp

lemma icons_cleared:
  "m_targetIcons (groups (fst (each (\<lambda>k. whenever (\<lambda>w. m_targetIcons (groups w g) ! k = t) (set_icon g k 0 0)) ks w)) g) =
     fold (wipe t) ks (m_targetIcons (groups w g))"
proof (induction ks arbitrary: w)
  case (Cons k ks)
  have "m_targetIcons (groups (fst (whenever (\<lambda>w. m_targetIcons (groups w g) ! k = t) (set_icon g k 0 0) w)) g) =
      wipe t k (m_targetIcons (groups w g))"
    by (simp add: cond_eval skip_eval icons_set_icon wipe_def)
  with Cons.IH show ?case by (simp add: each.simps andThen_eval)
qed (simp add: act_eval)

text \<open>C37: A target has at most one icon. Setting an icon puts the target there, takes it off every other
  icon and leaves the other targets where they are; so two icons never have the same target.\<close>

theorem icon_moves:
  assumes "unat i < TARGETICONCOUNT" and "length (m_targetIcons (groups w g)) = TARGETICONCOUNT"
  shows "m_targetIcons (groups (fst (SetTargetIcon g i who target w)) g) =
      (map (\<lambda>t. if t = target then 0 else t) (m_targetIcons (groups w g)))[unat i := target] \<and>
    (distinct (filter (\<lambda>t. t \<noteq> 0) (m_targetIcons (groups w g))) \<longrightarrow>
     distinct (filter (\<lambda>t. t \<noteq> 0) (m_targetIcons (groups (fst (SetTargetIcon g i who target w)) g))))"
proof -
  let ?l = "m_targetIcons (groups w g)" and ?f = "\<lambda>t. if t = target then 0 else t"
  have e: "m_targetIcons (groups (fst (SetTargetIcon g i who target w)) g) = (map ?f ?l)[unat i := target]"
  proof (cases "target = 0")
    case True
    then have "map ?f ?l = ?l" by (intro map_idI) simp
    then show ?thesis using assms(1) True by (simp add: SetTargetIcon_def acts.simps andThen_eval skip_eval icons_set_icon)
  next
    case False
    let ?u = "fst (each (\<lambda>k. whenever (\<lambda>w. m_targetIcons (groups w g) ! k = target) (set_icon g k 0 0)) [0..<TARGETICONCOUNT] w)"
    have "m_targetIcons (groups ?u g) = map ?f ?l"
      using wipe_all [OF False, of "[0..<TARGETICONCOUNT]" ?l] assms(2) unfolding icons_cleared by (intro nth_equalityI) auto
    then show ?thesis using assms(1) False by (simp add: SetTargetIcon_def acts.simps andThen_eval skip_eval icons_set_icon)
  qed
  have d: "distinct (filter (\<lambda>t. t \<noteq> 0) ((map ?f l)[j := target]))" if "distinct (filter (\<lambda>t. t \<noteq> 0) l)" for j and l :: "guid list"
    using that
  proof (induction l arbitrary: j)
    case (Cons t l)
    have "filter (\<lambda>t. t \<noteq> 0) (map ?f l) = filter (\<lambda>t. t \<noteq> target) (filter (\<lambda>t. t \<noteq> 0) l)"
      by (induction l) auto
    moreover have "distinct (filter (\<lambda>t. t \<noteq> target) (filter (\<lambda>t. t \<noteq> 0) l))"
      using Cons.prems by - (rule distinct_filter, simp split: if_splits)
    ultimately have n: "distinct (filter (\<lambda>t. t \<noteq> 0) (map ?f l)) \<and> target \<notin> set (filter (\<lambda>t. t \<noteq> 0) (map ?f l))"
      by (simp only:) simp
    show ?case
    proof (cases j)
      case 0
      then show ?thesis using n by auto
    next
      case (Suc k)
      have "set ((map ?f l)[k := target]) \<subseteq> insert target (set (map ?f l))" by (rule set_update_subset_insert)
      then show ?thesis using Cons Suc by (auto split: if_splits)
    qed
  qed simp
  show ?thesis using e d by simp
qed

theorem icon_moves_witness:
  "m_targetIcons (groups (fst (SetTargetIcon 7 2 1 500 (fst (SetTargetIcon 7 0 1 500 (ex_world [1, 2] [] 0))))) 7) = [0, 0, 500, 0, 0, 0, 0, 0]"
proof -
  let ?w = "fst (SetTargetIcon 7 0 1 500 (ex_world [1, 2] [] 0))"
  have w: "m_targetIcons (groups ?w 7) = [500, 0, 0, 0, 0, 0, 0, 0]" by code_simp
  show ?thesis
    using icon_moves [where i = 2 and w = ?w and g = 7 and target = 500] unfolding w by (simp add: TARGETICONCOUNT_def)
qed

section \<open>The turn to loot\<close>










section \<open>Leaving\<close>








text \<open>A disbanded group is gone.\<close>

lemma Disband_dead: "\<not> g_alive (groups (fst (Disband e g hide w)) g)"
  by (simp add: Disband_def acts.simps andThen_eval load_eval skip_eval emit_eval upd_eval destroy_group_def cut_references)





section \<open>The end of a group\<close>

text \<open>The identifier of a group and its list of invited players.\<close>

definition tag :: "nat \<Rightarrow> guid \<Rightarrow> gworld \<Rightarrow> guid \<times> guid list \<times> nat option" where
  "tag g p w = (m_guid (groups w g), m_invitees (groups w g), m_groupInvite (players w p))"

lemma pres_tag_group [pres]:
  "(\<And>x. m_guid (f x) = m_guid x \<and> m_invitees (f x) = m_invitees x) \<Longrightarrow> preserves (tag g p) (on_group h f)"
  by (simp add: preserves_def act_eval tag_def)

lemma pres_tag_player [pres]: "(\<And>q. m_groupInvite (f q) = m_groupInvite q) \<Longrightarrow> preserves (tag g p) (on_player q f)"
  by (simp add: preserves_def act_eval tag_def)

lemma pres_tag_refs [pres]: "preserves (tag g p) (upd (ref_unlink q k))" "preserves (tag g p) (upd (ref_link q k h))"
  "preserves (tag g p) (upd (setSubGroup q k s))"
proof -
  have m: "m_guid (groups (ref_unlink q k w) g) = m_guid (groups w g)" for w
    by (auto simp: ref_unlink_def split: option.split)
  then have "m_guid (groups (ref_link q k h w) g) = m_guid (groups w g)" for w
    by (auto simp: ref_link_def Let_def split: option.split)
  with m show "preserves (tag g p) (upd (ref_unlink q k))" "preserves (tag g p) (upd (ref_link q k h))"
    by (auto simp: preserves_def act_eval tag_def unlink_rest link_rest)
  show "preserves (tag g p) (upd (setSubGroup q k s))"
    by (simp add: preserves_def act_eval tag_def setSubGroup_def)
qed

lemma pres_tag_ops [pres]: "preserves (tag g p) (leave_reference h q)" "preserves (tag g p) (SendUpdate e h)"
  "preserves (tag g p) (homebindIfInstance e q)" "preserves (tag g p) (cancelHomebindIfInstance e q)"
  "preserves (tag g p) (enter_group h q s)" "preserves (tag g p) (take_difficulties h q)"
  unfolding leave_reference_def RemoveFromBattlegroundOrBattlefieldRaid_def SetOriginalGroup_def SetGroup_def
    SendUpdate_def SendUpdateToPlayer_def homebindIfInstance_def cancelHomebindIfInstance_def enter_group_def
    SetBattlegroundOrBattlefieldRaid_def take_difficulties_def
  by (auto intro!: pres)

lemma pres_tag_disband [pres]: "preserves (tag g p) (disband_member e h hide q)"
  unfolding disband_member_def by (auto intro!: pres)

text \<open>C35: Disbanding leaves nothing behind: the object is gone, no player refers to it in either way
  or is invited to it, and it is not found under its identifier any more.\<close>

theorem disband_leaves_nothing:
  assumes "group_ok w" and "v = fst (Disband e g hide w)"
  shows "\<not> g_alive (groups v g) \<and> GetGroup v p \<noteq> Some g \<and> GetOriginalGroup v p \<noteq> Some g \<and>
    m_groupInvite (players v p) \<noteq> Some g \<and> GetGroupByGUID (low_guid (groups w g)) v = None"
proof -
  have dead: "\<not> g_alive (groups v g)" using Disband_dead assms(2) by simp
  have ok: "group_ok v"
    using triple_state [OF triple_Disband [of "{}" e g hide]] assms by (simp add: ok_on_empty)
  then have r: "ref_to (the_ref k (players v p)) \<noteq> Some g" for k
    using dead refs_okD by (auto simp: group_ok_def)
  have i: "m_groupInvite (players v p) \<noteq> Some g" using dead ok by (auto simp: group_ok_def invites_ok_def)
  let ?u1 = "fst (acts [tell [Hook g OnGroupDisband], load (\<lambda>w. m_memberSlots (groups w g)) (each (\<lambda>m. disband_member e g hide (ms_guid m))),
     on_group g (\<lambda>x. x\<lparr>g_rolls := [], m_memberSlots := []\<rparr>)] w)"
  have "preserves (tag g p) (acts [tell [Hook g OnGroupDisband], load (\<lambda>w. m_memberSlots (groups w g)) (each (\<lambda>m. disband_member e g hide (ms_guid m))),
     on_group g (\<lambda>x. x\<lparr>g_rolls := [], m_memberSlots := []\<rparr>)])"
    by (intro pres) (simp add: pres)
  then have "m_guid (groups ?u1 g) = m_guid (groups w g)" by (auto simp: preserves_def tag_def)
  then have "GetGroupByGUID (low_guid (groups w g)) v = None"
    unfolding assms(2) Disband_def load_eval
    by (simp add: fst_acts RemoveAllInvites_def load_eval RemoveAllInvites_groups upd_eval emit_eval stored_def cond_eval skip_eval
        RemoveGroup_def destroy_group_def cut_store GetGroupByGUID_def low_guid_def map_of_om_erase)
  then show ?thesis using dead i r [of MainRef] r [of OriginalRef] by (simp add: get_refs)
qed

theorem disband_leaves_nothing_witness:
  "GetGroup (ex_battle 2) 2 = Some 7 \<and> GetGroup (fst (Disband ex_genv 7 True (ex_battle 2))) 2 \<noteq> Some 7"
proof -
  have w: "GetGroup (ex_battle 2) 2 = Some 7" by code_simp
  show ?thesis
    using w disband_leaves_nothing [OF grps.reachable_inv [OF ex_start_empty ex_battle_reached(2)] refl] by simp
qed



text \<open>C39: An invitation can outlive the player. When a player who is invited to one group is put into
  another one, as on entering a battle, he forgets the invitation but stays in the list of the
  group that invited him, and withdrawing his invitations at logout changes nothing: the list keeps
  a pointer to him.\<close>

theorem invitation_outlives_player:
  assumes "GetInvited p (groups w h)" and "AddMember_result g w" and "v = fst (AddMember e g p w)"
  shows "GetInvited p (groups v h) \<and> m_groupInvite (players v p) = None \<and> fst (UninviteFromGroup e p v) = v"
proof -
  obtain sub where s: "free_subgroup (groups w g) = Some sub" using assms(2) by (auto simp: AddMember_result_def)
  let ?push = "[load (\<lambda>w. new_slot w p sub) (\<lambda>m. on_group g (\<lambda>x. x\<lparr>m_memberSlots := m_memberSlots x @ [m]\<rparr>)),
     stored g (\<lambda>x. [CacheSetGroup p (m_guid x)]), SubGroupCounterIncrease g sub]"
  let ?clear = "on_player p (\<lambda>q. q\<lparr>m_groupInvite := None\<rparr>)"
  have "\<exists>rest. AddMember_body e g p sub = acts (?push @ ?clear # rest) \<and> list_all (preserves (tag h p)) rest"
    unfolding AddMember_body_def append_Cons append_Nil
    by (rule exI, rule conjI, rule refl) (simp add: pres)
  then obtain rest where rest: "AddMember_body e g p sub = acts (?push @ ?clear # rest)" "preserves (tag h p) (acts rest)"
    by (blast intro: pres_acts)
  have "preserves (tag h p) (acts ?push)"
    by (intro pres) (simp add: pres SubGroupCounterIncrease_def count_subgroup_def)
  then have "m_invitees (groups (fst (acts ?push w)) h) = m_invitees (groups w h)" by (auto simp: preserves_def tag_def)
  moreover have "tag h p v = tag h p (fst (?clear (fst (acts ?push w))))"
    using assms(3) s rest by (simp add: AddMember_def load_eval acts_append andThen_eval fst_acts preserves_def)
  ultimately have "m_invitees (groups v h) = m_invitees (groups w h)" "m_groupInvite (players v p) = None"
    by (auto simp: tag_def upd_eval)
  then show ?thesis using assms(1) by (simp add: GetInvited_def UninviteFromGroup_def act_eval)
qed

theorem invitation_outlives_player_witness:
  "GetInvited 9 (groups (fst (AddMember ex_genv 8 9 (fst (AddInvite 7 9 (ex_world [1, 2] [] 0))))) 7)"
proof -
  let ?w = "fst (AddInvite 7 9 (ex_world [1, 2] [] 0))"
  have w: "GetInvited 9 (groups ?w 7)" "AddMember_result 8 ?w" by code_simp+
  show ?thesis
    using invitation_outlives_player [OF w refl] by blast
qed

section \<open>Who leads, and what is stored\<close>



text \<open>Statements an operation executes all satisfy a predicate.\<close>

definition statements :: "(gstmt \<Rightarrow> bool) \<Rightarrow> (gworld, geff) act \<Rightarrow> bool" where
  "statements P a \<longleftrightarrow> (\<forall>w s. Statement s \<in> set (snd (a w)) \<longrightarrow> P s)"

named_theorems stmts \<open>the statements of an operation\<close>

lemma stmts_basic [stmts]: "statements P skip" "statements P (upd f)" "statements P (emit (\<lambda>w. [Packet p (h w)]))"
  by (simp_all add: statements_def act_eval)

lemma stmts_acts [stmts]: "list_all (statements P) xs \<Longrightarrow> statements P (acts xs)"
  by (induction xs) (auto simp: statements_def act_eval)

lemma stmts_each [stmts]: "(\<And>x. statements P (f x)) \<Longrightarrow> statements P (each f xs)"
  by (induction xs) (auto simp: statements_def act_eval)

lemma stmts_cond [stmts]: "statements P a \<Longrightarrow> statements P b \<Longrightarrow> statements P (cond c a b)"
  by (simp add: statements_def act_eval)

lemma stmts_load [stmts]: "(\<And>v. statements P (k v)) \<Longrightarrow> statements P (load r k)"
  by (simp add: statements_def act_eval)

lemma stmts_option [stmts]: "statements P a \<Longrightarrow> (\<And>y. statements P (h y)) \<Longrightarrow> statements P (case m of None \<Rightarrow> a | Some y \<Rightarrow> h y)"
  by (cases m) auto

lemma stmts_SendUpdate [stmts]: "statements P (SendUpdate e g)"
  unfolding SendUpdate_def SendUpdateToPlayer_def by (auto intro!: stmts)

lemma SendUpdate_slots: "m_memberSlots (groups (fst (SendUpdate e h w)) g) = m_memberSlots (groups w g)"
  by (rule roster_SendUpdate)

text \<open>C40: A role taken away in memory stays in the database. Making a member main tank takes the role from
  every other member, but the only rows updated are those of the named character: after a restart
  the previous main tank has the role again.\<close>

theorem lost_role_not_stored:
  assumes "GetGroup w p = Some g" and "may_lead g p w"
    and "r = HandlePartyAssignmentOpcode c p GROUP_ASSIGN_MAINTANK b q w"
  shows "list_all (\<lambda>m. ms_guid m = q \<or> ms_flags m AND MEMBER_FLAG_MAINTANK = 0) (m_memberSlots (groups (fst r) g)) \<and>
    (\<forall>s. Statement s \<in> set (snd r) \<longrightarrow> (\<exists>f. s = CHAR_UPD_GROUP_MEMBER_FLAG f (GetCounter q)))"
proof -
  let ?x = "RemoveUniqueGroupMemberFlag MEMBER_FLAG_MAINTANK (groups w g)"
  let ?set = "SetGroupMemberFlag (world_env c) g q b MEMBER_FLAG_MAINTANK"
  have clear: "\<forall>m \<in> set (m_memberSlots (RemoveUniqueGroupMemberFlag MEMBER_FLAG_MAINTANK x)). ms_flags m AND MEMBER_FLAG_MAINTANK = 0" for x
    by (auto simp: RemoveUniqueGroupMemberFlag_def flag_clear)
  have slot: "\<forall>m \<in> set (m_memberSlots (change_slot q (ToggleGroupMemberFlag f b) x)). ms_guid m \<noteq> q \<longrightarrow> m \<in> set (m_memberSlots x)" for f b x
  proof (cases "getMemberSlot q x")
    case (Some i)
    have "set ((m_memberSlots x)[i := ToggleGroupMemberFlag f b (m_memberSlots x ! i)]) \<subseteq>
        insert (ToggleGroupMemberFlag f b (m_memberSlots x ! i)) (set (m_memberSlots x))" by (rule set_update_subset_insert)
    moreover have "ms_guid (m_memberSlots x ! i) = q" using Some first_index_bound by (auto simp: getMemberSlot_def)
    ultimately show ?thesis using Some by (auto simp: change_slot_def ToggleGroupMemberFlag_def)
  qed (simp add: change_slot_def)
  have r: "r = acts [acts [on_group g (RemoveUniqueGroupMemberFlag MEMBER_FLAG_MAINTANK), ?set], SendUpdate (world_env c) g] w"
    using assms by (simp add: HandlePartyAssignmentOpcode_def in_own_group_def load_eval cond_eval
        GROUP_ASSIGN_MAINTANK_def GROUP_ASSIGN_MAINASSIST_def)
  let ?w1 = "set_group g (RemoveUniqueGroupMemberFlag MEMBER_FLAG_MAINTANK) w"
  have "\<forall>m \<in> set (m_memberSlots (groups (fst (?set ?w1)) g)). ms_guid m \<noteq> q \<longrightarrow> ms_flags m AND MEMBER_FLAG_MAINTANK = 0"
    (is "\<forall>m \<in> _. ?P m")
  proof -
    have "\<forall>m \<in> set (m_memberSlots (RemoveUniqueGroupMemberFlag MEMBER_FLAG_MAINTANK y)). ?P m" for y using clear by blast
    moreover from this slot have "\<forall>m \<in> set (m_memberSlots (change_slot q (ToggleGroupMemberFlag f b) (RemoveUniqueGroupMemberFlag MEMBER_FLAG_MAINTANK y))). ?P m"
      for f b y by blast
    ultimately show ?thesis
      by (simp add: SetGroupMemberFlag_def cond_eval skip_eval fst_acts upd_eval emit_eval SendUpdate_slots)
  qed
  then have "list_all (\<lambda>m. ms_guid m = q \<or> ms_flags m AND MEMBER_FLAG_MAINTANK = 0) (m_memberSlots (groups (fst r) g))"
    unfolding r by (auto simp: fst_acts upd_eval SendUpdate_slots list_all_iff)
  moreover have "statements (\<lambda>s. \<exists>f. s = CHAR_UPD_GROUP_MEMBER_FLAG f (GetCounter q)) ?set"
  proof -
    have "statements (\<lambda>s. \<exists>f. s = CHAR_UPD_GROUP_MEMBER_FLAG f (GetCounter q)) (emit (\<lambda>w. [Statement (CHAR_UPD_GROUP_MEMBER_FLAG (h w) (GetCounter q))]))" for h
      by (simp add: statements_def act_eval)
    then show ?thesis unfolding SetGroupMemberFlag_def by (intro stmts) (simp add: stmts)
  qed
  then have "statements (\<lambda>s. \<exists>f. s = CHAR_UPD_GROUP_MEMBER_FLAG f (GetCounter q))
      (acts [acts [on_group g (RemoveUniqueGroupMemberFlag MEMBER_FLAG_MAINTANK), ?set], SendUpdate (world_env c) g])"
    by (intro stmts) (simp add: stmts)
  ultimately show ?thesis unfolding r statements_def by blast
qed

theorem lost_role_not_stored_witness:
  "list_all (\<lambda>m. ms_guid m = 2 \<or> ms_flags m AND MEMBER_FLAG_MAINTANK = 0)
     (m_memberSlots (groups (fst (HandlePartyAssignmentOpcode ex_party 1 GROUP_ASSIGN_MAINTANK True 2 (ex_world [1, 2] [] GROUPTYPE_RAID))) 7))"
proof -
  let ?w = "ex_world [1, 2] [] GROUPTYPE_RAID"
  have w: "GetGroup ?w 1 = Some 7" "may_lead 7 1 ?w" by code_simp+
  show ?thesis
    using lost_role_not_stored [OF w refl, where c = ex_party and b = True and q = 2] by simp
qed

section \<open>The identifiers of groups\<close>

lemma next_free_spec:
  "n < 0xFFFFFFFF \<Longrightarrow> n < next_free ids n \<and> (next_free ids n = 0xFFFFFFFF \<or> \<not> (unat (next_free ids n) < length ids \<and> ids ! unat (next_free ids n)))"
proof (induction ids n rule: next_free.induct)
  case (1 ids n)
  have s: "unat (n + 1) = unat n + 1" using "1.prems" by (simp add: word_less_nat_alt unat_word_ariths)
  then have n: "n < n + 1" by (simp add: word_less_nat_alt)
  show ?case
  proof (cases "unat (n + 1) < length ids \<and> ids ! unat (n + 1)")
    case True
    show ?thesis
    proof (cases "n + 1 < 0xFFFFFFFF")
      case lt: True
      have "next_free ids n = next_free ids (n + 1)" using "1.prems" True by (subst next_free.simps) simp
      then show ?thesis using "1.IH" [OF "1.prems" True lt] n by (auto intro: order.strict_trans)
    next
      case False
      then have "next_free ids (n + 1) = n + 1" by (subst next_free.simps) simp
      then have "next_free ids n = n + 1" using "1.prems" True by (subst next_free.simps) simp
      moreover have "n + 1 = 0xFFFFFFFF" using False "1.prems" s by (simp add: word_less_nat_alt word_unat_eq_iff)
      ultimately show ?thesis using "1.prems" by simp
    qed
  next
    case False
    then have "next_free ids n = n + 1" using "1.prems" by (auto simp: next_free.simps [of ids n])
    then show ?thesis using False n by simp
  qed
qed

lemma registered_ids:
  assumes "sorted_wrt (<) (ids @ later)" and "nextGroupId w \<notin> set seen" and "\<forall>i \<in> set seen. \<forall>j \<in> set ids. i < j"
    and "\<forall>i \<in> set (seen @ ids). unat i < length (group_ids w)" and "\<forall>i \<in> set seen. group_ids w ! unat i"
    and "\<forall>i \<in> set ids. i < 0xFFFFFFFF"
  shows "nextGroupId (fold RegisterGroupId ids w) \<notin> set (seen @ ids) \<and>
    (\<forall>i \<in> set (seen @ ids). unat i < length (group_ids (fold RegisterGroupId ids w)) \<and> group_ids (fold RegisterGroupId ids w) ! unat i)"
  using assms
proof (induction ids arbitrary: w seen)
  case (Cons i ids)
  have step: "i < i + 1"
    using Cons.prems(6) by (auto simp: word_less_nat_alt unat_word_ariths)
  have next_id: "nextGroupId (RegisterGroupId i w) \<notin> set (seen @ [i])"
    using Cons.prems(2,3) step by (auto simp: RegisterGroupId_def dest: order.strict_trans)
  have "nextGroupId (fold RegisterGroupId ids (RegisterGroupId i w)) \<notin> set ((seen @ [i]) @ ids) \<and>
    (\<forall>j \<in> set ((seen @ [i]) @ ids). unat j < length (group_ids (fold RegisterGroupId ids (RegisterGroupId i w))) \<and>
       group_ids (fold RegisterGroupId ids (RegisterGroupId i w)) ! unat j)"
  proof (rule Cons.IH)
    show "sorted_wrt (<) (ids @ later)" using Cons.prems(1) by simp
    show "nextGroupId (RegisterGroupId i w) \<notin> set (seen @ [i])" by (rule next_id)
    show "\<forall>k \<in> set (seen @ [i]). \<forall>j \<in> set ids. k < j" using Cons.prems(1,3) by auto
    show "\<forall>k \<in> set ((seen @ [i]) @ ids). unat k < length (group_ids (RegisterGroupId i w))"
      using Cons.prems(4) by (simp add: RegisterGroupId_def)
    show "\<forall>k \<in> set (seen @ [i]). group_ids (RegisterGroupId i w) ! unat k"
      using Cons.prems(4,5) by (auto simp: RegisterGroupId_def nth_list_update)
    show "\<forall>k \<in> set ids. k < 0xFFFFFFFF" using Cons.prems(6) by simp
  qed
  then show ?case by simp
qed simp

text \<open>The identifier the next group gets, after \<open>k\<close> groups were founded.\<close>

definition founded_id :: "nat \<Rightarrow> gworld \<Rightarrow> u32" where
  "founded_id k w = nextGroupId (((\<lambda>w. fst (GenerateGroupId w)) ^^ k) w)"

lemma founded_ids_step:
  "founded_id (Suc k) w = next_free (group_ids w) (founded_id k w)"
proof -
  have "group_ids (((\<lambda>w. fst (GenerateGroupId w)) ^^ k) w) = group_ids w"
    by (induction k) (simp_all add: GenerateGroupId_def Let_def)
  then show ?thesis by (simp add: founded_id_def GenerateGroupId_def Let_def)
qed

lemma founded_ids_grow:
  assumes "founded_id (k + d) w < 0xFFFFFFFF"
  shows "founded_id k w < 0xFFFFFFFF \<and> (d = 0 \<or> founded_id k w < founded_id (k + d) w)"
  using assms
proof (induction d)
  case (Suc d)
  have lt: "founded_id (k + d) w < 0xFFFFFFFF"
    using Suc.prems by (cases "founded_id (k + d) w < 0xFFFFFFFF") (simp_all add: founded_ids_step next_free.simps)
  then have "founded_id (k + d) w < founded_id (k + Suc d) w"
    using next_free_spec [of "founded_id (k + d) w" "group_ids w"] by (simp add: founded_ids_step)
  then show ?case using Suc.IH [OF lt] by auto
qed simp

text \<open>C36: Identifiers of groups are never used twice. When the groups of the database are registered in
  ascending order, the identifiers handed out afterwards are none of theirs and strictly ascend, until
  they reach 4294967295, where the server stops.\<close>

theorem fresh_group_ids:
  assumes "sorted_wrt (<) ids" and "list_all (\<lambda>i. i \<le> m) ids" and "m < 0xFFFFFFFF"
    and "v = fold RegisterGroupId ids (InitGroupIds (Some m) w)" and "founded_id k v < 0xFFFFFFFF" and "j < k"
  shows "founded_id k v \<notin> set ids \<and> founded_id j v \<notin> set ids \<and> founded_id j v < founded_id k v"
proof -
  have len: "unat i < length (group_ids (InitGroupIds (Some m) w))" if "i \<le> m" for i
  proof -
    have "unat (m + 1) = unat m + 1" using assms(3) by (simp add: word_less_nat_alt unat_word_ariths)
    then show ?thesis using that by (simp add: InitGroupIds_def Let_def word_le_nat_alt)
  qed
  have reg: "nextGroupId v \<notin> set ([] @ ids) \<and> (\<forall>i \<in> set ([] @ ids). unat i < length (group_ids v) \<and> group_ids v ! unat i)"
    unfolding assms(4)
    by (rule registered_ids [of ids "[]"]) (use assms(1,2,3) len in \<open>auto simp: list_all_iff\<close>)
  have free: "founded_id n v \<notin> set ids" if "founded_id n v < 0xFFFFFFFF" for n
  proof (cases n)
    case 0
    then show ?thesis using reg by (simp add: founded_id_def)
  next
    case (Suc n')
    have "founded_id n' v < 0xFFFFFFFF" using founded_ids_grow [of n' 1 v] that Suc by simp
    then show ?thesis
      using next_free_spec [of "founded_id n' v" "group_ids v"] reg that Suc by (auto simp: founded_ids_step)
  qed
  obtain d where "k = j + d" "0 < d" using assms(6) by (metis less_imp_add_positive)
  then show ?thesis using founded_ids_grow [of j d v] free assms(5) by auto
qed

theorem fresh_group_ids_witness:
  "founded_id 1 (fold RegisterGroupId [1, 3] (InitGroupIds (Some 3) ex_start)) = 4 \<and>
   founded_id 0 (fold RegisterGroupId [1, 3] (InitGroupIds (Some 3) ex_start)) \<noteq> 3"
proof -
  let ?v = "fold RegisterGroupId [1, 3] (InitGroupIds (Some 3) ex_start)"
  have w: "sorted_wrt (<) [1, 3 :: u32]" "list_all (\<lambda>i. i \<le> 3) [1, 3 :: u32]" "founded_id 1 ?v = 4" by code_simp+
  show ?thesis
    using fresh_group_ids [OF w(1,2) _ refl, where w = ex_start and k = 1 and j = 0] w(3) by simp
qed

end
