(* ===== verification/Spec2Isabelle.thy ===== *)
theory Spec2Isabelle
  imports ChannelMgrProps RepProps EventMapProps BaseEncoding LootProps GroupProps
begin

text \<open>
  A verification development for the WarheadCore game server (C++ under
  \<open>src/src/common\<close> and \<open>src/src/server\<close>).

  \<^bold>\<open>The program and its parts.\<close> The world server keeps players, their sessions and the
  social systems around them. Packet handlers (\<open>server/game/Handlers\<close>) parse a request and call
  into a system; a system changes its own tables, sends packets, and executes database
  statements. Modelled are the systems whose tables carry invariants of their own:

  \<^item> identifiers (\<open>ObjectGuid\<close>: \<open>Entities/Object/ObjectGuid.h\<close>): 64-bit words of kind, entry and
    counter, and the counter generator;
  \<^item> chat channels: one channel (\<open>ChannelTypes\<close>, \<open>ChannelPackets\<close>, \<open>Channel\<close>:
    \<open>Chat/Channels/Channel.cpp\<close>, \<open>.h\<close>), the managers and all packet handlers on top (\<open>ChannelMgr\<close>:
    \<open>ChannelMgr.cpp\<close>, \<open>Handlers/ChannelHandler.cpp\<close>, the channel parts of \<open>Player.cpp\<close>);
  \<^item> reputation (\<open>Reputation\<close>: \<open>Reputation/ReputationMgr.cpp\<close>, \<open>.h\<close>), with the single precision
    arithmetic it needs in \<open>Binary32\<close>;
  \<^item> text utilities the systems share (\<open>TextUtil\<close>: \<open>Tokenize.cpp\<close>, \<open>StringConvert.h\<close>, \<open>Util.h\<close>,
    \<open>Util.cpp\<close>, \<open>normalizePlayerName\<close> of \<open>ObjectMgr.cpp\<close>);
  \<^item> the event map of creature scripts (\<open>EventMap\<close>: \<open>common/Utilities/EventMap.cpp\<close>, \<open>.h\<close>);
  \<^item> Base32 and Base64 (\<open>BaseEncoding\<close>: \<open>common/Encoding\<close>);
  \<^item> the loot rolls of a group (\<open>LootRoll\<close>, \<open>LootShare\<close>: the loot part of \<open>Groups/Group.cpp\<close> with
    what it uses of \<open>Loot/LootMgr.h\<close>): opening rolls, votes, the winner, the timer, a leaving member;
  \<^item> groups and raids: the objects and the references of players to them (\<open>GroupTypes\<close>:
    \<open>Groups/Group.h\<close>, \<open>GroupReference.h\<close>, the group parts of \<open>Player.cpp\<close>), members, leader, subgroups
    and the end of a group (\<open>Group\<close>: \<open>Groups/Group.cpp\<close>), founding, loading, battles, icons, looter,
    difficulties and identifiers (\<open>GroupAdmin\<close>: \<open>Group.cpp\<close>, \<open>GroupMgr.cpp\<close>, the raids of
    \<open>Battleground.cpp\<close> and \<open>Battlefield.cpp\<close>), and all packet handlers (\<open>GroupHandler\<close>:
    \<open>Handlers/GroupHandler.cpp\<close>, \<open>Player::UninviteFromGroup\<close>, \<open>CanUninviteFromGroup\<close>, logout, deletion).

  \<^bold>\<open>How state and operations correspond.\<close> A C++ class is a record with the class's fields; a member
  function that changes it is an \<open>act\<close> (theory \<open>Prelude\<close>): a function from the object to the new
  object and the list of effects (packets, statements, calls into other systems) in the order the
  code produces them; an early \<open>return\<close> is a branch of \<open>cond\<close>. Containers are lists in iteration
  order (theory \<open>Containers\<close>): the order of an \<open>unordered_map\<close> is left open (an insertion position
  is an argument, and a step of the channel may permute the table), a \<open>map\<close> is in order of keys, a
  \<open>multimap\<close> in order of keys and of insertion. A null pointer followed is an effect (\<open>NullDeref\<close>),
  an undefined conversion or shift is a value given as a parameter. Integers keep their width.
  Groups are referred to by several players at once, so that their state is a store: group objects
  by address, players by identifier; a deleted group keeps its fields and is no longer alive, an
  operation takes the address, \<open>new\<close> an address that is free. The rolls of a group run in their
  own state, embedded by \<open>with_rolls\<close>.
  What other subsystems answer (players online, the character cache, configuration, client data,
  the UTF-8 codec, random numbers) is a record of functions the operations take as an argument.

  \<^bold>\<open>What the lemmas show.\<close> \<open>ChannelInv\<close> states the invariant of a channel, \<open>ChannelPreserve\<close> that
  every operation keeps it, \<open>ChannelProps\<close> who gets in, who may do what, how ownership passes on
  and what kicks and bans do; \<open>ChannelMgrProps\<close> lifts the invariant to the server and all handlers,
  and settles lookups by name. \<open>RepInv\<close> and \<open>RepPreserve\<close> do the same for reputation (counters and
  totals), \<open>RepProps\<close> adds the effect of gains, the packets and saving.
  \<open>LootOutcome\<close> compares the end of a roll, which changes the totals while the dice are thrown, with a
  direct description of the winner; \<open>LootInv\<close> shows that every operation keeps the open rolls
  well-formed (no total wraps, no item is missing); \<open>LootProps\<close> says who takes part, when a roll ends,
  who gets the item, and that one member can end a roll alone. \<open>EventMapProps\<close> relates the
  restarting loops of the event map to a filter and a stable sort and shows what execution takes
  out. \<open>BaseEncoding\<close> proves the round trip of both codes from what the locale \<open>char_code\<close> asks of
  a character code.
  \<open>GroupInv\<close> states what holds of groups and players together (references and their lists agree,
  nothing refers to a deleted group, subgroup counters count) and the rules for statements that keep
  it, \<open>GroupKeep\<close> applies them to the operations, \<open>GroupServer\<close> to the packets and to everything that
  runs on the groups (\<open>group_op\<close>; \<open>granted\<close> is what the caller of an operation sees to: a new address
  is free, the raid of a battle is there and a raid, a group found at login is there); \<open>GroupCapacity\<close>
  shows that no group is overfull while the server runs (\<open>play_step\<close>: the rows of members, whose
  subgroups the code does not check, are loaded before). \<open>GroupProps\<close> states the properties, on
  the example worlds of \<open>GroupExamples\<close>.

  \<^bold>\<open>Interfaces.\<close> \<open>component\<close> (a step relation and an invariant its steps keep; interpreted as
  \<open>chan\<close>, \<open>srv\<close>, \<open>rep\<close>, \<open>em\<close>, \<open>rolls\<close>, \<open>grps\<close> and \<open>room\<close>), \<open>assoc_store\<close> (a map; \<open>um\<close> and \<open>om\<close>), \<open>timed_queue\<close> (a
  multimap as a queue in order of time; \<open>mmq\<close>), \<open>char_code\<close> (\<open>b32\<close>, \<open>b64\<close>).

  \<^bold>\<open>Bounds and fuel.\<close> No loop of the models runs on fuel: the restarting loops of the event map have
  measures (the events still too early, the length of the map), as have those over the open rolls
  (the rolls, the rolls a player takes part in) and the search for a free group identifier (the
  distance to 4294967295); the padding loop of the
  encoder is a \<open>partial_function\<close> and proved to end. \<open>drain\<close> in \<open>EventMapProps\<close> counts the calls a
  script makes; more calls than entries are enough.

  \<^bold>\<open>Not modelled.\<close> Rendering of log lines, the database layer and the network (their calls are
  effects); voice chat (empty bodies); the boolean result of \<open>ReputationMgr::SetReputation\<close>;
  \<open>Group::CanJoinBattlegroundQueue\<close> and \<open>Group::ResetInstances\<close> (rules of the battleground and
  instance systems), the packets with the statistics of group members;
  the world simulation (units, spells, maps), scripts, and third-party code under \<open>src/deps\<close>.
\<close>

end
